(* ===== verification/Prelude.thy ===== *)
theory Prelude
  imports Main "HOL-Library.Word"
begin

text \<open>
  Shared vocabulary of the development: the C integer types as machine words, the
  homomorphism lemmas of the narrowing casts (\<open>(uint32_t)x\<close> and friends) and the
  conversions between words and the integers they denote. A cast to a narrower or equally
  wide type commutes with the ring operations and with the bitwise ones; these facts are
  collected in \<open>cast_simps\<close>, so that a component proof normalises C expressions
  with \<open>simp add: cast_simps\<close>.
\<close>

unbundle bit_operations_syntax

section \<open>C integer types\<close>

type_synonym u8 = "8 word"
type_synonym u16 = "16 word"
type_synonym u32 = "32 word"
type_synonym u64 = "64 word"

named_theorems cast_simps \<open>narrowing casts commute with the operations\<close>
named_theorems lane_simps \<open>reading back the lanes of a packed vector\<close>

section \<open>Bounded quantifiers over lane numbers\<close>

lemma ex_less_numerals:
  "(\<exists>i<4. P i) \<longleftrightarrow> P 0 \<or> P 1 \<or> P 2 \<or> P (3 :: nat)" "(\<exists>i<2. P i) \<longleftrightarrow> P 0 \<or> P (1 :: nat)"
  by (auto simp: numeral_eq_Suc less_Suc_eq)

lemma all_less_numerals:
  "(\<forall>i<4. P i) \<longleftrightarrow> P 0 \<and> P 1 \<and> P 2 \<and> P (3 :: nat)" "(\<forall>i<2. P i) \<longleftrightarrow> P 0 \<and> P (1 :: nat)"
  by (auto simp: numeral_eq_Suc less_Suc_eq)

section \<open>Narrowing casts\<close>

lemma ucast_add_down [cast_simps]:
  "LENGTH('w) \<le> LENGTH('r) \<Longrightarrow>
    (ucast ((a::'r::len word) + b) :: 'w::len word) = ucast a + ucast b"
  by transfer (metis min.absorb1 take_bit_add take_bit_take_bit)

lemma ucast_diff_down [cast_simps]:
  "LENGTH('w) \<le> LENGTH('r) \<Longrightarrow>
    (ucast ((a::'r::len word) - b) :: 'w::len word) = ucast a - ucast b"
  by transfer (metis min.absorb1 take_bit_diff take_bit_take_bit)

lemma ucast_mult_down [cast_simps]:
  "LENGTH('w) \<le> LENGTH('r) \<Longrightarrow>
    (ucast ((a::'r::len word) * b) :: 'w::len word) = ucast a * ucast b"
  by transfer (metis min.absorb1 take_bit_mult take_bit_take_bit)

lemma ucast_uminus_down [cast_simps]:
  "LENGTH('w) \<le> LENGTH('r) \<Longrightarrow> (ucast (- (a::'r::len word)) :: 'w::len word) = - ucast a"
  by transfer (metis min.absorb1 take_bit_minus take_bit_take_bit)

lemma ucast_and [cast_simps]:
  "(ucast ((a::'r::len word) AND b) :: 'w::len word) = ucast a AND ucast b"
  by (rule bit_word_eqI) (auto simp: bit_simps)

lemma ucast_or [cast_simps]:
  "(ucast ((a::'r::len word) OR b) :: 'w::len word) = ucast a OR ucast b"
  by (rule bit_word_eqI) (auto simp: bit_simps)

lemma ucast_xor [cast_simps]:
  "(ucast ((a::'r::len word) XOR b) :: 'w::len word) = ucast a XOR ucast b"
  by (rule bit_word_eqI) (auto simp: bit_simps)

lemma ucast_not_down [cast_simps]:
  "LENGTH('w) \<le> LENGTH('r) \<Longrightarrow> (ucast (NOT (a::'r::len word)) :: 'w::len word) = NOT (ucast a)"
  by (rule bit_word_eqI) (auto simp: bit_simps)

lemma ucast_scast_down [cast_simps]:
  "LENGTH('w) \<le> LENGTH('r) \<Longrightarrow> LENGTH('w) \<le> LENGTH('a) \<Longrightarrow>
    (ucast (scast (a::'a::len word) :: 'r::len word) :: 'w::len word) = ucast a"
  by (rule bit_word_eqI) (auto simp: bit_simps)

lemma ucast_ucast_down [cast_simps]:
  "LENGTH('w) \<le> LENGTH('r) \<Longrightarrow>
    (ucast (ucast (a::'a::len word) :: 'r::len word) :: 'w::len word) = ucast a"
  by (rule bit_word_eqI) (auto simp: bit_simps)

lemma ucast_ucast_up [cast_simps]:
  "LENGTH('a) \<le> LENGTH('r) \<Longrightarrow>
    (ucast (ucast (a::'a::len word) :: 'r::len word) :: 'w::len word) = ucast a"
  by (rule bit_word_eqI) (auto simp: bit_simps dest: bit_imp_le_length)

section \<open>Words and the integers they denote\<close>

lemma scast_eq_word_of_int: "(scast (a::'a::len word) :: 'b::len word) = word_of_int (sint a)"
  by transfer simp

lemma ucast_eq_word_of_int: "(ucast (a::'a::len word) :: 'b::len word) = word_of_int (uint a)"
  by transfer simp

lemma sint_word_of_int:
  "- (2 ^ (LENGTH('a) - 1)) \<le> k \<Longrightarrow> k < 2 ^ (LENGTH('a) - 1) \<Longrightarrow>
    sint (word_of_int k :: 'a::len word) = k"
  by (simp add: signed_of_int signed_take_bit_int_eq_self)

lemma uint_word_of_int:
  "0 \<le> k \<Longrightarrow> k < 2 ^ LENGTH('a) \<Longrightarrow> uint (word_of_int k :: 'a::len word) = k"
  by (simp add: uint_word_of_int_eq take_bit_int_eq_self)

lemma uint_range: "0 \<le> uint (a::'a::len word)" "uint a < 2 ^ LENGTH('a)"
  by simp_all

lemma sint_range: "- (2 ^ (LENGTH('a) - 1)) \<le> sint (a::'a::len word)" "sint a < 2 ^ (LENGTH('a) - 1)"
  using sint_ge[of a] sint_lt[of a] by simp_all

lemma sint_ranges:
  "- 128 \<le> sint (b::u8)" "sint b < 128" "- 32768 \<le> sint (h::u16)" "sint h < 32768"
  "- 2147483648 \<le> sint (w::u32)" "sint w < 2147483648"
  "- 9223372036854775808 \<le> sint (d::u64)" "sint d < 9223372036854775808"
  using sint_range[of b] sint_range[of h] sint_range[of w] sint_range[of d] by simp_all

lemma uint_ranges:
  "uint (b::u8) < 256" "uint (h::u16) < 65536" "uint (w::u32) < 4294967296"
  "uint (d::u64) < 18446744073709551616"
  using uint_range[of b] uint_range[of h] uint_range[of w] uint_range[of d] by simp_all

lemma sint_uint_cases:
  "sint (a::'a::len word) = (if bit a (LENGTH('a) - 1) then uint a - 2 ^ LENGTH('a) else uint a)"
proof (cases "bit a (LENGTH('a) - 1)")
  case True
  then have neg: "sint a < 0" by (simp add: bit_last_iff)
  have "uint a = sint a mod 2 ^ LENGTH('a)" by (simp add: uint_sint take_bit_eq_mod)
  moreover have "sint a mod 2 ^ LENGTH('a) = sint a + 2 ^ LENGTH('a)"
  proof -
    have pow: "(2::int) ^ (LENGTH('a) - 1) < 2 ^ LENGTH('a)" by simp
    have "(sint a + 2 ^ LENGTH('a)) mod 2 ^ LENGTH('a) = sint a + 2 ^ LENGTH('a)"
      using neg sint_range(1)[of a] pow by (intro mod_pos_pos_trivial) linarith+
    then show ?thesis by simp
  qed
  ultimately show ?thesis using True by simp
next
  case False
  then have "0 \<le> sint a" by (simp add: bit_last_iff)
  moreover have "sint a < 2 ^ LENGTH('a)"
    using sint_range(2)[of a] by (rule order_less_le_trans) simp
  ultimately have "uint a = sint a" by (simp add: uint_sint take_bit_int_eq_self)
  then show ?thesis using False by simp
qed

lemma word_eq_iff_sint: "(a::'a::len word) = b \<longleftrightarrow> sint a = sint b"
proof
  assume "sint a = sint b"
  then have "(of_int (sint a) :: 'a word) = of_int (sint b)" by simp
  then show "a = b" by simp
qed simp

lemma word_of_int_eq_if: "k mod 2 ^ LENGTH('a) = l mod 2 ^ LENGTH('a) \<Longrightarrow>
    (word_of_int k :: 'a::len word) = word_of_int l"
  by (simp add: word_of_int_eq_iff take_bit_eq_mod)

end
