(* ===== verification/Bitops.thy ===== *)
theory Bitops
  imports Prelude
begin

text \<open>
  The bit-field primitives of \<^verbatim>\<open>include/qemu/bitops.h\<close>: rotations, field extraction and
  deposit, and the Hacker's Delight bit shuffles. The \<^verbatim>\<open>assert\<close>s of the C functions state
  their preconditions and are compiled out by the library's \<^verbatim>\<open>-DNDEBUG\<close> build, so the
  definitions are total and the preconditions become hypotheses of the lemmas. A C shift by
  the full width, which the rotations perform for a zero count, shifts every bit out here.
\<close>

section \<open>Rotations\<close>

definition rol8 :: "u8 \<Rightarrow> nat \<Rightarrow> u8" where
  "rol8 word shift = push_bit shift word OR drop_bit (8 - shift) word"

definition ror8 :: "u8 \<Rightarrow> nat \<Rightarrow> u8" where
  "ror8 word shift = drop_bit shift word OR push_bit (8 - shift) word"

definition rol16 :: "u16 \<Rightarrow> nat \<Rightarrow> u16" where
  "rol16 word shift = push_bit shift word OR drop_bit (16 - shift) word"

definition ror16 :: "u16 \<Rightarrow> nat \<Rightarrow> u16" where
  "ror16 word shift = drop_bit shift word OR push_bit (16 - shift) word"

definition rol32 :: "u32 \<Rightarrow> nat \<Rightarrow> u32" where
  "rol32 word shift = push_bit shift word OR drop_bit (32 - shift) word"

definition ror32 :: "u32 \<Rightarrow> nat \<Rightarrow> u32" where
  "ror32 word shift = drop_bit shift word OR push_bit (32 - shift) word"

definition rol64 :: "u64 \<Rightarrow> nat \<Rightarrow> u64" where
  "rol64 word shift = push_bit shift word OR drop_bit (64 - shift) word"

definition ror64 :: "u64 \<Rightarrow> nat \<Rightarrow> u64" where
  "ror64 word shift = drop_bit shift word OR push_bit (64 - shift) word"

lemma ror_generic:
  assumes "s < LENGTH('a)"
  shows "drop_bit s w OR push_bit (LENGTH('a) - s) (w::'a::len word) = word_rotr s w"
proof (rule bit_word_eqI)
  fix n assume n: "n < LENGTH('a)"
  have "(n + s) mod LENGTH('a) = (if n + s < LENGTH('a) then n + s else n + s - LENGTH('a))"
    using n assms by (simp add: mod_if)
  with n assms show "bit (drop_bit s w OR push_bit (LENGTH('a) - s) w) n = bit (word_rotr s w) n"
    by (auto simp: bit_simps bit_word_rotr_iff ac_simps dest: bit_imp_le_length)
qed

lemma rol_generic:
  assumes "s < LENGTH('a)"
  shows "push_bit s w OR drop_bit (LENGTH('a) - s) (w::'a::len word) = word_rotl s w"
proof (rule bit_word_eqI)
  fix n assume n: "n < LENGTH('a)"
  have "(n + (LENGTH('a) - s)) mod LENGTH('a) = (if n < s then n + (LENGTH('a) - s) else n - s)"
    using n assms by (auto simp: mod_if)
  with n assms show "bit (push_bit s w OR drop_bit (LENGTH('a) - s) w) n = bit (word_rotl s w) n"
    by (auto simp: bit_simps bit_word_rotl_iff ac_simps dest: bit_imp_le_length)
qed

lemma ror32_eq: "s < 32 \<Longrightarrow> ror32 w s = word_rotr s w"
  using ror_generic[where w = w and s = s] by (simp add: ror32_def)

lemma rol32_eq: "s < 32 \<Longrightarrow> rol32 w s = word_rotl s w"
  using rol_generic[where w = w and s = s] by (simp add: rol32_def)

lemma ror64_eq: "s < 64 \<Longrightarrow> ror64 w s = word_rotr s w"
  using ror_generic[where w = w and s = s] by (simp add: ror64_def)

lemma rol64_eq: "s < 64 \<Longrightarrow> rol64 w s = word_rotl s w"
  using rol_generic[where w = w and s = s] by (simp add: rol64_def)

section \<open>Field extraction and deposit\<close>

definition extract32 :: "u32 \<Rightarrow> nat \<Rightarrow> nat \<Rightarrow> u32" where
  "extract32 value start len = drop_bit start value AND drop_bit (32 - len) (NOT 0)"

definition extract64 :: "u64 \<Rightarrow> nat \<Rightarrow> nat \<Rightarrow> u64" where
  "extract64 value start len = drop_bit start value AND drop_bit (64 - len) (NOT 0)"

definition sextract32 :: "u32 \<Rightarrow> nat \<Rightarrow> nat \<Rightarrow> u32" where
  "sextract32 value start len =
     signed_drop_bit (32 - len) (push_bit (32 - len - start) value)"

definition sextract64 :: "u64 \<Rightarrow> nat \<Rightarrow> nat \<Rightarrow> u64" where
  "sextract64 value start len =
     signed_drop_bit (64 - len) (push_bit (64 - len - start) value)"

definition deposit32 :: "u32 \<Rightarrow> nat \<Rightarrow> nat \<Rightarrow> u32 \<Rightarrow> u32" where
  "deposit32 value start len fieldval =
     (let mask = push_bit start (drop_bit (32 - len) (NOT 0))
      in (value AND NOT mask) OR (push_bit start fieldval AND mask))"

definition deposit64 :: "u64 \<Rightarrow> nat \<Rightarrow> nat \<Rightarrow> u64 \<Rightarrow> u64" where
  "deposit64 value start len fieldval =
     (let mask = push_bit start (drop_bit (64 - len) (NOT 0))
      in (value AND NOT mask) OR (push_bit start fieldval AND mask))"

lemma bit_extract32:
  "len \<le> 32 \<Longrightarrow> bit (extract32 v st len) n \<longleftrightarrow> n < len \<and> bit v (st + n)"
  by (auto simp: extract32_def bit_simps dest: bit_imp_le_length)

lemma bit_extract64:
  "len \<le> 64 \<Longrightarrow> bit (extract64 v st len) n \<longleftrightarrow> n < len \<and> bit v (st + n)"
  by (auto simp: extract64_def bit_simps dest: bit_imp_le_length)

lemma bit_sextract32:
  "0 < len \<Longrightarrow> len + st \<le> 32 \<Longrightarrow>
    bit (sextract32 v st len) n \<longleftrightarrow> n < 32 \<and> bit v (st + min n (len - 1))"
  by (auto simp: sextract32_def bit_simps min_def ac_simps dest: bit_imp_le_length)

lemma bit_deposit32:
  "len + st \<le> 32 \<Longrightarrow> bit (deposit32 v st len f) n \<longleftrightarrow>
    n < 32 \<and> (if st \<le> n \<and> n < st + len then bit f (n - st) else bit v n)"
  by (auto simp: deposit32_def Let_def bit_simps dest: bit_imp_le_length)

lemma bit_deposit64:
  "len + st \<le> 64 \<Longrightarrow> bit (deposit64 v st len f) n \<longleftrightarrow>
    n < 64 \<and> (if st \<le> n \<and> n < st + len then bit f (n - st) else bit v n)"
  by (auto simp: deposit64_def Let_def bit_simps dest: bit_imp_le_length)

text \<open>A field as wide as a machine type is a cast of the shifted word.\<close>

lemma extract32_ucast:
  "LENGTH('l) \<le> 32 \<Longrightarrow> extract32 v st LENGTH('l) = ucast (ucast (drop_bit st v) :: 'l::len word)"
  by (rule bit_word_eqI) (auto simp: bit_extract32 bit_simps)

lemma sextract32_scast:
  "LENGTH('l) + st \<le> 32 \<Longrightarrow> sextract32 v st LENGTH('l) = scast (ucast (drop_bit st v) :: 'l::len word)"
  by (rule bit_word_eqI) (auto simp: bit_sextract32 bit_simps min.commute min_less_iff_disj)

end
