(* ===== verification/Arm_Env.thy ===== *)
theory Arm_Env
  imports Bitops
begin

text \<open>
  The emulated CPU state of \<^verbatim>\<open>target-arm/cpu.h\<close>, restricted to the fields that the NEON
  helpers and the library's entry points read and write: the core registers, the split
  program status register, the VFP/NEON register bank and the floating point control
  registers. Arrays are functions from their index.
\<close>

section \<open>State\<close>

record float_status =
  float_rounding_mode :: nat
  float_exception_flags :: u8
  flush_to_zero :: bool
  flush_inputs_to_zero :: bool
  default_nan_mode :: bool

record CPUARMState =
  regs :: "nat \<Rightarrow> u32"
  uncached_cpsr :: u32
  CF :: u32
  VF :: u32
  NF :: u32
  ZF :: u32
  QF :: u32
  GE :: u32
  thumb :: u32
  condexec_bits :: u32
  daif :: u64
  vfp_regs :: "nat \<Rightarrow> u64"
  vfp_xregs :: "nat \<Rightarrow> u32"
  vec_len :: u32
  vec_stride :: u32
  fp_status :: float_status
  standard_fp_status :: float_status

text \<open>The state with every field zero, used as a concrete state in examples.\<close>

definition zero_env :: CPUARMState where
  "zero_env = \<lparr>regs = (\<lambda>_. 0), uncached_cpsr = 0, CF = 0, VF = 0, NF = 0, ZF = 0, QF = 0, GE = 0, thumb = 0,
     condexec_bits = 0, daif = 0, vfp_regs = (\<lambda>_. 0), vfp_xregs = (\<lambda>_. 0), vec_len = 0, vec_stride = 0,
     fp_status = \<lparr>float_rounding_mode = 0, float_exception_flags = 0, flush_to_zero = False,
       flush_inputs_to_zero = False, default_nan_mode = False\<rparr>,
     standard_fp_status = \<lparr>float_rounding_mode = 0, float_exception_flags = 0, flush_to_zero = False,
       flush_inputs_to_zero = False, default_nan_mode = False\<rparr>\<rparr>"

definition ARM_VFP_FPSCR :: nat where "ARM_VFP_FPSCR = 1"
definition ARM_VFP_FPEXC :: nat where "ARM_VFP_FPEXC = 8"

definition CPSR_Q :: u32 where "CPSR_Q = push_bit 27 1"

section \<open>The cumulative saturation flag\<close>

text \<open>\<^verbatim>\<open>SET_QC()\<close> of \<^verbatim>\<open>neon_helper.c\<close>.\<close>

definition SET_QC :: "CPUARMState \<Rightarrow> CPUARMState" where
  "SET_QC env = env\<lparr>vfp_xregs := (vfp_xregs env)(ARM_VFP_FPSCR := vfp_xregs env ARM_VFP_FPSCR OR CPSR_Q)\<rparr>"

definition set_qc_if :: "bool \<Rightarrow> CPUARMState \<Rightarrow> CPUARMState" where
  "set_qc_if b env = (if b then SET_QC env else env)"

lemma SET_QC_idem [simp]: "SET_QC (SET_QC env) = SET_QC env"
  by (simp add: SET_QC_def or.assoc)

lemma set_qc_if_simps [simp]: "set_qc_if True env = SET_QC env" "set_qc_if False env = env"
  by (simp_all add: set_qc_if_def)

lemma set_qc_if_merge [simp]: "set_qc_if b (set_qc_if a env) = set_qc_if (a \<or> b) env"
  by (simp add: set_qc_if_def)

lemma SET_QC_merge [simp]: "set_qc_if b (SET_QC env) = SET_QC env" "SET_QC (set_qc_if b env) = SET_QC env"
  by (simp_all add: set_qc_if_def)

end
