(* ===== verification/Neon_Lanes.thy ===== *)
theory Neon_Lanes
  imports Arm_Env
begin

text \<open>
  The vector layer of \<^verbatim>\<open>target-arm/neon_helper.c\<close>. A 32-bit TCG value carries four bytes,
  two halfwords or one word; \<^verbatim>\<open>NEON_UNPACK\<close> and \<^verbatim>\<open>NEON_PACK\<close> move it in and out of a struct of
  lanes through a union, on the little-endian host the library is built for, and the
  \<^verbatim>\<open>NEON_VOP\<close>/\<^verbatim>\<open>NEON_VOP_ENV\<close>/\<^verbatim>\<open>NEON_POP\<close>/\<^verbatim>\<open>NEON_VOP1\<close> macros apply a lane operation \<^verbatim>\<open>NEON_FN\<close>
  to each lane. A struct of lanes is the list \<open>[v1, v2, v3, v4]\<close>. The macros are stated for any packed
  type \<open>'c\<close>; the helpers use them on \<open>u32\<close>.

  The locale \<open>neon_layout\<close> is the contract of a layout (unpacking and packing are inverse);
  the behaviour of the four macros is proved once in it and used through its interpretations
  for the 4x8, 2x16 and 1x32 layouts. Its extension \<open>neon_word_layout\<close> says where the bits of a lane are in the
  word, so that bitwise operations on the word act on the lanes and lane masks select lanes.
\<close>

section \<open>Layouts\<close>

definition neon_unpack8 :: "u32 \<Rightarrow> u8 list" where
  "neon_unpack8 val = [ucast val, ucast (drop_bit 8 val), ucast (drop_bit 16 val), ucast (drop_bit 24 val)]"

definition neon_pack8 :: "u8 list \<Rightarrow> u32" where
  "neon_pack8 v =
     ucast (v ! 0) OR push_bit 8 (ucast (v ! 1)) OR push_bit 16 (ucast (v ! 2)) OR push_bit 24 (ucast (v ! 3))"

definition neon_unpack16 :: "u32 \<Rightarrow> u16 list" where
  "neon_unpack16 val = [ucast val, ucast (drop_bit 16 val)]"

definition neon_pack16 :: "u16 list \<Rightarrow> u32" where
  "neon_pack16 v = ucast (v ! 0) OR push_bit 16 (ucast (v ! 1))"

definition neon_unpack32 :: "u32 \<Rightarrow> u32 list" where
  "neon_unpack32 val = [val]"

definition neon_pack32 :: "u32 list \<Rightarrow> u32" where
  "neon_pack32 v = v ! 0"

section \<open>The lane-wise macros\<close>

definition NEON_VOP :: "('c \<Rightarrow> 'l list) \<Rightarrow> ('l list \<Rightarrow> 'c) \<Rightarrow> ('l \<Rightarrow> 'l \<Rightarrow> 'l) \<Rightarrow> 'c \<Rightarrow> 'c \<Rightarrow> 'c" where
  "NEON_VOP unpack pack fn arg1 arg2 = pack (map2 fn (unpack arg1) (unpack arg2))"

definition NEON_VOP1 :: "('c \<Rightarrow> 'l list) \<Rightarrow> ('l list \<Rightarrow> 'c) \<Rightarrow> ('l \<Rightarrow> 'l) \<Rightarrow> 'c \<Rightarrow> 'c" where
  "NEON_VOP1 unpack pack fn arg = pack (map fn (unpack arg))"

text \<open>\<^verbatim>\<open>NEON_DO1\<close>, \<^verbatim>\<open>NEON_DO2\<close> and \<^verbatim>\<open>NEON_DO4\<close> with an environment: the lanes in order.\<close>

fun NEON_DO_ENV :: "(CPUARMState \<Rightarrow> 'l \<Rightarrow> 'l \<Rightarrow> 'l \<times> CPUARMState) \<Rightarrow> CPUARMState \<Rightarrow> 'l list \<Rightarrow> 'l list \<Rightarrow>
    'l list \<times> CPUARMState" where
  "NEON_DO_ENV fn env (x # xs) (y # ys) =
     (let (d, env') = fn env x y; (ds, env'') = NEON_DO_ENV fn env' xs ys in (d # ds, env''))"
| "NEON_DO_ENV fn env _ _ = ([], env)"

definition NEON_VOP_ENV :: "('c \<Rightarrow> 'l list) \<Rightarrow> ('l list \<Rightarrow> 'c) \<Rightarrow>
    (CPUARMState \<Rightarrow> 'l \<Rightarrow> 'l \<Rightarrow> 'l \<times> CPUARMState) \<Rightarrow> CPUARMState \<Rightarrow> 'c \<Rightarrow> 'c \<Rightarrow> 'c \<times> CPUARMState" where
  "NEON_VOP_ENV unpack pack fn env arg1 arg2 =
     (let (vdest, env') = NEON_DO_ENV fn env (unpack arg1) (unpack arg2) in (pack vdest, env'))"

text \<open>\<^verbatim>\<open>NEON_PDO2\<close> and \<^verbatim>\<open>NEON_PDO4\<close>: adjacent pairs of the first operand, then of the second.\<close>

fun neon_pairs :: "('l \<Rightarrow> 'l \<Rightarrow> 'l) \<Rightarrow> 'l list \<Rightarrow> 'l list" where
  "neon_pairs fn (x # y # zs) = fn x y # neon_pairs fn zs"
| "neon_pairs fn _ = []"

definition NEON_POP :: "('c \<Rightarrow> 'l list) \<Rightarrow> ('l list \<Rightarrow> 'c) \<Rightarrow> ('l \<Rightarrow> 'l \<Rightarrow> 'l) \<Rightarrow> 'c \<Rightarrow> 'c \<Rightarrow> 'c" where
  "NEON_POP unpack pack fn arg1 arg2 = pack (neon_pairs fn (unpack arg1) @ neon_pairs fn (unpack arg2))"

section \<open>The contract of a layout\<close>

lemma length_neon_pairs [simp]: "length (neon_pairs fn xs) = length xs div 2"
  by (induction fn xs rule: neon_pairs.induct) auto

lemma nth_neon_pairs:
  "i < length xs div 2 \<Longrightarrow> neon_pairs fn xs ! i = fn (xs ! (2 * i)) (xs ! (2 * i + 1))"
proof (induction fn xs arbitrary: i rule: neon_pairs.induct)
  case (1 fn x y zs)
  then show ?case by (cases i) auto
qed auto

lemma map_neon_pairs:
  "(\<And>x y. h (fn x y) = g (h x) (h y)) \<Longrightarrow> map h (neon_pairs fn xs) = neon_pairs g (map h xs)"
  by (induction fn xs rule: neon_pairs.induct) auto

text \<open>
  A lane operation that raises \<open>QC\<close> on a condition of its operands threads through the
  lanes as one condition: the flag is raised when some lane raises it.
\<close>

lemma NEON_DO_ENV_flag:
  assumes "\<And>env x y. fn env x y = (g x y, set_qc_if (q x y) env)"
  shows "NEON_DO_ENV fn env xs ys = (map2 g xs ys, set_qc_if (\<exists>(x, y) \<in> set (zip xs ys). q x y) env)"
proof (induction xs arbitrary: ys env)
  case Nil
  then show ?case by simp
next
  case (Cons x xs)
  then show ?case by (cases ys) (simp_all add: assms)
qed

locale neon_layout =
  fixes unpack :: "'c \<Rightarrow> 'l list"
    and pack :: "'l list \<Rightarrow> 'c"
    and n :: nat
  assumes length_unpack [simp]: "length (unpack x) = n"
    and unpack_pack [simp]: "length v = n \<Longrightarrow> unpack (pack v) = v"
    and pack_unpack [simp]: "pack (unpack x) = x"
begin

lemma unpack_inject: "unpack x = unpack y \<longleftrightarrow> x = y"
  by (metis pack_unpack)

lemma unpack_VOP [lane_simps]: "unpack (NEON_VOP unpack pack fn a b) = map2 fn (unpack a) (unpack b)"
  by (simp add: NEON_VOP_def)

lemma lane_VOP [lane_simps]:
  "i < n \<Longrightarrow> unpack (NEON_VOP unpack pack fn a b) ! i = fn (unpack a ! i) (unpack b ! i)"
  by (simp add: NEON_VOP_def)

lemma unpack_VOP1 [lane_simps]: "unpack (NEON_VOP1 unpack pack fn a) = map fn (unpack a)"
  by (simp add: NEON_VOP1_def)

lemma VOP_eqI: "(\<And>i. i < n \<Longrightarrow> unpack x ! i = fn (unpack a ! i) (unpack b ! i)) \<Longrightarrow>
    x = NEON_VOP unpack pack fn a b"
  by (subst unpack_inject [symmetric]) (auto simp: unpack_VOP intro: nth_equalityI)

lemma VOP_commute: "(\<And>x y. fn x y = fn y x) \<Longrightarrow> NEON_VOP unpack pack fn a b = NEON_VOP unpack pack fn b a"
  by (rule VOP_eqI) (simp add: lane_VOP)

lemma VOP_ENV_flag:
  assumes "\<And>env x y. fn env x y = (g x y, set_qc_if (q x y) env)"
  shows "NEON_VOP_ENV unpack pack fn env a b =
    (NEON_VOP unpack pack g a b, set_qc_if (\<exists>i<n. q (unpack a ! i) (unpack b ! i)) env)"
proof -
  have "(\<exists>(x, y) \<in> set (zip (unpack a) (unpack b)). q x y) \<longleftrightarrow> (\<exists>i<n. q (unpack a ! i) (unpack b ! i))"
    by (force simp: set_zip)
  then show ?thesis
    unfolding NEON_VOP_ENV_def NEON_VOP_def by (simp add: NEON_DO_ENV_flag [OF assms])
qed

lemma lane_POP:
  assumes "even n" "i < n"
  shows "unpack (NEON_POP unpack pack fn a b) ! i =
    (if i < n div 2 then fn (unpack a ! (2 * i)) (unpack a ! (2 * i + 1))
     else fn (unpack b ! (2 * i - n)) (unpack b ! (2 * i - n + 1)))"
proof -
  have len: "length (neon_pairs fn (unpack a) @ neon_pairs fn (unpack b)) = n"
    using assms(1) by (simp add: div_add_self2 mult_2[symmetric])
  have "2 * (i - n div 2) = 2 * i - n" using assms(1) by (auto simp: diff_mult_distrib2)
  then show ?thesis
    using assms len by (auto simp: NEON_POP_def nth_append nth_neon_pairs)
qed

lemma unpack_POP:
  "even n \<Longrightarrow> unpack (NEON_POP unpack pack fn a b) = neon_pairs fn (unpack a) @ neon_pairs fn (unpack b)"
  unfolding NEON_POP_def by (rule unpack_pack) (auto elim!: evenE)

text \<open>Reading the lanes through a value function carries a lane operation to one on values.\<close>

lemma VOP_values:
  assumes "\<And>x y. r (fn x y) = g (h x) (h y)"
  shows "map r (unpack (NEON_VOP unpack pack fn a b)) = map2 g (map h (unpack a)) (map h (unpack b))"
  by (simp add: unpack_VOP assms zip_map1 zip_map2 case_prod_beta)

lemmas VOP_hom = VOP_values [where r = h and h = h for h]

lemma POP_hom:
  assumes "even n" "\<And>x y. h (fn x y) = g (h x) (h y)"
  shows "map h (unpack (NEON_POP unpack pack fn a b)) =
    neon_pairs g (map h (unpack a)) @ neon_pairs g (map h (unpack b))"
  using assms(1) by (simp add: unpack_POP map_neon_pairs [where h = h and fn = fn and g = g] assms(2))

end

section \<open>Lanes as bits of a word\<close>

locale neon_word_layout = neon_layout unpack pack n
  for unpack :: "'c::len word \<Rightarrow> 'l::len word list" and pack :: "'l word list \<Rightarrow> 'c word" and n :: nat +
  assumes width: "LENGTH('c) = n * LENGTH('l)"
    and bit_unpack: "i < n \<Longrightarrow> bit (unpack x ! i) j \<longleftrightarrow> j < LENGTH('l) \<and> bit x (LENGTH('l) * i + j)"
begin

lemma lane_number: "k < LENGTH('c) \<Longrightarrow> k div LENGTH('l) < n"
  by (simp add: width less_mult_imp_div_less)

lemma bit_lanes: "bit x k \<longleftrightarrow> k < LENGTH('c) \<and> bit (unpack x ! (k div LENGTH('l))) (k mod LENGTH('l))"
  using bit_unpack [of "k div LENGTH('l)" x "k mod LENGTH('l)"] lane_number [of k] by (auto dest: bit_imp_le_length)

lemma lanes_eqI: "(\<And>i. i < n \<Longrightarrow> unpack x ! i = unpack y ! i) \<Longrightarrow> x = y"
  unfolding unpack_inject [symmetric] by (rule nth_equalityI) simp_all

lemma lane_bitwise [lane_simps]:
  assumes "i < n"
  shows "unpack (x AND y) ! i = unpack x ! i AND unpack y ! i" "unpack (x OR y) ! i = unpack x ! i OR unpack y ! i"
    "unpack (NOT x) ! i = NOT (unpack x ! i)" "unpack 0 ! i = 0"
proof -
  have "LENGTH('l) * i + j < LENGTH('c)" if "j < LENGTH('l)" for j
  proof -
    have "LENGTH('l) * i + j < LENGTH('l) * Suc i" using that by simp
    also have "\<dots> \<le> LENGTH('l) * n" using assms by (intro mult_le_mono2) simp
    finally show ?thesis by (simp add: width mult.commute)
  qed
  then show "unpack (NOT x) ! i = NOT (unpack x ! i)"
    by (intro bit_word_eqI) (simp add: bit_unpack [OF assms] bit_not_iff)
qed (intro bit_word_eqI; simp add: bit_unpack [OF assms] bit_and_iff bit_or_iff)+

text \<open>A lane operation that yields all ones or zero makes a mask of the word.\<close>

lemma bit_mask_VOP:
  assumes "\<And>x y. fn x y = (if P x y then - 1 else 0)"
  shows "bit (NEON_VOP unpack pack fn a b) k \<longleftrightarrow> k < LENGTH('c) \<and> P (unpack a ! (k div LENGTH('l))) (unpack b ! (k div LENGTH('l)))"
  by (subst bit_lanes) (auto simp: lane_VOP lane_number assms split: if_splits)

text \<open>Selecting with a mask is a lane operation; the mask may compare the operands in either order.\<close>

lemma select_VOP:
  assumes "\<And>x y. fn x y = (if P x y then - 1 else 0)"
  shows "(\<And>x y. gn x y = (if P x y then x else y)) \<Longrightarrow>
      (NEON_VOP unpack pack fn a b AND a) OR (NOT (NEON_VOP unpack pack fn a b) AND b) = NEON_VOP unpack pack gn a b"
    "(\<And>x y. gn x y = (if P y x then x else y)) \<Longrightarrow>
      (NEON_VOP unpack pack fn b a AND a) OR (NOT (NEON_VOP unpack pack fn b a) AND b) = NEON_VOP unpack pack gn a b"
  by (rule VOP_eqI; simp add: lane_bitwise lane_VOP assms)+

end

section \<open>The three layouts\<close>

lemma unpack_pack8: "length v = 4 \<Longrightarrow> neon_unpack8 (neon_pack8 v) = v"
proof -
  assume "length v = 4"
  then obtain a b c d where v: "v = [a, b, c, d]"
    by (auto simp: length_Suc_conv numeral_eq_Suc)
  show ?thesis
    unfolding v neon_unpack8_def neon_pack8_def list.inject
    by (intro conjI bit_word_eqI refl) (auto simp: bit_simps dest: bit_imp_le_length)
qed

lemma pack_unpack8: "neon_pack8 (neon_unpack8 x) = x"
proof (rule bit_word_eqI)
  fix i assume "i < LENGTH(32)"
  then show "bit (neon_pack8 (neon_unpack8 x)) i = bit x i"
    by (cases "i < 8"; cases "i < 16"; cases "i < 24")
      (auto simp: neon_unpack8_def neon_pack8_def bit_simps)
qed

lemma unpack_pack16: "length v = 2 \<Longrightarrow> neon_unpack16 (neon_pack16 v) = v"
proof -
  assume "length v = 2"
  then obtain a b where v: "v = [a, b]"
    by (auto simp: length_Suc_conv numeral_eq_Suc)
  show ?thesis
    unfolding v neon_unpack16_def neon_pack16_def list.inject
    by (intro conjI bit_word_eqI refl) (auto simp: bit_simps dest: bit_imp_le_length)
qed

lemma pack_unpack16: "neon_pack16 (neon_unpack16 x) = x"
  by (rule bit_word_eqI) (auto simp: neon_unpack16_def neon_pack16_def bit_simps)

lemma bit_unpack8: "i < 4 \<Longrightarrow> bit (neon_unpack8 x ! i) j \<longleftrightarrow> j < 8 \<and> bit x (8 * i + j)"
  by (auto simp: neon_unpack8_def bit_simps less_Suc_eq numeral_eq_Suc)

lemma bit_unpack16: "i < 2 \<Longrightarrow> bit (neon_unpack16 x ! i) j \<longleftrightarrow> j < 16 \<and> bit x (16 * i + j)"
  by (auto simp: neon_unpack16_def bit_simps less_Suc_eq numeral_eq_Suc)

interpretation l8: neon_layout neon_unpack8 neon_pack8 4
  by unfold_locales (simp_all add: unpack_pack8 pack_unpack8, simp add: neon_unpack8_def)

interpretation l16: neon_layout neon_unpack16 neon_pack16 2
  by unfold_locales (simp_all add: unpack_pack16 pack_unpack16, simp add: neon_unpack16_def)

interpretation l32: neon_layout neon_unpack32 neon_pack32 1
  by unfold_locales (auto simp: neon_unpack32_def neon_pack32_def length_Suc_conv)

interpretation w8: neon_word_layout neon_unpack8 neon_pack8 4
  by unfold_locales (simp_all add: bit_unpack8)

interpretation w16: neon_word_layout neon_unpack16 neon_pack16 2
  by unfold_locales (simp_all add: bit_unpack16)

interpretation w32: neon_word_layout neon_unpack32 neon_pack32 1
  by unfold_locales (auto simp: neon_unpack32_def dest: bit_imp_le_length)

end
