(* ===== verification/Neon_Saturate.thy ===== *)
theory Neon_Saturate
  imports Neon_Lanes
begin

text \<open>
  Saturating addition and subtraction of \<^verbatim>\<open>target-arm/neon_helper.c\<close>: \<^verbatim>\<open>neon_qadd_*\<close>,
  \<^verbatim>\<open>neon_uqadd_*\<close>, \<^verbatim>\<open>neon_sqadd_*\<close> and \<^verbatim>\<open>neon_qsub_*\<close>. The helpers detect overflow on words
  (a narrowing cast that loses a bit, a wrapped comparison, a pattern of sign bits); the
  specification clamps the exact integer result to the range of the lane, and raises \<open>QC\<close>
  exactly when clamping changed it.
\<close>

section \<open>Specification: clamping\<close>

definition ssat :: "nat \<Rightarrow> int \<Rightarrow> int" where
  "ssat n k = max (- (2 ^ (n - 1))) (min (2 ^ (n - 1) - 1) k)"

definition usat :: "nat \<Rightarrow> int \<Rightarrow> int" where
  "usat n k = max 0 (min (2 ^ n - 1) k)"

text \<open>The clamped lane, and the lane together with the flag it raises.\<close>

definition ssat_word :: "int \<Rightarrow> 'l::len word" where
  "ssat_word k = word_of_int (ssat LENGTH('l) k)"

definition usat_word :: "int \<Rightarrow> 'l::len word" where
  "usat_word k = word_of_int (usat LENGTH('l) k)"

lemma ssat_id_iff: "ssat n k = k \<longleftrightarrow> - (2 ^ (n - 1)) \<le> k \<and> k < 2 ^ (n - 1)"
  by (auto simp: ssat_def max_def min_def)

lemma usat_id_iff: "usat n k = k \<longleftrightarrow> 0 \<le> k \<and> k < 2 ^ n"
  by (auto simp: usat_def max_def min_def)

lemma sint_ssat_word: "sint (ssat_word k :: 'l::len word) = ssat LENGTH('l) k"
  unfolding ssat_word_def by (rule sint_word_of_int) (auto simp: ssat_def max_def min_def)

lemma uint_usat_word: "uint (usat_word k :: 'l::len word) = usat LENGTH('l) k"
  unfolding usat_word_def by (rule uint_word_of_int) (auto simp: usat_def max_def min_def)

section \<open>Overflow tests\<close>

text \<open>A narrowing cast that keeps the value is the test used by the lane macros.\<close>

lemma narrow_s_iff:
  "LENGTH('l) \<le> LENGTH('r) \<Longrightarrow>
    scast (ucast (tmp::'r::len word) :: 'l::len word) = tmp \<longleftrightarrow> ssat LENGTH('l) (sint tmp) = sint tmp"
  unfolding ssat_id_iff word_eq_iff_sint [of _ tmp] signed_take_bit_int_eq_self_iff [symmetric]
  by transfer (simp add: min_def signed_take_bit_take_bit)

lemma narrow_u_iff:
  "LENGTH('l) \<le> LENGTH('r) \<Longrightarrow>
    ucast (ucast (tmp::'r::len word) :: 'l::len word) = tmp \<longleftrightarrow> usat LENGTH('l) (uint tmp) = uint tmp"
  unfolding usat_id_iff using take_bit_int_eq_self_iff [of "LENGTH('l)" "uint tmp"]
  by transfer (simp add: min_absorb1)

lemma ucast_sint_down:
  "LENGTH('l) \<le> LENGTH('r) \<Longrightarrow> (ucast (tmp::'r::len word) :: 'l::len word) = word_of_int (sint tmp)"
  by transfer (simp add: min_def take_bit_signed_take_bit)

lemma ucast_uint_down:
  "(ucast (tmp::'r::len word) :: 'l::len word) = word_of_int (uint tmp)"
  by transfer simp

definition SIGNBIT :: u32 where "SIGNBIT = 0x80000000"
definition SIGNBIT64 :: u64 where "SIGNBIT64 = push_bit 63 1"

lemma and_SIGNBIT: "x AND SIGNBIT = 0 \<longleftrightarrow> \<not> bit x 31"
  unfolding SIGNBIT_def using and_exp_eq_0_iff_not_bit [of x 31] by simp

lemma and_SIGNBIT64: "x AND SIGNBIT64 = 0 \<longleftrightarrow> \<not> bit x 63"
  unfolding SIGNBIT64_def using and_exp_eq_0_iff_not_bit [of x 63] by simp

lemma sign_bit_uint:
  "bit (x::u32) 31 \<longleftrightarrow> 2147483648 \<le> uint x" "bit (y::u64) 63 \<longleftrightarrow> 9223372036854775808 \<le> uint y"
  using sint_uint_cases [of x] sint_ranges(5,6) [of x] uint_ranges(3) [of x]
    sint_uint_cases [of y] sint_ranges(7,8) [of y] uint_ranges(4) [of y]
  by (auto split: if_splits)

lemma sint_uint32: "sint (x::u32) = (if 2147483648 \<le> uint x then uint x - 4294967296 else uint x)"
  using sint_uint_cases [of x] by (simp add: sign_bit_uint)

lemma sint_uint64:
  "sint (x::u64) = (if 9223372036854775808 \<le> uint x then uint x - 18446744073709551616 else uint x)"
  using sint_uint_cases [of x] by (simp add: sign_bit_uint)

text \<open>Sign bits through the bitwise operations, as comparisons of the unsigned values.\<close>

lemma sign_bitwise32:
  "2147483648 \<le> uint (x XOR y :: u32) \<longleftrightarrow> (2147483648 \<le> uint x) \<noteq> (2147483648 \<le> uint y)"
  "2147483648 \<le> uint (x AND y :: u32) \<longleftrightarrow> 2147483648 \<le> uint x \<and> 2147483648 \<le> uint y"
  "2147483648 \<le> uint (x OR y :: u32) \<longleftrightarrow> 2147483648 \<le> uint x \<or> 2147483648 \<le> uint y"
  "2147483648 \<le> uint (NOT x :: u32) \<longleftrightarrow> \<not> 2147483648 \<le> uint x"
  by (simp_all only: sign_bit_uint [symmetric] bit_simps, simp_all)

lemma sign_bitwise64:
  "9223372036854775808 \<le> uint (x XOR y :: u64) \<longleftrightarrow>
    (9223372036854775808 \<le> uint x) \<noteq> (9223372036854775808 \<le> uint y)"
  "9223372036854775808 \<le> uint (x AND y :: u64) \<longleftrightarrow> 9223372036854775808 \<le> uint x \<and> 9223372036854775808 \<le> uint y"
  "9223372036854775808 \<le> uint (x OR y :: u64) \<longleftrightarrow> 9223372036854775808 \<le> uint x \<or> 9223372036854775808 \<le> uint y"
  "9223372036854775808 \<le> uint (NOT x :: u64) \<longleftrightarrow> \<not> 9223372036854775808 \<le> uint x"
  by (simp_all only: sign_bit_uint [symmetric] bit_simps, simp_all)

lemmas sign_simps = and_SIGNBIT and_SIGNBIT64 sign_bit_uint sint_uint32 sint_uint64
  sign_bitwise32 sign_bitwise64 uint_plus_if' uint_sub_if'

section \<open>Saturating addition\<close>

definition NEON_USAT_add :: "CPUARMState \<Rightarrow> 'l::len word \<Rightarrow> 'l word \<Rightarrow> 'l word \<times> CPUARMState" where
  "NEON_USAT_add env src1 src2 =
     (let tmp = (ucast src1 :: u32) + ucast src2 in
      if tmp \<noteq> ucast (ucast tmp :: 'l word) then (NOT 0, SET_QC env) else (ucast tmp, env))"

definition neon_qadd_u8 :: "CPUARMState \<Rightarrow> u32 \<Rightarrow> u32 \<Rightarrow> u32 \<times> CPUARMState" where
  "neon_qadd_u8 = NEON_VOP_ENV neon_unpack8 neon_pack8 NEON_USAT_add"

definition neon_qadd_u16 :: "CPUARMState \<Rightarrow> u32 \<Rightarrow> u32 \<Rightarrow> u32 \<times> CPUARMState" where
  "neon_qadd_u16 = NEON_VOP_ENV neon_unpack16 neon_pack16 NEON_USAT_add"

definition neon_qadd_u32 :: "CPUARMState \<Rightarrow> u32 \<Rightarrow> u32 \<Rightarrow> u32 \<times> CPUARMState" where
  "neon_qadd_u32 env a b = (let res = a + b in if res < a then (NOT 0, SET_QC env) else (res, env))"

definition neon_qadd_u64 :: "CPUARMState \<Rightarrow> u64 \<Rightarrow> u64 \<Rightarrow> u64 \<times> CPUARMState" where
  "neon_qadd_u64 env src1 src2 =
     (let res = src1 + src2 in if res < src1 then (NOT 0, SET_QC env) else (res, env))"

definition NEON_SSAT_add :: "CPUARMState \<Rightarrow> 'l::len word \<Rightarrow> 'l word \<Rightarrow> 'l word \<times> CPUARMState" where
  "NEON_SSAT_add env src1 src2 =
     (let tmp = (scast src1 :: u32) + scast src2 in
      if tmp \<noteq> scast (ucast tmp :: 'l word) then
        (ucast (if 0 < sint src2 then push_bit (LENGTH('l) - 1) 1 - 1
                else push_bit (LENGTH('l) - 1) (1 :: u32)), SET_QC env)
      else (ucast tmp, env))"

definition neon_qadd_s8 :: "CPUARMState \<Rightarrow> u32 \<Rightarrow> u32 \<Rightarrow> u32 \<times> CPUARMState" where
  "neon_qadd_s8 = NEON_VOP_ENV neon_unpack8 neon_pack8 NEON_SSAT_add"

definition neon_qadd_s16 :: "CPUARMState \<Rightarrow> u32 \<Rightarrow> u32 \<Rightarrow> u32 \<times> CPUARMState" where
  "neon_qadd_s16 = NEON_VOP_ENV neon_unpack16 neon_pack16 NEON_SSAT_add"

definition neon_qadd_s32 :: "CPUARMState \<Rightarrow> u32 \<Rightarrow> u32 \<Rightarrow> u32 \<times> CPUARMState" where
  "neon_qadd_s32 env a b =
     (let res = a + b in
      if (res XOR a) AND SIGNBIT \<noteq> 0 \<and> \<not> (a XOR b) AND SIGNBIT \<noteq> 0
      then (NOT (signed_drop_bit 31 a XOR SIGNBIT), SET_QC env)
      else (res, env))"

definition neon_qadd_s64 :: "CPUARMState \<Rightarrow> u64 \<Rightarrow> u64 \<Rightarrow> u64 \<times> CPUARMState" where
  "neon_qadd_s64 env src1 src2 =
     (let res = src1 + src2 in
      if (res XOR src1) AND SIGNBIT64 \<noteq> 0 \<and> \<not> (src1 XOR src2) AND SIGNBIT64 \<noteq> 0
      then (signed_drop_bit 63 src1 XOR NOT SIGNBIT64, SET_QC env)
      else (res, env))"

section \<open>Saturating accumulate\<close>

text \<open>
  \<^verbatim>\<open>USATACC(bits, shift)\<close>: the first operand is signed, the second unsigned, the interim
  type \<open>'v\<close> is the type of \<^verbatim>\<open>va\<close>, \<^verbatim>\<open>vb\<close> and \<^verbatim>\<open>vr\<close> in the function that uses the macro.
\<close>

definition USATACC :: "'v::len itself \<Rightarrow> nat \<Rightarrow> nat \<Rightarrow> u32 \<Rightarrow> u32 \<Rightarrow> u32 \<times> CPUARMState \<Rightarrow> u32 \<times> CPUARMState" where
  "USATACC _ bits shift a b st =
     (let (r, env) = st;
          va = ucast (sextract32 a shift bits) :: 'v word;
          vb = ucast (extract32 b shift bits) :: 'v word;
          vr = va + vb
      in if 2 ^ bits - 1 < sint vr then (deposit32 r shift bits (2 ^ bits - 1), SET_QC env)
         else if sint vr < 0 then (deposit32 r shift bits 0, SET_QC env)
         else (deposit32 r shift bits (scast vr), env))"

definition neon_uqadd_s8 :: "CPUARMState \<Rightarrow> u32 \<Rightarrow> u32 \<Rightarrow> u32 \<times> CPUARMState" where
  "neon_uqadd_s8 env a b =
     USATACC TYPE(16) 8 24 a b (USATACC TYPE(16) 8 16 a b
       (USATACC TYPE(16) 8 8 a b (USATACC TYPE(16) 8 0 a b (0, env))))"

definition neon_uqadd_s16 :: "CPUARMState \<Rightarrow> u32 \<Rightarrow> u32 \<Rightarrow> u32 \<times> CPUARMState" where
  "neon_uqadd_s16 env a b = USATACC TYPE(32) 16 16 a b (USATACC TYPE(32) 16 0 a b (0, env))"

definition neon_uqadd_s32 :: "CPUARMState \<Rightarrow> u32 \<Rightarrow> u32 \<Rightarrow> u32 \<times> CPUARMState" where
  "neon_uqadd_s32 env a b =
     (let va = scast a :: u64; vb = ucast b :: u64; vr = va + vb
      in if 4294967295 < sint vr then (ucast (4294967295 :: u64), SET_QC env)
         else if sint vr < 0 then (ucast (0 :: u64), SET_QC env)
         else (ucast vr, env))"

definition neon_uqadd_s64 :: "CPUARMState \<Rightarrow> u64 \<Rightarrow> u64 \<Rightarrow> u64 \<times> CPUARMState" where
  "neon_uqadd_s64 env a b =
     (let res = a + b
      in if NOT a AND b AND NOT res AND SIGNBIT64 \<noteq> 0 then (NOT 0, SET_QC env)
         else if a AND NOT b AND res AND SIGNBIT64 \<noteq> 0 then (0, SET_QC env)
         else (res, env))"

definition SSATACC :: "'v::len itself \<Rightarrow> nat \<Rightarrow> nat \<Rightarrow> u32 \<Rightarrow> u32 \<Rightarrow> u32 \<times> CPUARMState \<Rightarrow> u32 \<times> CPUARMState" where
  "SSATACC _ bits shift a b st =
     (let (r, env) = st;
          va = ucast (extract32 a shift bits) :: 'v word;
          vb = ucast (sextract32 b shift bits) :: 'v word;
          vr = va + vb
      in if 2 ^ (bits - 1) - 1 < sint vr then (deposit32 r shift bits (2 ^ (bits - 1) - 1), SET_QC env)
         else if sint vr < - (2 ^ (bits - 1)) then (deposit32 r shift bits (- (2 ^ (bits - 1))), SET_QC env)
         else (deposit32 r shift bits (scast vr), env))"

definition neon_sqadd_u8 :: "CPUARMState \<Rightarrow> u32 \<Rightarrow> u32 \<Rightarrow> u32 \<times> CPUARMState" where
  "neon_sqadd_u8 env a b =
     SSATACC TYPE(16) 8 24 a b (SSATACC TYPE(16) 8 16 a b
       (SSATACC TYPE(16) 8 8 a b (SSATACC TYPE(16) 8 0 a b (0, env))))"

definition neon_sqadd_u16 :: "CPUARMState \<Rightarrow> u32 \<Rightarrow> u32 \<Rightarrow> u32 \<times> CPUARMState" where
  "neon_sqadd_u16 env a b = SSATACC TYPE(32) 16 16 a b (SSATACC TYPE(32) 16 0 a b (0, env))"

definition neon_sqadd_u32 :: "CPUARMState \<Rightarrow> u32 \<Rightarrow> u32 \<Rightarrow> u32 \<times> CPUARMState" where
  "neon_sqadd_u32 env a b =
     (let op1 = ucast a :: u64; op2 = scast b :: u64; res = op1 + op2
      in if 2147483647 < sint res then (ucast (2147483647 :: u64), SET_QC env)
         else if sint res < - 2147483648 then (ucast (- 2147483648 :: u64), SET_QC env)
         else (ucast res, env))"

definition neon_sqadd_u64 :: "CPUARMState \<Rightarrow> u64 \<Rightarrow> u64 \<Rightarrow> u64 \<times> CPUARMState" where
  "neon_sqadd_u64 env a b =
     (let res = a + b
      in if ((a AND res) OR (NOT b AND res) OR (a AND NOT b)) AND SIGNBIT64 \<noteq> 0
         then (9223372036854775807, SET_QC env)
         else (res, env))"

section \<open>Saturating subtraction\<close>

definition NEON_USAT_sub :: "CPUARMState \<Rightarrow> 'l::len word \<Rightarrow> 'l word \<Rightarrow> 'l word \<times> CPUARMState" where
  "NEON_USAT_sub env src1 src2 =
     (let tmp = (ucast src1 :: u32) - ucast src2 in
      if tmp \<noteq> ucast (ucast tmp :: 'l word) then (0, SET_QC env) else (ucast tmp, env))"

definition neon_qsub_u8 :: "CPUARMState \<Rightarrow> u32 \<Rightarrow> u32 \<Rightarrow> u32 \<times> CPUARMState" where
  "neon_qsub_u8 = NEON_VOP_ENV neon_unpack8 neon_pack8 NEON_USAT_sub"

definition neon_qsub_u16 :: "CPUARMState \<Rightarrow> u32 \<Rightarrow> u32 \<Rightarrow> u32 \<times> CPUARMState" where
  "neon_qsub_u16 = NEON_VOP_ENV neon_unpack16 neon_pack16 NEON_USAT_sub"

definition neon_qsub_u32 :: "CPUARMState \<Rightarrow> u32 \<Rightarrow> u32 \<Rightarrow> u32 \<times> CPUARMState" where
  "neon_qsub_u32 env a b = (let res = a - b in if res > a then (0, SET_QC env) else (res, env))"

definition neon_qsub_u64 :: "CPUARMState \<Rightarrow> u64 \<Rightarrow> u64 \<Rightarrow> u64 \<times> CPUARMState" where
  "neon_qsub_u64 env src1 src2 = (if src1 < src2 then (0, SET_QC env) else (src1 - src2, env))"

definition NEON_SSAT_sub :: "CPUARMState \<Rightarrow> 'l::len word \<Rightarrow> 'l word \<Rightarrow> 'l word \<times> CPUARMState" where
  "NEON_SSAT_sub env src1 src2 =
     (let tmp = (scast src1 :: u32) - scast src2 in
      if tmp \<noteq> scast (ucast tmp :: 'l word) then
        (ucast (if sint src2 < 0 then push_bit (LENGTH('l) - 1) 1 - 1
                else push_bit (LENGTH('l) - 1) (1 :: u32)), SET_QC env)
      else (ucast tmp, env))"

definition neon_qsub_s8 :: "CPUARMState \<Rightarrow> u32 \<Rightarrow> u32 \<Rightarrow> u32 \<times> CPUARMState" where
  "neon_qsub_s8 = NEON_VOP_ENV neon_unpack8 neon_pack8 NEON_SSAT_sub"

definition neon_qsub_s16 :: "CPUARMState \<Rightarrow> u32 \<Rightarrow> u32 \<Rightarrow> u32 \<times> CPUARMState" where
  "neon_qsub_s16 = NEON_VOP_ENV neon_unpack16 neon_pack16 NEON_SSAT_sub"

definition neon_qsub_s32 :: "CPUARMState \<Rightarrow> u32 \<Rightarrow> u32 \<Rightarrow> u32 \<times> CPUARMState" where
  "neon_qsub_s32 env a b =
     (let res = a - b in
      if (res XOR a) AND SIGNBIT \<noteq> 0 \<and> (a XOR b) AND SIGNBIT \<noteq> 0
      then (NOT (signed_drop_bit 31 a XOR SIGNBIT), SET_QC env)
      else (res, env))"

definition neon_qsub_s64 :: "CPUARMState \<Rightarrow> u64 \<Rightarrow> u64 \<Rightarrow> u64 \<times> CPUARMState" where
  "neon_qsub_s64 env src1 src2 =
     (let res = src1 - src2 in
      if (res XOR src1) AND SIGNBIT64 \<noteq> 0 \<and> (src1 XOR src2) AND SIGNBIT64 \<noteq> 0
      then (signed_drop_bit 63 src1 XOR NOT SIGNBIT64, SET_QC env)
      else (res, env))"

section \<open>The saturated result\<close>

text \<open>The result of every saturating helper: clamped value, and \<open>QC\<close> when it was clamped.\<close>

definition ssat_res :: "int \<Rightarrow> CPUARMState \<Rightarrow> 'l::len word \<times> CPUARMState" where
  "ssat_res k env = (ssat_word k, set_qc_if (ssat LENGTH('l) k \<noteq> k) env)"

definition usat_res :: "int \<Rightarrow> CPUARMState \<Rightarrow> 'l::len word \<times> CPUARMState" where
  "usat_res k env = (usat_word k, set_qc_if (usat LENGTH('l) k \<noteq> k) env)"

lemma signed_drop_bit_sign32: "signed_drop_bit 31 (x::u32) = (if bit x 31 then - 1 else 0)"
proof (rule bit_word_eqI)
  fix n assume "n < LENGTH(32)"
  then show "bit (signed_drop_bit 31 x) n = bit (if bit x 31 then - 1 else 0 :: u32) n"
    by (cases n) (auto simp: bit_simps)
qed

lemma signed_drop_bit_sign64: "signed_drop_bit 63 (x::u64) = (if bit x 63 then - 1 else 0)"
proof (rule bit_word_eqI)
  fix n assume "n < LENGTH(64)"
  then show "bit (signed_drop_bit 63 x) n = bit (if bit x 63 then - 1 else 0 :: u64) n"
    by (cases n) (auto simp: bit_simps)
qed

lemma word_of_int_max: "(word_of_int (2 ^ LENGTH('l) - 1) :: 'l::len word) = - 1"
  by transfer (simp add: take_bit_minus_one_eq_mask mask_eq_exp_minus_1)

lemma usat_res_id: "0 \<le> k \<Longrightarrow> k < 2 ^ LENGTH('l) \<Longrightarrow> usat_res k env = (word_of_int k :: 'l::len word, env)"
  using usat_id_iff [of "LENGTH('l)" k] by (simp add: usat_res_def usat_word_def)

lemma usat_res_over: "2 ^ LENGTH('l) \<le> k \<Longrightarrow> usat_res k env = (- 1 :: 'l::len word, SET_QC env)"
  using word_of_int_max [where 'l = 'l]
  by (simp add: usat_res_def usat_word_def usat_def max_def min_def)

lemma usat_res_under: "k < 0 \<Longrightarrow> usat_res k env = (0 :: 'l::len word, SET_QC env)"
proof -
  assume "k < 0"
  moreover have "(1::int) \<le> 2 ^ LENGTH('l)" by simp
  ultimately have "usat LENGTH('l) k = 0" unfolding usat_def by linarith
  then show ?thesis using \<open>k < 0\<close> by (simp add: usat_res_def usat_word_def)
qed

lemma ssat_res_id:
  "- (2 ^ (LENGTH('l) - 1)) \<le> k \<Longrightarrow> k < 2 ^ (LENGTH('l) - 1) \<Longrightarrow> ssat_res k env = (word_of_int k :: 'l::len word, env)"
  using ssat_id_iff [of "LENGTH('l)" k] by (simp add: ssat_res_def ssat_word_def)

lemma ssat_res_over:
  "2 ^ (LENGTH('l) - 1) \<le> k \<Longrightarrow>
    ssat_res k env = (word_of_int (2 ^ (LENGTH('l) - 1) - 1) :: 'l::len word, SET_QC env)"
  by (simp add: ssat_res_def ssat_word_def ssat_def max_def min_def set_qc_if_def)

lemma ssat_res_under:
  "k < - (2 ^ (LENGTH('l) - 1)) \<Longrightarrow>
    ssat_res k env = (word_of_int (- (2 ^ (LENGTH('l) - 1))) :: 'l::len word, SET_QC env)"
proof -
  assume k: "k < - (2 ^ (LENGTH('l) - 1))"
  moreover have "(1::int) \<le> 2 ^ (LENGTH('l) - 1)" by simp
  ultimately have "ssat LENGTH('l) k = - (2 ^ (LENGTH('l) - 1))" unfolding ssat_def by linarith
  then show ?thesis using k by (simp add: ssat_res_def ssat_word_def)
qed

lemmas sat_res = usat_res_id usat_res_over usat_res_under ssat_res_id ssat_res_over ssat_res_under

text \<open>
  The shape of every helper: an overflow test, the bound it stores when it fires, and the
  wrapped result otherwise.
\<close>

lemma uint_sum_nonneg [simp]: "\<not> uint x + uint y < 0"
  using uint_range(1) [of x] uint_range(1) [of y] by linarith

lemma usat_res_ifI:
  assumes "ovf \<longleftrightarrow> usat LENGTH('l) k \<noteq> k" "ovf \<Longrightarrow> s = (if k < 0 then 0 else - 1)" "\<not> ovf \<Longrightarrow> w = word_of_int k"
  shows "(if ovf then (s, SET_QC env) else (w :: 'l::len word, env)) = usat_res k env"
proof (cases ovf)
  case True
  then have "k < 0 \<or> 2 ^ LENGTH('l) \<le> k" using assms(1) usat_id_iff [of "LENGTH('l)" k] by auto
  then show ?thesis using True assms(2) [OF True] by (auto simp: usat_res_over usat_res_under)
next
  case False
  then show ?thesis using assms(1,3) by (simp add: usat_res_def usat_word_def)
qed

lemma ssat_res_ifI:
  assumes "ovf \<longleftrightarrow> ssat LENGTH('l) k \<noteq> k"
    and "ovf \<Longrightarrow> s = word_of_int (if k < 0 then - (2 ^ (LENGTH('l) - 1)) else 2 ^ (LENGTH('l) - 1) - 1)"
    and "\<not> ovf \<Longrightarrow> w = word_of_int k"
  shows "(if ovf then (s, SET_QC env) else (w :: 'l::len word, env)) = ssat_res k env"
proof (cases ovf)
  case True
  then have "k < - (2 ^ (LENGTH('l) - 1)) \<or> 2 ^ (LENGTH('l) - 1) \<le> k"
    using assms(1) ssat_id_iff [of "LENGTH('l)" k] by auto
  moreover have "(1::int) \<le> 2 ^ (LENGTH('l) - 1)" by simp
  ultimately show ?thesis
    using True assms(2) [OF True] ssat_res_over [where 'l = 'l, of k env] ssat_res_under [where 'l = 'l, of k env]
    by (auto simp del: One_nat_def)
next
  case False
  then show ?thesis using assms(1,3) by (simp add: ssat_res_def ssat_word_def)
qed

lemma neon_qadd_u32_sat: "neon_qadd_u32 env a b = usat_res (uint a + uint b) env"
  using uint_ranges(3) [of a] uint_ranges(3) [of b]
  by (cases "uint a + uint b < 4294967296")
    (simp_all add: neon_qadd_u32_def Let_def sat_res word_less_def uint_plus_if')

lemma neon_qadd_u64_sat: "neon_qadd_u64 env a b = usat_res (uint a + uint b) env"
  using uint_ranges(4) [of a] uint_ranges(4) [of b]
  by (cases "uint a + uint b < 18446744073709551616")
    (simp_all add: neon_qadd_u64_def Let_def sat_res word_less_def uint_plus_if')

lemma NEON_USAT_add_sat:
  "LENGTH('l) < 32 \<Longrightarrow> NEON_USAT_add env (x::'l::len word) y = usat_res (uint x + uint y) env"
proof -
  assume l: "LENGTH('l) < 32"
  have "(2::int) ^ LENGTH('l) \<le> 2 ^ 31" using l by (intro power_increasing) auto
  then have "(2::int) ^ LENGTH('l) \<le> 2147483648" by simp
  then have r: "uint x + uint y < 4294967296"
    using uint_range(2) [of x] uint_range(2) [of y] by linarith
  have u: "uint ((ucast x :: u32) + ucast y) = uint x + uint y"
    using l r by (simp add: uint_plus_if' uint_up_ucast is_up)
  have "ucast (ucast ((ucast x :: u32) + ucast y) :: 'l word) = (ucast x :: u32) + ucast y \<longleftrightarrow>
      usat LENGTH('l) (uint x + uint y) = uint x + uint y"
    using narrow_u_iff [where 'l = 'l, of "(ucast x :: u32) + ucast y"] l by (simp add: u)
  then show ?thesis
    unfolding NEON_USAT_add_def Let_def ucast_uint_down [where 'l = 'l] u
    by (intro usat_res_ifI) auto
qed

lemma saturated32:
  "NOT (signed_drop_bit 31 (a::u32) XOR SIGNBIT) = word_of_int (if sint a < 0 then - 2147483648 else 2147483647)"
  by (simp add: signed_drop_bit_sign32 bit_last_iff [symmetric] SIGNBIT_def)

lemma saturated64:
  "signed_drop_bit 63 (a::u64) XOR NOT SIGNBIT64 =
    word_of_int (if sint a < 0 then - 9223372036854775808 else 9223372036854775807)"
  by (simp add: signed_drop_bit_sign64 bit_last_iff [symmetric] SIGNBIT64_def)

lemma word_of_int_sint_arith [simp]:
  "(word_of_int (sint a + sint b) :: 'a::len word) = a + b"
  "(word_of_int (sint a - sint b) :: 'a::len word) = a - b"
  "(word_of_int (uint a + uint b) :: 'a::len word) = a + b"
  "(word_of_int (uint a - uint b) :: 'a::len word) = a - b"
  by simp_all

lemma sint_add_exact:
  "- (2 ^ (LENGTH('r) - 1)) \<le> sint x + sint y \<Longrightarrow> sint x + sint y < 2 ^ (LENGTH('r) - 1) \<Longrightarrow>
    sint ((x::'r::len word) + y) = sint x + sint y"
  using sint_word_of_int [where 'a = 'r, of "sint x + sint y"] by simp

lemma sint_diff_exact:
  "- (2 ^ (LENGTH('r) - 1)) \<le> sint x - sint y \<Longrightarrow> sint x - sint y < 2 ^ (LENGTH('r) - 1) \<Longrightarrow>
    sint ((x::'r::len word) - y) = sint x - sint y"
  using sint_word_of_int [where 'a = 'r, of "sint x - sint y"] by simp

lemma sint_bound_small:
  "LENGTH('l) < 32 \<Longrightarrow> - 1073741824 \<le> sint (x::'l::len word)"
  "LENGTH('l) < 32 \<Longrightarrow> sint (x::'l::len word) < 1073741824"
proof -
  assume "LENGTH('l) < 32"
  then have "(2::int) ^ (LENGTH('l) - 1) \<le> 2 ^ 30" by (intro power_increasing) auto
  then show "- 1073741824 \<le> sint x" "sint x < 1073741824" using sint_range [of x] by simp_all
qed

text \<open>The bound the signed lane macros store: \<^verbatim>\<open>(1 << (sizeof(type) * 8 - 1)) - 1\<close> or \<^verbatim>\<open>1 << ...\<close>.\<close>

lemma lane_bounds:
  "LENGTH('l) \<le> 32 \<Longrightarrow>
    (ucast (push_bit (LENGTH('l) - 1) 1 - 1 :: u32) :: 'l::len word) = word_of_int (2 ^ (LENGTH('l) - 1) - 1)"
  "LENGTH('l) \<le> 32 \<Longrightarrow>
    (ucast (push_bit (LENGTH('l) - 1) (1 :: u32)) :: 'l::len word) = word_of_int (- (2 ^ (LENGTH('l) - 1)))"
proof -
  assume l: "LENGTH('l) \<le> 32"
  have e: "(ucast (push_bit (LENGTH('l) - 1) (1 :: u32)) :: 'l word) = 2 ^ (LENGTH('l) - 1)"
    by (rule bit_word_eqI) (use l in \<open>auto simp: bit_simps\<close>)
  have "(2 ^ (LENGTH('l) - 1) :: 'l word) + 2 ^ (LENGTH('l) - 1) = 2 ^ Suc (LENGTH('l) - 1)"
    by (simp only: power_Suc mult_2)
  also have "\<dots> = 0" by simp
  finally have "(2 ^ (LENGTH('l) - 1) :: 'l word) = - (2 ^ (LENGTH('l) - 1))"
    by (simp only: eq_neg_iff_add_eq_0)
  with e show "(ucast (push_bit (LENGTH('l) - 1) (1 :: u32)) :: 'l word) = word_of_int (- (2 ^ (LENGTH('l) - 1)))"
    by (simp only: of_int_minus of_int_power of_int_numeral)
  show "(ucast (push_bit (LENGTH('l) - 1) 1 - 1 :: u32) :: 'l::len word) = word_of_int (2 ^ (LENGTH('l) - 1) - 1)"
    using l e by (simp add: cast_simps del: One_nat_def)
qed

lemma NEON_SSAT_add_sat:
  assumes l: "LENGTH('l) < 32"
  shows "NEON_SSAT_add env (x::'l::len word) y = ssat_res (sint x + sint y) env"
proof -
  have le: "LENGTH('l) \<le> LENGTH(32)" using l by simp
  define tmp where "tmp = (scast x :: u32) + scast y"
  have s: "sint tmp = sint x + sint y"
    unfolding tmp_def using l sint_bound_small [of x] sint_bound_small [of y]
    by (subst sint_add_exact) (simp_all add: sint_up_scast is_up)
  have ovf: "tmp \<noteq> scast (ucast tmp :: 'l word) \<longleftrightarrow> ssat LENGTH('l) (sint x + sint y) \<noteq> sint x + sint y"
    using narrow_s_iff [where 'l = 'l, of tmp, OF le] unfolding s by metis
  show ?thesis
    unfolding NEON_SSAT_add_def Let_def tmp_def [symmetric]
  proof (rule ssat_res_ifI [OF ovf])
    assume "tmp \<noteq> scast (ucast tmp :: 'l word)"
    then have "0 < sint y \<longleftrightarrow> \<not> sint x + sint y < 0"
      using sint_range [of x] sint_range [of y] unfolding ovf ssat_id_iff by linarith
    then show "ucast (if 0 < sint y then push_bit (LENGTH('l) - 1) 1 - 1 else push_bit (LENGTH('l) - 1) (1 :: u32)) =
        (word_of_int (if sint x + sint y < 0 then - (2 ^ (LENGTH('l) - 1)) else 2 ^ (LENGTH('l) - 1) - 1) :: 'l word)"
      using lane_bounds [where 'l = 'l] l by (simp del: One_nat_def)
  qed (simp only: ucast_sint_down [OF le] s)
qed

lemma NEON_SSAT_sub_sat:
  assumes l: "LENGTH('l) < 32"
  shows "NEON_SSAT_sub env (x::'l::len word) y = ssat_res (sint x - sint y) env"
proof -
  have le: "LENGTH('l) \<le> LENGTH(32)" using l by simp
  define tmp where "tmp = (scast x :: u32) - scast y"
  have s: "sint tmp = sint x - sint y"
    unfolding tmp_def using l sint_bound_small [of x] sint_bound_small [of y]
    by (subst sint_diff_exact) (simp_all add: sint_up_scast is_up)
  have ovf: "tmp \<noteq> scast (ucast tmp :: 'l word) \<longleftrightarrow> ssat LENGTH('l) (sint x - sint y) \<noteq> sint x - sint y"
    using narrow_s_iff [where 'l = 'l, of tmp, OF le] unfolding s by metis
  show ?thesis
    unfolding NEON_SSAT_sub_def Let_def tmp_def [symmetric]
  proof (rule ssat_res_ifI [OF ovf])
    assume "tmp \<noteq> scast (ucast tmp :: 'l word)"
    then have "sint y < 0 \<longleftrightarrow> \<not> sint x - sint y < 0"
      using sint_range [of x] sint_range [of y] unfolding ovf ssat_id_iff by linarith
    then show "ucast (if sint y < 0 then push_bit (LENGTH('l) - 1) 1 - 1 else push_bit (LENGTH('l) - 1) (1 :: u32)) =
        (word_of_int (if sint x - sint y < 0 then - (2 ^ (LENGTH('l) - 1)) else 2 ^ (LENGTH('l) - 1) - 1) :: 'l word)"
      using lane_bounds [where 'l = 'l] l by (simp del: One_nat_def)
  qed (simp only: ucast_sint_down [OF le] s)
qed

lemma neon_qadd_s32_sat: "neon_qadd_s32 env a b = ssat_res (sint a + sint b) env"
proof -
  have "(((a + b) XOR a) AND SIGNBIT \<noteq> 0 \<and> \<not> (a XOR b) AND SIGNBIT \<noteq> 0) \<longleftrightarrow>
      ssat LENGTH(32) (sint a + sint b) \<noteq> sint a + sint b"
    using uint_ranges(3) [of a] uint_ranges(3) [of b]
    by (auto simp: ssat_id_iff sign_simps)
      (use uint_range(1) [of a] uint_range(1) [of b] in linarith)+
  then show ?thesis
    unfolding neon_qadd_s32_def Let_def saturated32
    using sint_ranges(5,6) [of a] sint_ranges(5,6) [of b]
    by (intro ssat_res_ifI) (auto simp: ssat_id_iff)
qed

lemma neon_qadd_s64_sat: "neon_qadd_s64 env a b = ssat_res (sint a + sint b) env"
proof -
  have "(((a + b) XOR a) AND SIGNBIT64 \<noteq> 0 \<and> \<not> (a XOR b) AND SIGNBIT64 \<noteq> 0) \<longleftrightarrow>
      ssat LENGTH(64) (sint a + sint b) \<noteq> sint a + sint b"
    using uint_ranges(4) [of a] uint_ranges(4) [of b]
    by (auto simp: ssat_id_iff sign_simps)
      (use uint_range(1) [of a] uint_range(1) [of b] in linarith)+
  then show ?thesis
    unfolding neon_qadd_s64_def Let_def saturated64
    using sint_ranges(7,8) [of a] sint_ranges(7,8) [of b]
    by (intro ssat_res_ifI) (auto simp: ssat_id_iff)
qed

lemma neon_qsub_s32_sat: "neon_qsub_s32 env a b = ssat_res (sint a - sint b) env"
proof -
  have "(((a - b) XOR a) AND SIGNBIT \<noteq> 0 \<and> (a XOR b) AND SIGNBIT \<noteq> 0) \<longleftrightarrow>
      ssat LENGTH(32) (sint a - sint b) \<noteq> sint a - sint b"
    using uint_ranges(3) [of a] uint_ranges(3) [of b]
    by (auto simp: ssat_id_iff sign_simps)
      (use uint_range(1) [of a] uint_range(1) [of b] in linarith)+
  then show ?thesis
    unfolding neon_qsub_s32_def Let_def saturated32
    using sint_ranges(5,6) [of a] sint_ranges(5,6) [of b]
    by (intro ssat_res_ifI) (auto simp: ssat_id_iff)
qed

lemma neon_qsub_s64_sat: "neon_qsub_s64 env a b = ssat_res (sint a - sint b) env"
proof -
  have "(((a - b) XOR a) AND SIGNBIT64 \<noteq> 0 \<and> (a XOR b) AND SIGNBIT64 \<noteq> 0) \<longleftrightarrow>
      ssat LENGTH(64) (sint a - sint b) \<noteq> sint a - sint b"
    using uint_ranges(4) [of a] uint_ranges(4) [of b]
    by (auto simp: ssat_id_iff sign_simps)
      (use uint_range(1) [of a] uint_range(1) [of b] in linarith)+
  then show ?thesis
    unfolding neon_qsub_s64_def Let_def saturated64
    using sint_ranges(7,8) [of a] sint_ranges(7,8) [of b]
    by (intro ssat_res_ifI) (auto simp: ssat_id_iff)
qed

lemma uint_diff_less: "uint x - uint y < 2 ^ LENGTH('a)" for x y :: "'a::len word"
  using uint_range [of x] uint_range [of y] by linarith

lemma usat_sub_iff: "usat LENGTH('l) (uint x - uint y) \<noteq> uint x - uint y \<longleftrightarrow> uint x < uint y" for x y :: "'l::len word"
  using uint_diff_less [of x y] by (auto simp: usat_id_iff)

lemma neon_qsub_u32_sat: "neon_qsub_u32 env a b = usat_res (uint a - uint b) env"
proof -
  have "a - b > a \<longleftrightarrow> usat LENGTH(32) (uint a - uint b) \<noteq> uint a - uint b"
    unfolding usat_sub_iff
    using uint_ranges(3) [of a] uint_ranges(3) [of b] by (auto simp: word_less_def uint_sub_if')
  then show ?thesis
    unfolding neon_qsub_u32_def Let_def
    by (rule usat_res_ifI) (simp_all add: word_less_def uint_sub_if' split: if_splits)
qed

lemma neon_qsub_u64_sat: "neon_qsub_u64 env a b = usat_res (uint a - uint b) env"
proof -
  have "a < b \<longleftrightarrow> usat LENGTH(64) (uint a - uint b) \<noteq> uint a - uint b"
    unfolding usat_sub_iff by (simp add: word_less_def)
  then show ?thesis
    unfolding neon_qsub_u64_def by (rule usat_res_ifI) (simp_all add: word_less_def)
qed

lemma NEON_USAT_sub_sat:
  assumes l: "LENGTH('l) < 32"
  shows "NEON_USAT_sub env (x::'l::len word) y = usat_res (uint x - uint y) env"
proof -
  have le: "LENGTH('l) \<le> LENGTH(32)" using l by simp
  define tmp where "tmp = (ucast x :: u32) - ucast y"
  have "(2::int) ^ LENGTH('l) \<le> 2 ^ 31" using l by (intro power_increasing) auto
  then have "(2::int) ^ LENGTH('l) \<le> 2147483648" by simp
  then have big: "uint x < uint y \<Longrightarrow> 2 ^ LENGTH('l) \<le> 4294967296 + (uint x - uint y)"
    using uint_range [of x] uint_range [of y] by linarith
  have u: "uint tmp = (if uint x < uint y then 4294967296 + (uint x - uint y) else uint x - uint y)"
    unfolding tmp_def using l by (auto simp: uint_sub_if' uint_up_ucast is_up)
  have ovf: "tmp \<noteq> ucast (ucast tmp :: 'l word) \<longleftrightarrow> usat LENGTH('l) (uint x - uint y) \<noteq> uint x - uint y"
    using narrow_u_iff [where 'l = 'l, of tmp, OF le] big uint_diff_less [of x y] uint_range [of x]
    unfolding usat_sub_iff usat_id_iff u by (auto split: if_splits)
  show ?thesis
    unfolding NEON_USAT_sub_def Let_def tmp_def [symmetric]
  proof (rule usat_res_ifI [OF ovf])
    assume "tmp \<noteq> ucast (ucast tmp :: 'l word)"
    then have "uint x < uint y" unfolding ovf usat_sub_iff .
    then show "0 = (if uint x - uint y < 0 then 0 else - 1 :: 'l word)" by simp
  next
    assume "\<not> tmp \<noteq> ucast (ucast tmp :: 'l word)"
    then have "\<not> uint x < uint y" unfolding ovf usat_sub_iff .
    then show "ucast tmp = (word_of_int (uint x - uint y) :: 'l word)"
      by (simp only: ucast_uint_down [where 'l = 'l] u if_False)
  qed
qed

section \<open>Saturating accumulate is clamped mixed-sign addition\<close>

lemma sint_ucast_up: "LENGTH('l) < LENGTH('v) \<Longrightarrow> sint (ucast (y::'l::len word) :: 'v::len word) = uint y"
proof -
  assume lv: "LENGTH('l) < LENGTH('v)"
  then have "(2::int) ^ LENGTH('l) \<le> 2 ^ (LENGTH('v) - 1)" by (intro power_increasing) auto
  then have "- (2 ^ (LENGTH('v) - 1)) \<le> uint y" "uint y < 2 ^ (LENGTH('v) - 1)"
    using uint_range [of y] by linarith+
  then show ?thesis
    unfolding ucast_eq_word_of_int by (rule sint_word_of_int)
qed

lemma sint_mixed_add:
  fixes x y :: "'l::len word"
  assumes "LENGTH('l) + 2 \<le> LENGTH('v)"
  shows "sint ((scast x :: 'v::len word) + ucast y) = sint x + uint y"
    and "sint (ucast y + (scast x :: 'v word)) = uint y + sint x"
proof -
  have "(2::int) ^ Suc LENGTH('l) \<le> 2 ^ (LENGTH('v) - 1)" "(2::int) ^ (LENGTH('l) - 1) \<le> 2 ^ LENGTH('l)"
    using assms by (intro power_increasing; simp)+
  then have "- (2 ^ (LENGTH('v) - 1)) \<le> sint x + uint y" "sint x + uint y < 2 ^ (LENGTH('v) - 1)"
    using sint_range [of x] uint_range [of y] unfolding power_Suc by linarith+
  then show "sint ((scast x :: 'v::len word) + ucast y) = sint x + uint y"
    using assms by (subst sint_add_exact) (simp_all add: sint_up_scast is_up sint_ucast_up)
  then show "sint (ucast y + (scast x :: 'v word)) = uint y + sint x"
    by (simp add: add.commute)
qed

lemma deposit32_lane:
  "LENGTH('l) + st \<le> 32 \<Longrightarrow>
    deposit32 r st LENGTH('l) f = deposit32 r st LENGTH('l) (ucast (ucast f :: 'l::len word))"
  by (rule bit_word_eqI) (auto simp: bit_deposit32 bit_simps)

text \<open>One step of an accumulate: the lane at \<open>shift\<close> of the result and the flag it raises.\<close>

definition acc_step :: "nat \<Rightarrow> (CPUARMState \<Rightarrow> 'l::len word \<times> CPUARMState) \<Rightarrow> u32 \<times> CPUARMState \<Rightarrow>
    u32 \<times> CPUARMState" where
  "acc_step shift f st = (let (v, env) = f (snd st) in (deposit32 (fst st) shift LENGTH('l) (ucast v), env))"

lemma ucast_scast_same: "LENGTH('v) \<le> 32 \<Longrightarrow> (ucast (scast (x::'l::len word) :: u32) :: 'v::len word) = scast x"
  by (rule bit_word_eqI) (auto simp: bit_simps)

lemma ucast_exp_minus_1:
  "LENGTH('l) \<le> LENGTH('r) \<Longrightarrow> (ucast (2 ^ LENGTH('l) - 1 :: 'r::len word) :: 'l::len word) = - 1"
  by (rule bit_word_eqI) (auto simp: bit_simps mask_eq_exp_minus_1 [symmetric])

lemma USATACC_step:
  fixes a b :: u32
  assumes "LENGTH('l) + shift \<le> 32" "LENGTH('l) + 2 \<le> LENGTH('v)" "LENGTH('v) \<le> 32"
  defines "x \<equiv> ucast (drop_bit shift a) :: 'l::len word" and "y \<equiv> ucast (drop_bit shift b) :: 'l word"
  shows "USATACC TYPE('v::len) LENGTH('l) shift a b st =
    acc_step shift (usat_res (sint x + uint y) :: _ \<Rightarrow> 'l word \<times> _) st"
proof -
  let ?vr = "(scast x :: 'v word) + ucast y"
  have vr: "ucast (sextract32 a shift LENGTH('l)) + ucast (extract32 b shift LENGTH('l)) = ?vr"
    using assms(1,3) unfolding x_def y_def
    by (simp add: sextract32_scast [where 'l = 'l] extract32_ucast [where 'l = 'l] ucast_scast_same ucast_ucast_up)
  have s: "sint ?vr = sint x + uint y" using assms(2) by (rule sint_mixed_add)
  have lane: "deposit32 r shift LENGTH('l) f = deposit32 r shift LENGTH('l) (ucast (ucast f :: 'l word))" for r f
    by (rule deposit32_lane [OF assms(1)])
  have w: "(ucast (scast ?vr :: u32) :: 'l word) = word_of_int (sint x + uint y)"
  proof -
    have "(ucast (scast ?vr :: u32) :: 'l word) = ucast ?vr"
      using assms(1,2) by (intro ucast_scast_down) auto
    also have "\<dots> = word_of_int (sint ?vr)" using assms(2) by (intro ucast_sint_down) simp
    finally show ?thesis unfolding s .
  qed
  have m: "(ucast (2 ^ LENGTH('l) - 1 :: u32) :: 'l word) = - 1"
    using assms(1) by (intro ucast_exp_minus_1) simp
  consider "2 ^ LENGTH('l) \<le> sint x + uint y" | "sint x + uint y < 0" "\<not> 2 ^ LENGTH('l) - 1 < sint x + uint y"
    | "0 \<le> sint x + uint y" "sint x + uint y < 2 ^ LENGTH('l)"
    using one_le_power [of "2::int" "LENGTH('l)"] by linarith
  then show ?thesis
    unfolding USATACC_def Let_def vr s acc_step_def lane [of _ "scast _"] lane [of _ "_ - 1"] w m
    by cases (auto simp: usat_res_over usat_res_under usat_res_id split: prod.splits)
qed

lemma ucast_neg_exp:
  "LENGTH('l) \<le> LENGTH('r) \<Longrightarrow>
    (ucast (- (2 ^ (LENGTH('l) - 1)) :: 'r::len word) :: 'l::len word) = word_of_int (- (2 ^ (LENGTH('l) - 1)))"
  "LENGTH('l) \<le> LENGTH('r) \<Longrightarrow>
    (ucast (2 ^ (LENGTH('l) - 1) - 1 :: 'r::len word) :: 'l::len word) = word_of_int (2 ^ (LENGTH('l) - 1) - 1)"
proof -
  assume "LENGTH('l) \<le> LENGTH('r)"
  moreover have "(ucast (2 ^ (LENGTH('l) - 1) :: 'r word) :: 'l word) = 2 ^ (LENGTH('l) - 1)"
    by (rule bit_word_eqI) (use calculation in \<open>auto simp: bit_simps\<close>)
  ultimately show
    "(ucast (- (2 ^ (LENGTH('l) - 1)) :: 'r::len word) :: 'l::len word) = word_of_int (- (2 ^ (LENGTH('l) - 1)))"
    "(ucast (2 ^ (LENGTH('l) - 1) - 1 :: 'r::len word) :: 'l::len word) = word_of_int (2 ^ (LENGTH('l) - 1) - 1)"
    by (simp_all only: ucast_uminus_down ucast_diff_down of_int_minus of_int_diff of_int_power of_int_numeral of_int_1
      ucast_1 unsigned_1)
qed

lemma SSATACC_step:
  fixes a b :: u32
  assumes "LENGTH('l) + shift \<le> 32" "LENGTH('l) + 2 \<le> LENGTH('v)" "LENGTH('v) \<le> 32"
  defines "x \<equiv> ucast (drop_bit shift a) :: 'l::len word" and "y \<equiv> ucast (drop_bit shift b) :: 'l word"
  shows "SSATACC TYPE('v::len) LENGTH('l) shift a b st =
    acc_step shift (ssat_res (uint x + sint y) :: _ \<Rightarrow> 'l word \<times> _) st"
proof -
  let ?vr = "ucast x + (scast y :: 'v word)"
  have vr: "ucast (extract32 a shift LENGTH('l)) + ucast (sextract32 b shift LENGTH('l)) = ?vr"
    using assms(1,3) unfolding x_def y_def
    by (simp add: sextract32_scast [where 'l = 'l] extract32_ucast [where 'l = 'l] ucast_scast_same ucast_ucast_up)
  have s: "sint ?vr = uint x + sint y" using assms(2) by (rule sint_mixed_add)
  have lane: "deposit32 r shift LENGTH('l) f = deposit32 r shift LENGTH('l) (ucast (ucast f :: 'l word))" for r f
    by (rule deposit32_lane [OF assms(1)])
  have "(ucast (scast ?vr :: u32) :: 'l word) = ucast ?vr"
    using assms(1,2) by (intro ucast_scast_down) auto
  also have "\<dots> = word_of_int (sint ?vr)" using assms(2) by (intro ucast_sint_down) simp
  finally have w: "(ucast (scast ?vr :: u32) :: 'l word) = word_of_int (uint x + sint y)" unfolding s .
  have m: "(ucast (2 ^ (LENGTH('l) - 1) - 1 :: u32) :: 'l word) = word_of_int (2 ^ (LENGTH('l) - 1) - 1)"
    "(ucast (- (2 ^ (LENGTH('l) - 1)) :: u32) :: 'l word) = word_of_int (- (2 ^ (LENGTH('l) - 1)))"
    using assms(1) by (intro ucast_neg_exp; simp)+
  consider "2 ^ (LENGTH('l) - 1) \<le> uint x + sint y"
    | "uint x + sint y < - (2 ^ (LENGTH('l) - 1))" "\<not> 2 ^ (LENGTH('l) - 1) - 1 < uint x + sint y"
    | "- (2 ^ (LENGTH('l) - 1)) \<le> uint x + sint y" "uint x + sint y < 2 ^ (LENGTH('l) - 1)"
    using one_le_power [of "2::int" "LENGTH('l) - 1"] by linarith
  then show ?thesis
    unfolding SSATACC_def Let_def vr s acc_step_def lane [of _ "scast _"] lane [of _ "_ - 1"] lane [of _ "- _"] w m
    by cases (simp_all add: ssat_res_over ssat_res_under ssat_res_id split: prod.splits del: One_nat_def)
qed

lemma neon_uqadd_s32_sat: "neon_uqadd_s32 env a b = usat_res (sint a + uint b) env"
proof -
  have s: "sint ((scast a :: u64) + ucast b) = sint a + uint b" by (rule sint_mixed_add) simp
  have w: "(ucast ((scast a :: u64) + ucast b) :: u32) = word_of_int (sint a + uint b)"
    using ucast_sint_down [where 'l = 32, of "(scast a :: u64) + ucast b"] s by simp
  consider "4294967296 \<le> sint a + uint b" | "sint a + uint b < 0"
    | "0 \<le> sint a + uint b" "sint a + uint b < 4294967296" by linarith
  then show ?thesis
    unfolding neon_uqadd_s32_def Let_def s w by cases (simp_all add: sat_res)
qed

lemma neon_sqadd_u32_sat: "neon_sqadd_u32 env a b = ssat_res (uint a + sint b) env"
proof -
  have s: "sint (ucast a + (scast b :: u64)) = uint a + sint b" by (rule sint_mixed_add) simp
  have w: "(ucast (ucast a + (scast b :: u64)) :: u32) = word_of_int (uint a + sint b)"
    using ucast_sint_down [where 'l = 32, of "ucast a + (scast b :: u64)"] s by simp
  consider "2147483648 \<le> uint a + sint b" | "uint a + sint b < - 2147483648"
    | "- 2147483648 \<le> uint a + sint b" "uint a + sint b < 2147483648" by linarith
  then show ?thesis
    unfolding neon_sqadd_u32_def Let_def s w by cases (simp_all add: sat_res)
qed

lemma word_of_int_mixed: "(word_of_int (sint a + uint b) :: 'a::len word) = a + b"
  "(word_of_int (uint a + sint b) :: 'a::len word) = a + b"
  by simp_all

lemma neon_uqadd_s64_sat: "neon_uqadd_s64 env a b = usat_res (sint a + uint b) env"
proof -
  have hi: "NOT a AND b AND NOT (a + b) AND SIGNBIT64 \<noteq> 0 \<longleftrightarrow> 18446744073709551616 \<le> sint a + uint b"
    using uint_ranges(4) [of a] uint_ranges(4) [of b]
    by (auto simp: sign_simps and.assoc [symmetric]) (use uint_range(1) [of a] uint_range(1) [of b] in linarith)+
  have lo: "a AND NOT b AND (a + b) AND SIGNBIT64 \<noteq> 0 \<longleftrightarrow> sint a + uint b < 0"
    using uint_ranges(4) [of a] uint_ranges(4) [of b]
    by (auto simp: sign_simps and.assoc [symmetric]) (use uint_range(1) [of a] uint_range(1) [of b] in linarith)+
  consider "18446744073709551616 \<le> sint a + uint b" | "sint a + uint b < 0"
    | "0 \<le> sint a + uint b" "sint a + uint b < 18446744073709551616" by linarith
  then show ?thesis
    unfolding neon_uqadd_s64_def Let_def hi lo by cases (simp_all add: sat_res)
qed

lemma neon_sqadd_u64_sat: "neon_sqadd_u64 env a b = ssat_res (uint a + sint b) env"
proof -
  have hi: "((a AND (a + b)) OR (NOT b AND (a + b)) OR (a AND NOT b)) AND SIGNBIT64 \<noteq> 0 \<longleftrightarrow>
      9223372036854775808 \<le> uint a + sint b"
    using uint_ranges(4) [of a] uint_ranges(4) [of b]
    by (auto simp: sign_simps and.assoc [symmetric]) (use uint_range(1) [of a] uint_range(1) [of b] in linarith)+
  have "- 9223372036854775808 \<le> uint a + sint b"
    using sint_ranges(7) [of b] uint_range(1) [of a] by linarith
  then show ?thesis
    unfolding neon_sqadd_u64_def Let_def hi
    by (cases "9223372036854775808 \<le> uint a + sint b") (simp_all add: sat_res)
qed

section \<open>Whole vectors\<close>

text \<open>
  The specification of a saturating vector operation: every lane holds the clamped value
  of the exact result \<open>h\<close>, and \<open>QC\<close> is raised when some lane was clamped.
\<close>

definition usat_vop :: "('c \<Rightarrow> 'l::len word list) \<Rightarrow> ('l word list \<Rightarrow> 'c) \<Rightarrow> ('l word \<Rightarrow> 'l word \<Rightarrow> int) \<Rightarrow>
    CPUARMState \<Rightarrow> 'c \<Rightarrow> 'c \<Rightarrow> 'c \<times> CPUARMState" where
  "usat_vop unpack pack h env a b =
     (NEON_VOP unpack pack (\<lambda>x y. usat_word (h x y)) a b,
      set_qc_if (\<exists>i<length (unpack a). usat LENGTH('l) (h (unpack a ! i) (unpack b ! i)) \<noteq> h (unpack a ! i) (unpack b ! i)) env)"

definition ssat_vop :: "('c \<Rightarrow> 'l::len word list) \<Rightarrow> ('l word list \<Rightarrow> 'c) \<Rightarrow> ('l word \<Rightarrow> 'l word \<Rightarrow> int) \<Rightarrow>
    CPUARMState \<Rightarrow> 'c \<Rightarrow> 'c \<Rightarrow> 'c \<times> CPUARMState" where
  "ssat_vop unpack pack h env a b =
     (NEON_VOP unpack pack (\<lambda>x y. ssat_word (h x y)) a b,
      set_qc_if (\<exists>i<length (unpack a). ssat LENGTH('l) (h (unpack a ! i) (unpack b ! i)) \<noteq> h (unpack a ! i) (unpack b ! i)) env)"

lemma qadd_u8_vop: "neon_qadd_u8 = usat_vop neon_unpack8 neon_pack8 (\<lambda>x y. uint x + uint y)"
  unfolding neon_qadd_u8_def usat_vop_def l8.length_unpack
  by (intro ext l8.VOP_ENV_flag) (simp add: NEON_USAT_add_sat usat_res_def)

lemma qadd_u16_vop: "neon_qadd_u16 = usat_vop neon_unpack16 neon_pack16 (\<lambda>x y. uint x + uint y)"
  unfolding neon_qadd_u16_def usat_vop_def l16.length_unpack
  by (intro ext l16.VOP_ENV_flag) (simp add: NEON_USAT_add_sat usat_res_def)

lemma qadd_s8_vop: "neon_qadd_s8 = ssat_vop neon_unpack8 neon_pack8 (\<lambda>x y. sint x + sint y)"
  unfolding neon_qadd_s8_def ssat_vop_def l8.length_unpack
  by (intro ext l8.VOP_ENV_flag) (simp add: NEON_SSAT_add_sat ssat_res_def)

lemma qadd_s16_vop: "neon_qadd_s16 = ssat_vop neon_unpack16 neon_pack16 (\<lambda>x y. sint x + sint y)"
  unfolding neon_qadd_s16_def ssat_vop_def l16.length_unpack
  by (intro ext l16.VOP_ENV_flag) (simp add: NEON_SSAT_add_sat ssat_res_def)

lemma qsub_u8_vop: "neon_qsub_u8 = usat_vop neon_unpack8 neon_pack8 (\<lambda>x y. uint x - uint y)"
  unfolding neon_qsub_u8_def usat_vop_def l8.length_unpack
  by (intro ext l8.VOP_ENV_flag) (simp add: NEON_USAT_sub_sat usat_res_def)

lemma qsub_u16_vop: "neon_qsub_u16 = usat_vop neon_unpack16 neon_pack16 (\<lambda>x y. uint x - uint y)"
  unfolding neon_qsub_u16_def usat_vop_def l16.length_unpack
  by (intro ext l16.VOP_ENV_flag) (simp add: NEON_USAT_sub_sat usat_res_def)

lemma qsub_s8_vop: "neon_qsub_s8 = ssat_vop neon_unpack8 neon_pack8 (\<lambda>x y. sint x - sint y)"
  unfolding neon_qsub_s8_def ssat_vop_def l8.length_unpack
  by (intro ext l8.VOP_ENV_flag) (simp add: NEON_SSAT_sub_sat ssat_res_def)

lemma qsub_s16_vop: "neon_qsub_s16 = ssat_vop neon_unpack16 neon_pack16 (\<lambda>x y. sint x - sint y)"
  unfolding neon_qsub_s16_def ssat_vop_def l16.length_unpack
  by (intro ext l16.VOP_ENV_flag) (simp add: NEON_SSAT_sub_sat ssat_res_def)

text \<open>The accumulates write their lanes with \<^verbatim>\<open>deposit32\<close> one after the other.\<close>

lemma deposit_lanes8:
  "deposit32 (deposit32 (deposit32 (deposit32 0 0 8 (ucast v0)) 8 8 (ucast v1)) 16 8 (ucast v2)) 24 8 (ucast v3) =
    neon_pack8 [v0, v1, v2, v3 :: u8]"
proof (rule bit_word_eqI)
  fix i assume "i < LENGTH(32)"
  then show "bit (deposit32 (deposit32 (deposit32 (deposit32 0 0 8 (ucast v0)) 8 8 (ucast v1)) 16 8 (ucast v2)) 24 8 (ucast v3)) i
      = bit (neon_pack8 [v0, v1, v2, v3]) i"
    by (cases "i < 8"; cases "i < 16"; cases "i < 24")
      (auto simp: neon_pack8_def bit_deposit32 bit_simps dest: bit_imp_le_length)
qed

lemma deposit_lanes16:
  "deposit32 (deposit32 0 0 16 (ucast v0)) 16 16 (ucast v1) = neon_pack16 [v0, v1 :: u16]"
  by (rule bit_word_eqI) (auto simp: neon_pack16_def bit_deposit32 bit_simps dest: bit_imp_le_length)

lemma uqadd_s8_vop: "neon_uqadd_s8 = usat_vop neon_unpack8 neon_pack8 (\<lambda>x y. sint x + uint y)"
proof (intro ext)
  fix env a b
  show "neon_uqadd_s8 env a b = usat_vop neon_unpack8 neon_pack8 (\<lambda>x y. sint x + uint y) env a b"
    unfolding neon_uqadd_s8_def usat_vop_def l8.length_unpack ex_less_numerals
    using USATACC_step [where 'l = 8 and 'v = 16, of _ a b, simplified]
    by (simp add: acc_step_def usat_res_def deposit_lanes8 usat_vop_def NEON_VOP_def neon_unpack8_def)
      (rule arg_cong [where f = "\<lambda>q. set_qc_if q env"], blast)
qed

lemma sqadd_u8_vop: "neon_sqadd_u8 = ssat_vop neon_unpack8 neon_pack8 (\<lambda>x y. uint x + sint y)"
proof (intro ext)
  fix env a b
  show "neon_sqadd_u8 env a b = ssat_vop neon_unpack8 neon_pack8 (\<lambda>x y. uint x + sint y) env a b"
    unfolding neon_sqadd_u8_def ssat_vop_def l8.length_unpack ex_less_numerals
    using SSATACC_step [where 'l = 8 and 'v = 16, of _ a b, simplified]
    by (simp add: acc_step_def ssat_res_def deposit_lanes8 ssat_vop_def NEON_VOP_def neon_unpack8_def)
      (rule arg_cong [where f = "\<lambda>q. set_qc_if q env"], blast)
qed

lemma uqadd_s16_vop: "neon_uqadd_s16 = usat_vop neon_unpack16 neon_pack16 (\<lambda>x y. sint x + uint y)"
proof (intro ext)
  fix env a b
  show "neon_uqadd_s16 env a b = usat_vop neon_unpack16 neon_pack16 (\<lambda>x y. sint x + uint y) env a b"
    unfolding neon_uqadd_s16_def usat_vop_def l16.length_unpack ex_less_numerals
    using USATACC_step [where 'l = 16 and 'v = 32, of _ a b, simplified]
    by (simp add: acc_step_def usat_res_def deposit_lanes16 usat_vop_def NEON_VOP_def neon_unpack16_def)
qed

lemma sqadd_u16_vop: "neon_sqadd_u16 = ssat_vop neon_unpack16 neon_pack16 (\<lambda>x y. uint x + sint y)"
proof (intro ext)
  fix env a b
  show "neon_sqadd_u16 env a b = ssat_vop neon_unpack16 neon_pack16 (\<lambda>x y. uint x + sint y) env a b"
    unfolding neon_sqadd_u16_def ssat_vop_def l16.length_unpack ex_less_numerals
    using SSATACC_step [where 'l = 16 and 'v = 32, of _ a b, simplified]
    by (simp add: acc_step_def ssat_res_def deposit_lanes16 ssat_vop_def NEON_VOP_def neon_unpack16_def)
qed

section \<open>Properties\<close>

text \<open>
  C4. Saturating addition (\<^verbatim>\<open>neon_qadd_{u,s}{8,16,32,64}\<close>): every lane of the result is the exact
  sum of the two lanes clamped to the lane's range, and \<open>QC\<close> is raised exactly when some lane
  was clamped; nothing else of the state changes. The overflow tests of the code (a lossy
  narrowing cast, a wrapped comparison, the sign-bit pattern) are all equivalent to clamping.
\<close>

theorem neon_qadd_correct:
  "neon_qadd_u8 = usat_vop neon_unpack8 neon_pack8 (\<lambda>x y. uint x + uint y) \<and>
   neon_qadd_u16 = usat_vop neon_unpack16 neon_pack16 (\<lambda>x y. uint x + uint y) \<and>
   neon_qadd_u32 env a b = usat_res (uint a + uint b) env \<and>
   neon_qadd_u64 env c d = usat_res (uint c + uint d) env \<and>
   neon_qadd_s8 = ssat_vop neon_unpack8 neon_pack8 (\<lambda>x y. sint x + sint y) \<and>
   neon_qadd_s16 = ssat_vop neon_unpack16 neon_pack16 (\<lambda>x y. sint x + sint y) \<and>
   neon_qadd_s32 env a b = ssat_res (sint a + sint b) env \<and>
   neon_qadd_s64 env c d = ssat_res (sint c + sint d) env"
  by (intro conjI qadd_u8_vop qadd_u16_vop qadd_s8_vop qadd_s16_vop
    neon_qadd_u32_sat neon_qadd_u64_sat neon_qadd_s32_sat neon_qadd_s64_sat)

text \<open>
  C5. Saturating subtraction (\<^verbatim>\<open>neon_qsub_{u,s}{8,16,32,64}\<close>) clamps the exact difference lane
  by lane and raises \<open>QC\<close> exactly when some lane was clamped.
\<close>

theorem neon_qsub_correct:
  "neon_qsub_u8 = usat_vop neon_unpack8 neon_pack8 (\<lambda>x y. uint x - uint y) \<and>
   neon_qsub_u16 = usat_vop neon_unpack16 neon_pack16 (\<lambda>x y. uint x - uint y) \<and>
   neon_qsub_u32 env a b = usat_res (uint a - uint b) env \<and>
   neon_qsub_u64 env c d = usat_res (uint c - uint d) env \<and>
   neon_qsub_s8 = ssat_vop neon_unpack8 neon_pack8 (\<lambda>x y. sint x - sint y) \<and>
   neon_qsub_s16 = ssat_vop neon_unpack16 neon_pack16 (\<lambda>x y. sint x - sint y) \<and>
   neon_qsub_s32 env a b = ssat_res (sint a - sint b) env \<and>
   neon_qsub_s64 env c d = ssat_res (sint c - sint d) env"
  by (intro conjI qsub_u8_vop qsub_u16_vop qsub_s8_vop qsub_s16_vop
    neon_qsub_u32_sat neon_qsub_u64_sat neon_qsub_s32_sat neon_qsub_s64_sat)

text \<open>
  C6. Saturating accumulate: \<^verbatim>\<open>neon_uqadd_s*\<close> adds a signed to an unsigned operand and clamps
  to the unsigned range, \<^verbatim>\<open>neon_sqadd_u*\<close> adds an unsigned to a signed operand and clamps to the
  signed range, at every width, with \<open>QC\<close> raised exactly when a lane was clamped.
\<close>

theorem neon_satacc_correct:
  "neon_uqadd_s8 = usat_vop neon_unpack8 neon_pack8 (\<lambda>x y. sint x + uint y) \<and>
   neon_uqadd_s16 = usat_vop neon_unpack16 neon_pack16 (\<lambda>x y. sint x + uint y) \<and>
   neon_uqadd_s32 env a b = usat_res (sint a + uint b) env \<and>
   neon_uqadd_s64 env c d = usat_res (sint c + uint d) env \<and>
   neon_sqadd_u8 = ssat_vop neon_unpack8 neon_pack8 (\<lambda>x y. uint x + sint y) \<and>
   neon_sqadd_u16 = ssat_vop neon_unpack16 neon_pack16 (\<lambda>x y. uint x + sint y) \<and>
   neon_sqadd_u32 env a b = ssat_res (uint a + sint b) env \<and>
   neon_sqadd_u64 env c d = ssat_res (uint c + sint d) env"
  by (intro conjI uqadd_s8_vop uqadd_s16_vop sqadd_u8_vop sqadd_u16_vop
    neon_uqadd_s32_sat neon_uqadd_s64_sat neon_sqadd_u32_sat neon_sqadd_u64_sat)

end
