(* ===== verification/Neon_Arith.thy ===== *)
theory Neon_Arith
  imports Neon_Saturate
begin

text \<open>
  Lane-wise arithmetic of \<^verbatim>\<open>target-arm/neon_helper.c\<close> without saturation: halving addition and
  subtraction, comparisons, minimum and maximum (also pairwise), absolute difference,
  addition, subtraction, multiplication, tests and absolute value.

  The lane macros are generic in the lane type; the integer promotion of a lane to \<^verbatim>\<open>int\<close> is
  the parameter \<open>promote\<close> (\<open>scast\<close> for a signed lane, \<open>ucast\<close> for an unsigned one) and the value
  of a lane in a comparison is the parameter \<open>val\<close> (\<open>sint\<close> or \<open>uint\<close>).
\<close>

section \<open>Halving addition and subtraction\<close>

definition NEON_FN_hadd :: "('l::len word \<Rightarrow> u32) \<Rightarrow> 'l word \<Rightarrow> 'l word \<Rightarrow> 'l word" where
  "NEON_FN_hadd promote src1 src2 = ucast (signed_drop_bit 1 (promote src1 + promote src2))"

definition neon_hadd_s8 :: "u32 \<Rightarrow> u32 \<Rightarrow> u32" where
  "neon_hadd_s8 = NEON_VOP neon_unpack8 neon_pack8 (NEON_FN_hadd scast)"

definition neon_hadd_u8 :: "u32 \<Rightarrow> u32 \<Rightarrow> u32" where
  "neon_hadd_u8 = NEON_VOP neon_unpack8 neon_pack8 (NEON_FN_hadd ucast)"

definition neon_hadd_s16 :: "u32 \<Rightarrow> u32 \<Rightarrow> u32" where
  "neon_hadd_s16 = NEON_VOP neon_unpack16 neon_pack16 (NEON_FN_hadd scast)"

definition neon_hadd_u16 :: "u32 \<Rightarrow> u32 \<Rightarrow> u32" where
  "neon_hadd_u16 = NEON_VOP neon_unpack16 neon_pack16 (NEON_FN_hadd ucast)"

definition neon_hadd_s32 :: "u32 \<Rightarrow> u32 \<Rightarrow> u32" where
  "neon_hadd_s32 src1 src2 =
     (let dest = signed_drop_bit 1 src1 + signed_drop_bit 1 src2
      in if src1 AND src2 AND 1 \<noteq> 0 then dest + 1 else dest)"

definition neon_hadd_u32 :: "u32 \<Rightarrow> u32 \<Rightarrow> u32" where
  "neon_hadd_u32 src1 src2 =
     (let dest = drop_bit 1 src1 + drop_bit 1 src2
      in if src1 AND src2 AND 1 \<noteq> 0 then dest + 1 else dest)"

definition NEON_FN_rhadd :: "('l::len word \<Rightarrow> u32) \<Rightarrow> 'l word \<Rightarrow> 'l word \<Rightarrow> 'l word" where
  "NEON_FN_rhadd promote src1 src2 = ucast (signed_drop_bit 1 (promote src1 + promote src2 + 1))"

definition neon_rhadd_s8 :: "u32 \<Rightarrow> u32 \<Rightarrow> u32" where
  "neon_rhadd_s8 = NEON_VOP neon_unpack8 neon_pack8 (NEON_FN_rhadd scast)"

definition neon_rhadd_u8 :: "u32 \<Rightarrow> u32 \<Rightarrow> u32" where
  "neon_rhadd_u8 = NEON_VOP neon_unpack8 neon_pack8 (NEON_FN_rhadd ucast)"

definition neon_rhadd_s16 :: "u32 \<Rightarrow> u32 \<Rightarrow> u32" where
  "neon_rhadd_s16 = NEON_VOP neon_unpack16 neon_pack16 (NEON_FN_rhadd scast)"

definition neon_rhadd_u16 :: "u32 \<Rightarrow> u32 \<Rightarrow> u32" where
  "neon_rhadd_u16 = NEON_VOP neon_unpack16 neon_pack16 (NEON_FN_rhadd ucast)"

definition neon_rhadd_s32 :: "u32 \<Rightarrow> u32 \<Rightarrow> u32" where
  "neon_rhadd_s32 src1 src2 =
     (let dest = signed_drop_bit 1 src1 + signed_drop_bit 1 src2
      in if (src1 OR src2) AND 1 \<noteq> 0 then dest + 1 else dest)"

definition neon_rhadd_u32 :: "u32 \<Rightarrow> u32 \<Rightarrow> u32" where
  "neon_rhadd_u32 src1 src2 =
     (let dest = drop_bit 1 src1 + drop_bit 1 src2
      in if (src1 OR src2) AND 1 \<noteq> 0 then dest + 1 else dest)"

definition NEON_FN_hsub :: "('l::len word \<Rightarrow> u32) \<Rightarrow> 'l word \<Rightarrow> 'l word \<Rightarrow> 'l word" where
  "NEON_FN_hsub promote src1 src2 = ucast (signed_drop_bit 1 (promote src1 - promote src2))"

definition neon_hsub_s8 :: "u32 \<Rightarrow> u32 \<Rightarrow> u32" where
  "neon_hsub_s8 = NEON_VOP neon_unpack8 neon_pack8 (NEON_FN_hsub scast)"

definition neon_hsub_u8 :: "u32 \<Rightarrow> u32 \<Rightarrow> u32" where
  "neon_hsub_u8 = NEON_VOP neon_unpack8 neon_pack8 (NEON_FN_hsub ucast)"

definition neon_hsub_s16 :: "u32 \<Rightarrow> u32 \<Rightarrow> u32" where
  "neon_hsub_s16 = NEON_VOP neon_unpack16 neon_pack16 (NEON_FN_hsub scast)"

definition neon_hsub_u16 :: "u32 \<Rightarrow> u32 \<Rightarrow> u32" where
  "neon_hsub_u16 = NEON_VOP neon_unpack16 neon_pack16 (NEON_FN_hsub ucast)"

definition neon_hsub_s32 :: "u32 \<Rightarrow> u32 \<Rightarrow> u32" where
  "neon_hsub_s32 src1 src2 =
     (let dest = signed_drop_bit 1 src1 - signed_drop_bit 1 src2
      in if NOT src1 AND src2 AND 1 \<noteq> 0 then dest - 1 else dest)"

definition neon_hsub_u32 :: "u32 \<Rightarrow> u32 \<Rightarrow> u32" where
  "neon_hsub_u32 src1 src2 =
     (let dest = drop_bit 1 src1 - drop_bit 1 src2
      in if NOT src1 AND src2 AND 1 \<noteq> 0 then dest - 1 else dest)"

section \<open>Comparison, minimum, maximum, absolute difference\<close>

definition NEON_FN_cgt :: "('l::len word \<Rightarrow> int) \<Rightarrow> 'l word \<Rightarrow> 'l word \<Rightarrow> 'l word" where
  "NEON_FN_cgt val src1 src2 = (if val src1 > val src2 then NOT 0 else 0)"

definition NEON_FN_cge :: "('l::len word \<Rightarrow> int) \<Rightarrow> 'l word \<Rightarrow> 'l word \<Rightarrow> 'l word" where
  "NEON_FN_cge val src1 src2 = (if val src1 \<ge> val src2 then NOT 0 else 0)"

definition NEON_FN_min :: "('l::len word \<Rightarrow> int) \<Rightarrow> 'l word \<Rightarrow> 'l word \<Rightarrow> 'l word" where
  "NEON_FN_min val src1 src2 = (if val src1 < val src2 then src1 else src2)"

definition NEON_FN_max :: "('l::len word \<Rightarrow> int) \<Rightarrow> 'l word \<Rightarrow> 'l word \<Rightarrow> 'l word" where
  "NEON_FN_max val src1 src2 = (if val src1 > val src2 then src1 else src2)"

text \<open>The difference is stored in a lane, so only its low bits matter.\<close>

definition NEON_FN_abd :: "('l::len word \<Rightarrow> int) \<Rightarrow> 'l word \<Rightarrow> 'l word \<Rightarrow> 'l word" where
  "NEON_FN_abd val src1 src2 = (if val src1 > val src2 then src1 - src2 else src2 - src1)"

definition neon_cgt_s8 :: "u32 \<Rightarrow> u32 \<Rightarrow> u32" where
  "neon_cgt_s8 = NEON_VOP neon_unpack8 neon_pack8 (NEON_FN_cgt sint)"

definition neon_cgt_u8 :: "u32 \<Rightarrow> u32 \<Rightarrow> u32" where
  "neon_cgt_u8 = NEON_VOP neon_unpack8 neon_pack8 (NEON_FN_cgt uint)"

definition neon_cgt_s16 :: "u32 \<Rightarrow> u32 \<Rightarrow> u32" where
  "neon_cgt_s16 = NEON_VOP neon_unpack16 neon_pack16 (NEON_FN_cgt sint)"

definition neon_cgt_u16 :: "u32 \<Rightarrow> u32 \<Rightarrow> u32" where
  "neon_cgt_u16 = NEON_VOP neon_unpack16 neon_pack16 (NEON_FN_cgt uint)"

definition neon_cgt_s32 :: "u32 \<Rightarrow> u32 \<Rightarrow> u32" where
  "neon_cgt_s32 = NEON_VOP neon_unpack32 neon_pack32 (NEON_FN_cgt sint)"

definition neon_cgt_u32 :: "u32 \<Rightarrow> u32 \<Rightarrow> u32" where
  "neon_cgt_u32 = NEON_VOP neon_unpack32 neon_pack32 (NEON_FN_cgt uint)"

definition neon_cge_s8 :: "u32 \<Rightarrow> u32 \<Rightarrow> u32" where
  "neon_cge_s8 = NEON_VOP neon_unpack8 neon_pack8 (NEON_FN_cge sint)"

definition neon_cge_u8 :: "u32 \<Rightarrow> u32 \<Rightarrow> u32" where
  "neon_cge_u8 = NEON_VOP neon_unpack8 neon_pack8 (NEON_FN_cge uint)"

definition neon_cge_s16 :: "u32 \<Rightarrow> u32 \<Rightarrow> u32" where
  "neon_cge_s16 = NEON_VOP neon_unpack16 neon_pack16 (NEON_FN_cge sint)"

definition neon_cge_u16 :: "u32 \<Rightarrow> u32 \<Rightarrow> u32" where
  "neon_cge_u16 = NEON_VOP neon_unpack16 neon_pack16 (NEON_FN_cge uint)"

definition neon_cge_s32 :: "u32 \<Rightarrow> u32 \<Rightarrow> u32" where
  "neon_cge_s32 = NEON_VOP neon_unpack32 neon_pack32 (NEON_FN_cge sint)"

definition neon_cge_u32 :: "u32 \<Rightarrow> u32 \<Rightarrow> u32" where
  "neon_cge_u32 = NEON_VOP neon_unpack32 neon_pack32 (NEON_FN_cge uint)"

definition neon_min_s8 :: "u32 \<Rightarrow> u32 \<Rightarrow> u32" where
  "neon_min_s8 = NEON_VOP neon_unpack8 neon_pack8 (NEON_FN_min sint)"

definition neon_min_u8 :: "u32 \<Rightarrow> u32 \<Rightarrow> u32" where
  "neon_min_u8 = NEON_VOP neon_unpack8 neon_pack8 (NEON_FN_min uint)"

definition neon_min_s16 :: "u32 \<Rightarrow> u32 \<Rightarrow> u32" where
  "neon_min_s16 = NEON_VOP neon_unpack16 neon_pack16 (NEON_FN_min sint)"

definition neon_min_u16 :: "u32 \<Rightarrow> u32 \<Rightarrow> u32" where
  "neon_min_u16 = NEON_VOP neon_unpack16 neon_pack16 (NEON_FN_min uint)"

definition neon_min_s32 :: "u32 \<Rightarrow> u32 \<Rightarrow> u32" where
  "neon_min_s32 = NEON_VOP neon_unpack32 neon_pack32 (NEON_FN_min sint)"

definition neon_min_u32 :: "u32 \<Rightarrow> u32 \<Rightarrow> u32" where
  "neon_min_u32 = NEON_VOP neon_unpack32 neon_pack32 (NEON_FN_min uint)"

definition neon_pmin_s8 :: "u32 \<Rightarrow> u32 \<Rightarrow> u32" where
  "neon_pmin_s8 = NEON_POP neon_unpack8 neon_pack8 (NEON_FN_min sint)"

definition neon_pmin_u8 :: "u32 \<Rightarrow> u32 \<Rightarrow> u32" where
  "neon_pmin_u8 = NEON_POP neon_unpack8 neon_pack8 (NEON_FN_min uint)"

definition neon_pmin_s16 :: "u32 \<Rightarrow> u32 \<Rightarrow> u32" where
  "neon_pmin_s16 = NEON_POP neon_unpack16 neon_pack16 (NEON_FN_min sint)"

definition neon_pmin_u16 :: "u32 \<Rightarrow> u32 \<Rightarrow> u32" where
  "neon_pmin_u16 = NEON_POP neon_unpack16 neon_pack16 (NEON_FN_min uint)"

definition neon_max_s8 :: "u32 \<Rightarrow> u32 \<Rightarrow> u32" where
  "neon_max_s8 = NEON_VOP neon_unpack8 neon_pack8 (NEON_FN_max sint)"

definition neon_max_u8 :: "u32 \<Rightarrow> u32 \<Rightarrow> u32" where
  "neon_max_u8 = NEON_VOP neon_unpack8 neon_pack8 (NEON_FN_max uint)"

definition neon_max_s16 :: "u32 \<Rightarrow> u32 \<Rightarrow> u32" where
  "neon_max_s16 = NEON_VOP neon_unpack16 neon_pack16 (NEON_FN_max sint)"

definition neon_max_u16 :: "u32 \<Rightarrow> u32 \<Rightarrow> u32" where
  "neon_max_u16 = NEON_VOP neon_unpack16 neon_pack16 (NEON_FN_max uint)"

definition neon_max_s32 :: "u32 \<Rightarrow> u32 \<Rightarrow> u32" where
  "neon_max_s32 = NEON_VOP neon_unpack32 neon_pack32 (NEON_FN_max sint)"

definition neon_max_u32 :: "u32 \<Rightarrow> u32 \<Rightarrow> u32" where
  "neon_max_u32 = NEON_VOP neon_unpack32 neon_pack32 (NEON_FN_max uint)"

definition neon_pmax_s8 :: "u32 \<Rightarrow> u32 \<Rightarrow> u32" where
  "neon_pmax_s8 = NEON_POP neon_unpack8 neon_pack8 (NEON_FN_max sint)"

definition neon_pmax_u8 :: "u32 \<Rightarrow> u32 \<Rightarrow> u32" where
  "neon_pmax_u8 = NEON_POP neon_unpack8 neon_pack8 (NEON_FN_max uint)"

definition neon_pmax_s16 :: "u32 \<Rightarrow> u32 \<Rightarrow> u32" where
  "neon_pmax_s16 = NEON_POP neon_unpack16 neon_pack16 (NEON_FN_max sint)"

definition neon_pmax_u16 :: "u32 \<Rightarrow> u32 \<Rightarrow> u32" where
  "neon_pmax_u16 = NEON_POP neon_unpack16 neon_pack16 (NEON_FN_max uint)"

definition neon_abd_s8 :: "u32 \<Rightarrow> u32 \<Rightarrow> u32" where
  "neon_abd_s8 = NEON_VOP neon_unpack8 neon_pack8 (NEON_FN_abd sint)"

definition neon_abd_u8 :: "u32 \<Rightarrow> u32 \<Rightarrow> u32" where
  "neon_abd_u8 = NEON_VOP neon_unpack8 neon_pack8 (NEON_FN_abd uint)"

definition neon_abd_s16 :: "u32 \<Rightarrow> u32 \<Rightarrow> u32" where
  "neon_abd_s16 = NEON_VOP neon_unpack16 neon_pack16 (NEON_FN_abd sint)"

definition neon_abd_u16 :: "u32 \<Rightarrow> u32 \<Rightarrow> u32" where
  "neon_abd_u16 = NEON_VOP neon_unpack16 neon_pack16 (NEON_FN_abd uint)"

definition neon_abd_s32 :: "u32 \<Rightarrow> u32 \<Rightarrow> u32" where
  "neon_abd_s32 = NEON_VOP neon_unpack32 neon_pack32 (NEON_FN_abd sint)"

definition neon_abd_u32 :: "u32 \<Rightarrow> u32 \<Rightarrow> u32" where
  "neon_abd_u32 = NEON_VOP neon_unpack32 neon_pack32 (NEON_FN_abd uint)"

section \<open>Addition, subtraction, multiplication, tests\<close>

definition neon_add_u8 :: "u32 \<Rightarrow> u32 \<Rightarrow> u32" where
  "neon_add_u8 a b =
     (let mask = (a XOR b) AND 0x80808080;
          a = a AND NOT 0x80808080;
          b = b AND NOT 0x80808080
      in (a + b) XOR mask)"

definition neon_add_u16 :: "u32 \<Rightarrow> u32 \<Rightarrow> u32" where
  "neon_add_u16 a b =
     (let mask = (a XOR b) AND 0x80008000;
          a = a AND NOT 0x80008000;
          b = b AND NOT 0x80008000
      in (a + b) XOR mask)"

definition neon_padd_u8 :: "u32 \<Rightarrow> u32 \<Rightarrow> u32" where
  "neon_padd_u8 = NEON_POP neon_unpack8 neon_pack8 (\<lambda>src1 src2. src1 + src2)"

definition neon_padd_u16 :: "u32 \<Rightarrow> u32 \<Rightarrow> u32" where
  "neon_padd_u16 = NEON_POP neon_unpack16 neon_pack16 (\<lambda>src1 src2. src1 + src2)"

definition neon_sub_u8 :: "u32 \<Rightarrow> u32 \<Rightarrow> u32" where
  "neon_sub_u8 = NEON_VOP neon_unpack8 neon_pack8 (\<lambda>src1 src2. src1 - src2)"

definition neon_sub_u16 :: "u32 \<Rightarrow> u32 \<Rightarrow> u32" where
  "neon_sub_u16 = NEON_VOP neon_unpack16 neon_pack16 (\<lambda>src1 src2. src1 - src2)"

definition neon_mul_u8 :: "u32 \<Rightarrow> u32 \<Rightarrow> u32" where
  "neon_mul_u8 = NEON_VOP neon_unpack8 neon_pack8 (\<lambda>src1 src2. src1 * src2)"

definition neon_mul_u16 :: "u32 \<Rightarrow> u32 \<Rightarrow> u32" where
  "neon_mul_u16 = NEON_VOP neon_unpack16 neon_pack16 (\<lambda>src1 src2. src1 * src2)"

definition NEON_FN_tst :: "'l::len word \<Rightarrow> 'l word \<Rightarrow> 'l word" where
  "NEON_FN_tst src1 src2 = (if src1 AND src2 \<noteq> 0 then - 1 else 0)"

definition NEON_FN_ceq :: "'l::len word \<Rightarrow> 'l word \<Rightarrow> 'l word" where
  "NEON_FN_ceq src1 src2 = (if src1 = src2 then - 1 else 0)"

definition NEON_FN_abs :: "'l::len word \<Rightarrow> 'l word" where
  "NEON_FN_abs src = (if sint src < 0 then - src else src)"

definition neon_tst_u8 :: "u32 \<Rightarrow> u32 \<Rightarrow> u32" where
  "neon_tst_u8 = NEON_VOP neon_unpack8 neon_pack8 NEON_FN_tst"

definition neon_tst_u16 :: "u32 \<Rightarrow> u32 \<Rightarrow> u32" where
  "neon_tst_u16 = NEON_VOP neon_unpack16 neon_pack16 NEON_FN_tst"

definition neon_tst_u32 :: "u32 \<Rightarrow> u32 \<Rightarrow> u32" where
  "neon_tst_u32 = NEON_VOP neon_unpack32 neon_pack32 NEON_FN_tst"

definition neon_ceq_u8 :: "u32 \<Rightarrow> u32 \<Rightarrow> u32" where
  "neon_ceq_u8 = NEON_VOP neon_unpack8 neon_pack8 NEON_FN_ceq"

definition neon_ceq_u16 :: "u32 \<Rightarrow> u32 \<Rightarrow> u32" where
  "neon_ceq_u16 = NEON_VOP neon_unpack16 neon_pack16 NEON_FN_ceq"

definition neon_ceq_u32 :: "u32 \<Rightarrow> u32 \<Rightarrow> u32" where
  "neon_ceq_u32 = NEON_VOP neon_unpack32 neon_pack32 NEON_FN_ceq"

definition neon_abs_s8 :: "u32 \<Rightarrow> u32" where
  "neon_abs_s8 = NEON_VOP1 neon_unpack8 neon_pack8 NEON_FN_abs"

definition neon_abs_s16 :: "u32 \<Rightarrow> u32" where
  "neon_abs_s16 = NEON_VOP1 neon_unpack16 neon_pack16 NEON_FN_abs"

section \<open>Lane operations on their exact results\<close>

lemma signed_drop_bit_word_of_int: "signed_drop_bit n (w::'a::len word) = word_of_int (sint w div 2 ^ n)"
proof -
  have "sint (signed_drop_bit n w) = sint w div 2 ^ n"
    by (simp add: sint_signed_drop_bit_eq drop_bit_eq_div)
  moreover have "signed_drop_bit n w = word_of_int (sint (signed_drop_bit n w))" by simp
  ultimately show ?thesis by (simp only:)
qed

lemma drop_bit_word_of_int: "drop_bit n (w::'a::len word) = word_of_int (uint w div 2 ^ n)"
  by transfer (simp add: drop_bit_eq_div flip: take_bit_eq_mod)

lemma ucast_word_of_int_down:
  "LENGTH('l) \<le> LENGTH('r) \<Longrightarrow> (ucast (word_of_int k :: 'r::len word) :: 'l::len word) = word_of_int k"
  by transfer (simp add: min_absorb1)

lemma even_word: "even (sint x) \<longleftrightarrow> even x" "even (uint x) \<longleftrightarrow> even x" for x :: "'a::len word"
  using bit_0 [of x] bit_0 [of "sint x"] bit_0 [of "uint x"] by (simp_all add: bit_simps)

lemma and_1_odd: "x AND 1 \<noteq> 0 \<longleftrightarrow> odd x" for x :: "'a::len word"
  by (simp add: and_one_eq mod_2_eq_odd)

text \<open>A promotion is exact: the promoted word has the value of the lane, well inside \<^verbatim>\<open>int\<close>.\<close>

definition exact_promotion :: "('l::len word \<Rightarrow> u32) \<Rightarrow> ('l word \<Rightarrow> int) \<Rightarrow> bool" where
  "exact_promotion promote val \<longleftrightarrow>
     LENGTH('l) < 32 \<and> (\<forall>x. sint (promote x) = val x \<and> - 65536 \<le> val x \<and> val x < 65536)"

lemma exact_promotions:
  "exact_promotion (scast :: u8 \<Rightarrow> u32) sint" "exact_promotion (ucast :: u8 \<Rightarrow> u32) uint"
  "exact_promotion (scast :: u16 \<Rightarrow> u32) sint" "exact_promotion (ucast :: u16 \<Rightarrow> u32) uint"
  unfolding exact_promotion_def
  using sint_ranges(1,2) uint_ranges(1) sint_ranges(3,4) uint_ranges(2) uint_range(1)
  by (simp_all add: sint_up_scast is_up sint_ucast_up) (smt (verit) uint_range(1) sint_ranges uint_ranges)+

lemma FN_hadd_exact:
  assumes "exact_promotion promote val"
  shows "NEON_FN_hadd promote x y = word_of_int ((val x + val y) div 2)"
    and "NEON_FN_rhadd promote x y = word_of_int ((val x + val y + 1) div 2)"
    and "NEON_FN_hsub promote x y = word_of_int ((val x - val y) div 2)"
proof -
  have p: "LENGTH('a) < 32" "sint (promote z) = val z" "- 65536 \<le> val z" "val z < 65536" for z
    using assms by (auto simp: exact_promotion_def)
  have "sint (promote x + promote y) = val x + val y"
    using p(3,4) [of x] p(3,4) [of y] by (subst sint_add_exact) (simp_all add: p(2))
  moreover have "sint (promote x - promote y) = val x - val y"
    using p(3,4) [of x] p(3,4) [of y] by (subst sint_diff_exact) (simp_all add: p(2))
  moreover have "sint (promote x + promote y + 1) = val x + val y + 1"
    using p(3,4) [of x] p(3,4) [of y] by (subst sint_add_exact) (simp_all add: calculation)
  ultimately show "NEON_FN_hadd promote x y = word_of_int ((val x + val y) div 2)"
    "NEON_FN_rhadd promote x y = word_of_int ((val x + val y + 1) div 2)"
    "NEON_FN_hsub promote x y = word_of_int ((val x - val y) div 2)"
    using p(1) by (simp_all add: NEON_FN_hadd_def NEON_FN_rhadd_def NEON_FN_hsub_def
      signed_drop_bit_word_of_int ucast_word_of_int_down)
qed

lemma halving_split:
  "(a + b) div 2 = a div 2 + b div 2 + (if odd a \<and> odd b then 1 else 0)"
  "(a + b + 1) div 2 = a div 2 + b div 2 + (if odd a \<or> odd b then 1 else 0)"
  "(a - b) div 2 = a div 2 - b div 2 - (if even a \<and> odd b then 1 else 0)" for a b :: int
  by presburger+

lemma halving32:
  "neon_hadd_s32 a b = word_of_int ((sint a + sint b) div 2)"
  "neon_hadd_u32 a b = word_of_int ((uint a + uint b) div 2)"
  "neon_rhadd_s32 a b = word_of_int ((sint a + sint b + 1) div 2)"
  "neon_rhadd_u32 a b = word_of_int ((uint a + uint b + 1) div 2)"
  "neon_hsub_s32 a b = word_of_int ((sint a - sint b) div 2)"
  "neon_hsub_u32 a b = word_of_int ((uint a - uint b) div 2)"
  unfolding neon_hadd_s32_def neon_hadd_u32_def neon_rhadd_s32_def neon_rhadd_u32_def
    neon_hsub_s32_def neon_hsub_u32_def Let_def signed_drop_bit_word_of_int drop_bit_word_of_int
    halving_split and.assoc [symmetric] and_1_odd even_and_iff even_or_iff even_not_iff
  by (simp_all add: even_word)

section \<open>Addition of packed lanes in one word\<close>

text \<open>
  \<^verbatim>\<open>neon_add_u8\<close> and \<^verbatim>\<open>neon_add_u16\<close> add all lanes with one 32-bit addition: with the top bit of
  every lane cleared no carry leaves a lane, and the top bits are added with an exclusive or.
\<close>

definition top_bit :: "'l::len word" where
  "top_bit = 2 ^ (LENGTH('l) - 1)"

lemma bit_top_bit [simp]: "bit (top_bit :: 'l::len word) n \<longleftrightarrow> n = LENGTH('l) - 1"
  by (auto simp: top_bit_def bit_simps)

lemma top_bit_double: "(top_bit :: 'l::len word) + top_bit = 0"
proof -
  have "(2 ^ (LENGTH('l) - 1) :: 'l word) + 2 ^ (LENGTH('l) - 1) = 2 ^ Suc (LENGTH('l) - 1)"
    by (simp only: power_Suc mult_2)
  then show ?thesis by (simp add: top_bit_def)
qed

lemma split_top: "x = (x AND NOT top_bit) + (x AND top_bit)"
  by (subst disjunctive_add) (auto simp: bit_simps intro: bit_word_eqI)

lemma and_top: "x AND top_bit = (if bit x (LENGTH('l) - 1) then top_bit else 0 :: 'l::len word)"
  by (rule bit_word_eqI) (auto simp: bit_simps)

lemma add_top: "w + top_bit = w XOR top_bit" for w :: "'l::len word"
proof (cases "bit w (LENGTH('l) - 1)")
  case True
  then have "w = (w AND NOT top_bit) + top_bit" using split_top [of w] by (simp add: and_top)
  then have "w + top_bit = (w AND NOT top_bit) + (top_bit + top_bit)" by (metis add.assoc)
  also have "\<dots> = w XOR top_bit"
    unfolding top_bit_double by (rule bit_word_eqI) (use True in \<open>auto simp: bit_simps\<close>)
  finally show ?thesis .
next
  case False
  then have "w + top_bit = w OR top_bit" by (intro disjunctive_add) auto
  also have "\<dots> = w XOR top_bit"
    by (rule bit_word_eqI) (use False in \<open>auto simp: bit_simps\<close>)
  finally show ?thesis .
qed

lemma add_top_xor: "w + (x AND top_bit) = w XOR (x AND top_bit)"
  by (simp add: and_top add_top)

lemma swar_lane: "((x AND NOT top_bit) + (y AND NOT top_bit)) XOR ((x XOR y) AND top_bit) = x + y"
proof -
  have "x + y = ((x AND NOT top_bit) + (y AND NOT top_bit)) + (x AND top_bit) + (y AND top_bit)"
    using split_top [of x] split_top [of y] by (metis add.assoc add.commute)
  also have "\<dots> = (((x AND NOT top_bit) + (y AND NOT top_bit)) XOR (x AND top_bit)) XOR (y AND top_bit)"
    by (simp only: add_top_xor)
  finally show ?thesis
    by (simp add: xor.assoc and.semilattice_axioms bit.conj_xor_distrib2)
qed

lemma pack8_sum:
  "neon_pack8 [a, b, c, d] = ucast a + 2 ^ 8 * ucast b + 2 ^ 16 * ucast c + 2 ^ 24 * ucast d"
proof -
  have "neon_pack8 [a, b, c, d] =
      ((ucast a OR push_bit 8 (ucast b)) OR push_bit 16 (ucast c)) OR push_bit 24 (ucast d)"
    by (simp add: neon_pack8_def or.assoc numeral_eq_Suc)
  also have "\<dots> = ((ucast a + push_bit 8 (ucast b)) + push_bit 16 (ucast c)) + push_bit 24 (ucast d)"
    by (subst disjunctive_add, force simp: bit_simps dest: bit_imp_le_length)+ simp
  finally show ?thesis by (simp add: push_bit_eq_mult mult.commute)
qed

lemma pack16_sum: "neon_pack16 [a, b] = ucast a + 2 ^ 16 * ucast b"
proof -
  have "neon_pack16 [a, b] = ucast a + push_bit 16 (ucast b)"
    unfolding neon_pack16_def by (subst disjunctive_add) (auto simp: bit_simps dest: bit_imp_le_length)
  then show ?thesis by (simp add: push_bit_eq_mult mult.commute)
qed

lemma ucast_add_nocarry:
  "uint x + uint y < 2 ^ LENGTH('l) \<Longrightarrow> LENGTH('l) \<le> LENGTH('r) \<Longrightarrow>
    (ucast (x + y :: 'l::len word) :: 'r::len word) = ucast x + ucast y"
  by (simp only: ucast_eq_word_of_int uint_plus_if' if_True of_int_add)

lemma uint_and_not_top: "uint (x AND NOT top_bit :: 'l::len word) < 2 ^ (LENGTH('l) - 1)"
proof -
  have "x AND NOT top_bit = take_bit (LENGTH('l) - 1) x"
    by (rule bit_word_eqI) (auto simp: bit_simps)
  then have "uint (x AND NOT top_bit) = take_bit (LENGTH('l) - 1) (uint x)"
    by (simp only: unsigned_take_bit_eq)
  then show ?thesis by simp
qed

lemma nocarry_lane: "uint (x AND NOT top_bit) + uint (y AND NOT top_bit) < 2 ^ LENGTH('l)"
  for x y :: "'l::len word"
proof -
  have "(2::int) ^ LENGTH('l) = 2 ^ (LENGTH('l) - 1) + 2 ^ (LENGTH('l) - 1)"
    using power_Suc [of "2::int" "LENGTH('l) - 1"] by (simp only: Suc_diff_1 len_gt_0 mult_2)
  then show ?thesis using uint_and_not_top [of x] uint_and_not_top [of y] by linarith
qed

lemma unpack8_bitwise:
  "neon_unpack8 (a AND b) = map2 (AND) (neon_unpack8 a) (neon_unpack8 b)"
  "neon_unpack8 (a XOR b) = map2 (XOR) (neon_unpack8 a) (neon_unpack8 b)"
  "neon_unpack8 (NOT a) = map NOT (neon_unpack8 a)"
proof -
  have "(ucast (drop_bit n (NOT a)) :: u8) = NOT (ucast (drop_bit n a))" if "n \<le> 24" for n
    by (rule bit_word_eqI) (use that in \<open>auto simp: bit_simps\<close>)
  then show "neon_unpack8 (NOT a) = map NOT (neon_unpack8 a)"
    by (simp add: neon_unpack8_def ucast_not_down)
qed (simp_all add: neon_unpack8_def ucast_and ucast_xor drop_bit_and drop_bit_xor)

lemma unpack16_bitwise:
  "neon_unpack16 (a AND b) = map2 (AND) (neon_unpack16 a) (neon_unpack16 b)"
  "neon_unpack16 (a XOR b) = map2 (XOR) (neon_unpack16 a) (neon_unpack16 b)"
  "neon_unpack16 (NOT a) = map NOT (neon_unpack16 a)"
proof -
  have "(ucast (drop_bit n (NOT a)) :: u16) = NOT (ucast (drop_bit n a))" if "n \<le> 16" for n
    by (rule bit_word_eqI) (use that in \<open>auto simp: bit_simps\<close>)
  then show "neon_unpack16 (NOT a) = map NOT (neon_unpack16 a)"
    by (simp add: neon_unpack16_def ucast_not_down)
qed (simp_all add: neon_unpack16_def ucast_and ucast_xor drop_bit_and drop_bit_xor)

lemma unpack8_add_nocarry:
  assumes "neon_unpack8 a = [a0, a1, a2, a3]" "neon_unpack8 b = [b0, b1, b2, b3]"
    and "uint a0 + uint b0 < 256" "uint a1 + uint b1 < 256" "uint a2 + uint b2 < 256" "uint a3 + uint b3 < 256"
  shows "neon_unpack8 (a + b) = [a0 + b0, a1 + b1, a2 + b2, a3 + b3]"
proof -
  have "a + b = neon_pack8 [a0, a1, a2, a3] + neon_pack8 [b0, b1, b2, b3]"
    using l8.pack_unpack [of a] l8.pack_unpack [of b] assms(1,2) by simp
  also have "\<dots> = neon_pack8 [a0 + b0, a1 + b1, a2 + b2, a3 + b3]"
    using assms(3-) by (simp add: pack8_sum ucast_add_nocarry algebra_simps)
  finally show ?thesis by simp
qed

lemma unpack16_add_nocarry:
  assumes "neon_unpack16 a = [a0, a1]" "neon_unpack16 b = [b0, b1]"
    and "uint a0 + uint b0 < 65536" "uint a1 + uint b1 < 65536"
  shows "neon_unpack16 (a + b) = [a0 + b0, a1 + b1]"
proof -
  have "a + b = neon_pack16 [a0, a1] + neon_pack16 [b0, b1]"
    using l16.pack_unpack [of a] l16.pack_unpack [of b] assms(1,2) by simp
  also have "\<dots> = neon_pack16 [a0 + b0, a1 + b1]"
    using assms(3-) by (simp add: pack16_sum ucast_add_nocarry algebra_simps)
  finally show ?thesis by simp
qed

lemma neon_add_u8_lanes: "neon_add_u8 a b = NEON_VOP neon_unpack8 neon_pack8 (+) a b"
proof -
  obtain a0 a1 a2 a3 b0 b1 b2 b3 where
    l: "neon_unpack8 a = [a0, a1, a2, a3]" "neon_unpack8 b = [b0, b1, b2, b3]"
    unfolding neon_unpack8_def by blast
  have t: "neon_unpack8 0x80808080 = [top_bit, top_bit, top_bit, top_bit]"
    by (simp add: neon_unpack8_def top_bit_def)
  have m: "neon_unpack8 (a AND NOT 0x80808080) = [a0 AND NOT top_bit, a1 AND NOT top_bit, a2 AND NOT top_bit, a3 AND NOT top_bit]"
    "neon_unpack8 (b AND NOT 0x80808080) = [b0 AND NOT top_bit, b1 AND NOT top_bit, b2 AND NOT top_bit, b3 AND NOT top_bit]"
    by (simp_all only: unpack8_bitwise l t list.map zip_Cons_Cons zip_Nil prod.case)
  have "neon_unpack8 (neon_add_u8 a b) = [a0 + b0, a1 + b1, a2 + b2, a3 + b3]"
    unfolding neon_add_u8_def Let_def unpack8_bitwise l t
      unpack8_add_nocarry [OF m nocarry_lane [where 'l = 8, simplified] nocarry_lane [where 'l = 8, simplified]
        nocarry_lane [where 'l = 8, simplified] nocarry_lane [where 'l = 8, simplified]]
    by (simp only: list.map zip_Cons_Cons zip_Nil prod.case swar_lane)
  also have "\<dots> = neon_unpack8 (NEON_VOP neon_unpack8 neon_pack8 (+) a b)"
    by (simp add: l8.unpack_VOP l)
  finally show ?thesis by (simp only: l8.unpack_inject)
qed

lemma neon_add_u16_lanes: "neon_add_u16 a b = NEON_VOP neon_unpack16 neon_pack16 (+) a b"
proof -
  obtain a0 a1 b0 b1 where l: "neon_unpack16 a = [a0, a1]" "neon_unpack16 b = [b0, b1]"
    unfolding neon_unpack16_def by blast
  have t: "neon_unpack16 0x80008000 = [top_bit, top_bit]"
    by (simp add: neon_unpack16_def top_bit_def)
  have m: "neon_unpack16 (a AND NOT 0x80008000) = [a0 AND NOT top_bit, a1 AND NOT top_bit]"
    "neon_unpack16 (b AND NOT 0x80008000) = [b0 AND NOT top_bit, b1 AND NOT top_bit]"
    by (simp_all only: unpack16_bitwise l t list.map zip_Cons_Cons zip_Nil prod.case)
  have "neon_unpack16 (neon_add_u16 a b) = [a0 + b0, a1 + b1]"
    unfolding neon_add_u16_def Let_def unpack16_bitwise l t
      unpack16_add_nocarry [OF m nocarry_lane [where 'l = 16, simplified] nocarry_lane [where 'l = 16, simplified]]
    by (simp only: list.map zip_Cons_Cons zip_Nil prod.case swar_lane)
  also have "\<dots> = neon_unpack16 (NEON_VOP neon_unpack16 neon_pack16 (+) a b)"
    by (simp add: l16.unpack_VOP l)
  finally show ?thesis by (simp only: l16.unpack_inject)
qed

section \<open>Comparison and selection\<close>

lemma abs_diff_less:
  "\<bar>uint x - uint y\<bar> < 2 ^ LENGTH('i)" "\<bar>sint x - sint y\<bar> < 2 ^ LENGTH('i)" for x y :: "'i::len word"
proof -
  have "(2::int) ^ LENGTH('i) = 2 ^ (LENGTH('i) - 1) + 2 ^ (LENGTH('i) - 1)"
    using power_Suc [of "2::int" "LENGTH('i) - 1"] by (simp only: Suc_diff_1 len_gt_0 mult_2)
  then show "\<bar>uint x - uint y\<bar> < 2 ^ LENGTH('i)" "\<bar>sint x - sint y\<bar> < 2 ^ LENGTH('i)"
    using uint_range [of x] uint_range [of y] sint_range [of x] sint_range [of y] by linarith+
qed

lemma FN_abd_exact:
  "NEON_FN_abd sint x y = word_of_int \<bar>sint x - sint y\<bar>" "NEON_FN_abd uint x y = word_of_int \<bar>uint x - uint y\<bar>"
  by (auto simp: NEON_FN_abd_def abs_if) (metis word_eq_iff_sint, metis word_uint_eqI)

lemma FN_abd_value:
  "uint (NEON_FN_abd sint x y) = \<bar>sint x - sint y\<bar>" "uint (NEON_FN_abd uint x y) = \<bar>uint x - uint y\<bar>"
  unfolding FN_abd_exact using abs_diff_less [of x y] by (simp_all add: uint_word_of_int)

lemma FN_compare_eq:
  "NEON_FN_cgt v x y = (if v x > v y then - 1 else 0)" "NEON_FN_cge v x y = (if v x \<ge> v y then - 1 else 0)"
  "NEON_FN_max v x y = (if v x > v y then x else y)" "NEON_FN_min v x y = (if v x < v y then x else y)"
  "NEON_FN_tst x y = (if x AND y \<noteq> 0 then - 1 else 0)" "NEON_FN_ceq x y = (if x = y then - 1 else 0)"
  by (simp_all add: NEON_FN_cgt_def NEON_FN_cge_def NEON_FN_max_def NEON_FN_min_def NEON_FN_tst_def NEON_FN_ceq_def)

text \<open>The comparison masks of a whole word, for lanes read by \<open>v\<close>, in any layout.\<close>

context neon_word_layout
begin

lemma compare_bit:
  "bit (NEON_VOP unpack pack (NEON_FN_cgt v) a b) k \<longleftrightarrow>
    k < LENGTH('c) \<and> v (unpack a ! (k div LENGTH('l))) > v (unpack b ! (k div LENGTH('l)))"
  by (rule bit_mask_VOP [OF FN_compare_eq(1)])

lemma compare_select:
  "(NEON_VOP unpack pack (NEON_FN_cgt v) a b AND a) OR (NOT (NEON_VOP unpack pack (NEON_FN_cgt v) a b) AND b) =
    NEON_VOP unpack pack (NEON_FN_max v) a b"
  "(NEON_VOP unpack pack (NEON_FN_cgt v) b a AND a) OR (NOT (NEON_VOP unpack pack (NEON_FN_cgt v) b a) AND b) =
    NEON_VOP unpack pack (NEON_FN_min v) a b"
  by (rule select_VOP(1) [OF FN_compare_eq(1,3)], rule select_VOP(2) [OF FN_compare_eq(1,4)])

lemma compare_laws:
  "NEON_VOP unpack pack (NEON_FN_cge v) a b = NOT (NEON_VOP unpack pack (NEON_FN_cgt v) b a)"
  "NEON_VOP unpack pack NEON_FN_tst a b = NOT (NEON_VOP unpack pack NEON_FN_ceq (a AND b) 0)"
  "inj v \<Longrightarrow> NEON_VOP unpack pack NEON_FN_ceq a b =
    NEON_VOP unpack pack (NEON_FN_cge v) a b AND NEON_VOP unpack pack (NEON_FN_cge v) b a"
  by (rule lanes_eqI; auto simp: FN_compare_eq lane_VOP lane_bitwise inj_eq)+

end

lemmas compare_masks8 = w8.compare_bit [simplified] w8.compare_select w8.compare_laws
lemmas compare_masks16 = w16.compare_bit [simplified] w16.compare_select w16.compare_laws
lemmas compare_masks32 = w32.compare_bit [simplified] w32.compare_select w32.compare_laws

lemma inj_values: "inj (sint :: 'a::len word \<Rightarrow> int)" "inj (uint :: 'a::len word \<Rightarrow> int)"
  by (simp add: inj_def word_eq_iff_sint) (simp add: inj_def word_uint_eq_iff)

lemma FN_select_exact:
  "sint (NEON_FN_min sint x y) = min (sint x) (sint y)" "uint (NEON_FN_min uint x y) = min (uint x) (uint y)"
  "sint (NEON_FN_max sint x y) = max (sint x) (sint y)" "uint (NEON_FN_max uint x y) = max (uint x) (uint y)"
  by (auto simp: NEON_FN_min_def NEON_FN_max_def)

lemma FN_abs_exact: "NEON_FN_abs x = word_of_int \<bar>sint x\<bar>"
  by (simp add: NEON_FN_abs_def abs_if)

lemmas neon_minmax_defs =
  neon_min_s8_def neon_min_u8_def neon_min_s16_def neon_min_u16_def neon_min_s32_def neon_min_u32_def neon_max_s8_def neon_max_u8_def neon_max_s16_def neon_max_u16_def neon_max_s32_def neon_max_u32_def
  neon_pmin_s8_def neon_pmin_u8_def neon_pmin_s16_def neon_pmin_u16_def neon_pmax_s8_def neon_pmax_u8_def neon_pmax_s16_def neon_pmax_u16_def
  neon_abd_s8_def neon_abd_u8_def neon_abd_s16_def neon_abd_u16_def neon_abd_s32_def neon_abd_u32_def

lemmas neon_compare_defs =
  neon_cgt_s8_def neon_cgt_u8_def neon_cgt_s16_def neon_cgt_u16_def neon_cgt_s32_def neon_cgt_u32_def
  neon_cge_s8_def neon_cge_u8_def neon_cge_s16_def neon_cge_u16_def neon_cge_s32_def neon_cge_u32_def
  neon_tst_u8_def neon_tst_u16_def neon_tst_u32_def neon_ceq_u8_def neon_ceq_u16_def neon_ceq_u32_def

section \<open>Properties\<close>

text \<open>
  C7. Halving addition, rounding halving addition and halving subtraction compute the floor of
  half the exact sum, sum plus one and difference of the lanes: the 8 and 16 bit macros
  because the promotion to \<^verbatim>\<open>int\<close> leaves room for the carry, the 32 bit functions because they
  halve first and repair the lost carry or borrow from the low bits.
\<close>

theorem neon_halving_correct:
  "neon_hadd_s8 = NEON_VOP neon_unpack8 neon_pack8 (\<lambda>x y. word_of_int ((sint x + sint y) div 2)) \<and>
   neon_hadd_u8 = NEON_VOP neon_unpack8 neon_pack8 (\<lambda>x y. word_of_int ((uint x + uint y) div 2)) \<and>
   neon_hadd_s16 = NEON_VOP neon_unpack16 neon_pack16 (\<lambda>x y. word_of_int ((sint x + sint y) div 2)) \<and>
   neon_hadd_u16 = NEON_VOP neon_unpack16 neon_pack16 (\<lambda>x y. word_of_int ((uint x + uint y) div 2)) \<and>
   neon_hadd_s32 a b = word_of_int ((sint a + sint b) div 2) \<and>
   neon_hadd_u32 a b = word_of_int ((uint a + uint b) div 2) \<and>
   neon_rhadd_s8 = NEON_VOP neon_unpack8 neon_pack8 (\<lambda>x y. word_of_int ((sint x + sint y + 1) div 2)) \<and>
   neon_rhadd_u8 = NEON_VOP neon_unpack8 neon_pack8 (\<lambda>x y. word_of_int ((uint x + uint y + 1) div 2)) \<and>
   neon_rhadd_s16 = NEON_VOP neon_unpack16 neon_pack16 (\<lambda>x y. word_of_int ((sint x + sint y + 1) div 2)) \<and>
   neon_rhadd_u16 = NEON_VOP neon_unpack16 neon_pack16 (\<lambda>x y. word_of_int ((uint x + uint y + 1) div 2)) \<and>
   neon_rhadd_s32 a b = word_of_int ((sint a + sint b + 1) div 2) \<and>
   neon_rhadd_u32 a b = word_of_int ((uint a + uint b + 1) div 2) \<and>
   neon_hsub_s8 = NEON_VOP neon_unpack8 neon_pack8 (\<lambda>x y. word_of_int ((sint x - sint y) div 2)) \<and>
   neon_hsub_u8 = NEON_VOP neon_unpack8 neon_pack8 (\<lambda>x y. word_of_int ((uint x - uint y) div 2)) \<and>
   neon_hsub_s16 = NEON_VOP neon_unpack16 neon_pack16 (\<lambda>x y. word_of_int ((sint x - sint y) div 2)) \<and>
   neon_hsub_u16 = NEON_VOP neon_unpack16 neon_pack16 (\<lambda>x y. word_of_int ((uint x - uint y) div 2)) \<and>
   neon_hsub_s32 a b = word_of_int ((sint a - sint b) div 2) \<and>
   neon_hsub_u32 a b = word_of_int ((uint a - uint b) div 2)"
  unfolding neon_hadd_s8_def neon_hadd_u8_def neon_hadd_s16_def neon_hadd_u16_def
    neon_rhadd_s8_def neon_rhadd_u8_def neon_rhadd_s16_def neon_rhadd_u16_def
    neon_hsub_s8_def neon_hsub_u8_def neon_hsub_s16_def neon_hsub_u16_def
    FN_hadd_exact [OF exact_promotions(1), abs_def] FN_hadd_exact [OF exact_promotions(2), abs_def]
    FN_hadd_exact [OF exact_promotions(3), abs_def] FN_hadd_exact [OF exact_promotions(4), abs_def] halving32
  by (intro conjI refl)

text \<open>
  C8. Minimum and maximum, lane by lane and over adjacent pairs, are the minimum and maximum
  of the signed or unsigned values of the lanes; the pairwise results of the first operand
  precede those of the second. The absolute difference is the distance of the values of the lanes, which always fits the unsigned lane.
\<close>

theorem neon_minmax_correct:
  "map sint (neon_unpack8 (neon_min_s8 a b)) = map2 min (map sint (neon_unpack8 a)) (map sint (neon_unpack8 b)) \<and>
   map uint (neon_unpack8 (neon_min_u8 a b)) = map2 min (map uint (neon_unpack8 a)) (map uint (neon_unpack8 b)) \<and>
   map sint (neon_unpack16 (neon_min_s16 a b)) = map2 min (map sint (neon_unpack16 a)) (map sint (neon_unpack16 b)) \<and>
   map uint (neon_unpack16 (neon_min_u16 a b)) = map2 min (map uint (neon_unpack16 a)) (map uint (neon_unpack16 b)) \<and>
   map sint (neon_unpack32 (neon_min_s32 a b)) = map2 min (map sint (neon_unpack32 a)) (map sint (neon_unpack32 b)) \<and>
   map uint (neon_unpack32 (neon_min_u32 a b)) = map2 min (map uint (neon_unpack32 a)) (map uint (neon_unpack32 b)) \<and>
   map sint (neon_unpack8 (neon_pmin_s8 a b)) = neon_pairs min (map sint (neon_unpack8 a)) @ neon_pairs min (map sint (neon_unpack8 b)) \<and>
   map uint (neon_unpack8 (neon_pmin_u8 a b)) = neon_pairs min (map uint (neon_unpack8 a)) @ neon_pairs min (map uint (neon_unpack8 b)) \<and>
   map sint (neon_unpack16 (neon_pmin_s16 a b)) = neon_pairs min (map sint (neon_unpack16 a)) @ neon_pairs min (map sint (neon_unpack16 b)) \<and>
   map uint (neon_unpack16 (neon_pmin_u16 a b)) = neon_pairs min (map uint (neon_unpack16 a)) @ neon_pairs min (map uint (neon_unpack16 b)) \<and>
   map sint (neon_unpack8 (neon_max_s8 a b)) = map2 max (map sint (neon_unpack8 a)) (map sint (neon_unpack8 b)) \<and>
   map uint (neon_unpack8 (neon_max_u8 a b)) = map2 max (map uint (neon_unpack8 a)) (map uint (neon_unpack8 b)) \<and>
   map sint (neon_unpack16 (neon_max_s16 a b)) = map2 max (map sint (neon_unpack16 a)) (map sint (neon_unpack16 b)) \<and>
   map uint (neon_unpack16 (neon_max_u16 a b)) = map2 max (map uint (neon_unpack16 a)) (map uint (neon_unpack16 b)) \<and>
   map sint (neon_unpack32 (neon_max_s32 a b)) = map2 max (map sint (neon_unpack32 a)) (map sint (neon_unpack32 b)) \<and>
   map uint (neon_unpack32 (neon_max_u32 a b)) = map2 max (map uint (neon_unpack32 a)) (map uint (neon_unpack32 b)) \<and>
   map sint (neon_unpack8 (neon_pmax_s8 a b)) = neon_pairs max (map sint (neon_unpack8 a)) @ neon_pairs max (map sint (neon_unpack8 b)) \<and>
   map uint (neon_unpack8 (neon_pmax_u8 a b)) = neon_pairs max (map uint (neon_unpack8 a)) @ neon_pairs max (map uint (neon_unpack8 b)) \<and>
   map sint (neon_unpack16 (neon_pmax_s16 a b)) = neon_pairs max (map sint (neon_unpack16 a)) @ neon_pairs max (map sint (neon_unpack16 b)) \<and>
   map uint (neon_unpack16 (neon_pmax_u16 a b)) = neon_pairs max (map uint (neon_unpack16 a)) @ neon_pairs max (map uint (neon_unpack16 b)) \<and>
   map uint (neon_unpack8 (neon_abd_s8 a b)) = map2 (\<lambda>x y. \<bar>x - y\<bar>) (map sint (neon_unpack8 a)) (map sint (neon_unpack8 b)) \<and>
   map uint (neon_unpack8 (neon_abd_u8 a b)) = map2 (\<lambda>x y. \<bar>x - y\<bar>) (map uint (neon_unpack8 a)) (map uint (neon_unpack8 b)) \<and>
   map uint (neon_unpack16 (neon_abd_s16 a b)) = map2 (\<lambda>x y. \<bar>x - y\<bar>) (map sint (neon_unpack16 a)) (map sint (neon_unpack16 b)) \<and>
   map uint (neon_unpack16 (neon_abd_u16 a b)) = map2 (\<lambda>x y. \<bar>x - y\<bar>) (map uint (neon_unpack16 a)) (map uint (neon_unpack16 b)) \<and>
   map uint (neon_unpack32 (neon_abd_s32 a b)) = map2 (\<lambda>x y. \<bar>x - y\<bar>) (map sint (neon_unpack32 a)) (map sint (neon_unpack32 b)) \<and>
   map uint (neon_unpack32 (neon_abd_u32 a b)) = map2 (\<lambda>x y. \<bar>x - y\<bar>) (map uint (neon_unpack32 a)) (map uint (neon_unpack32 b))"
  unfolding neon_minmax_defs
  by (intro conjI l8.VOP_hom l16.VOP_hom l32.VOP_hom l8.POP_hom l16.POP_hom FN_select_exact
    l8.VOP_values l16.VOP_values l32.VOP_values FN_abd_value) simp_all

text \<open>
  C9. The comparisons make masks of whole words: bit \<open>k\<close> of a comparison is set exactly when the relation holds between the values of the
  lanes that contain bit \<open>k\<close>. Greater-or-equal is the complement of the converse comparison, equality is greater-or-equal in
  both directions (signed or unsigned), and a bit test is the complement of comparing the conjunction with zero. Selecting
  with a mask, as the bitwise-select instruction does, picks the maximum or the minimum of each pair of lanes: \<open>(mask AND a) OR (NOT mask AND b)\<close> is what
  the maximum and minimum helpers compute.
\<close>

theorem neon_compare_correct:
  "(bit (neon_cgt_s8 a b) k \<longleftrightarrow> k < 32 \<and> sint (neon_unpack8 a ! (k div 8)) > sint (neon_unpack8 b ! (k div 8))) \<and>
   neon_cge_s8 a b = NOT (neon_cgt_s8 b a) \<and>
   neon_ceq_u8 a b = neon_cge_s8 a b AND neon_cge_s8 b a \<and>
   (neon_cgt_s8 a b AND a) OR (NOT (neon_cgt_s8 a b) AND b) = neon_max_s8 a b \<and>
   (neon_cgt_s8 b a AND a) OR (NOT (neon_cgt_s8 b a) AND b) = neon_min_s8 a b \<and>
   (bit (neon_cgt_u8 a b) k \<longleftrightarrow> k < 32 \<and> uint (neon_unpack8 a ! (k div 8)) > uint (neon_unpack8 b ! (k div 8))) \<and>
   neon_cge_u8 a b = NOT (neon_cgt_u8 b a) \<and>
   neon_ceq_u8 a b = neon_cge_u8 a b AND neon_cge_u8 b a \<and>
   (neon_cgt_u8 a b AND a) OR (NOT (neon_cgt_u8 a b) AND b) = neon_max_u8 a b \<and>
   (neon_cgt_u8 b a AND a) OR (NOT (neon_cgt_u8 b a) AND b) = neon_min_u8 a b \<and>
   neon_tst_u8 a b = NOT (neon_ceq_u8 (a AND b) 0) \<and>
   (bit (neon_cgt_s16 a b) k \<longleftrightarrow> k < 32 \<and> sint (neon_unpack16 a ! (k div 16)) > sint (neon_unpack16 b ! (k div 16))) \<and>
   neon_cge_s16 a b = NOT (neon_cgt_s16 b a) \<and>
   neon_ceq_u16 a b = neon_cge_s16 a b AND neon_cge_s16 b a \<and>
   (neon_cgt_s16 a b AND a) OR (NOT (neon_cgt_s16 a b) AND b) = neon_max_s16 a b \<and>
   (neon_cgt_s16 b a AND a) OR (NOT (neon_cgt_s16 b a) AND b) = neon_min_s16 a b \<and>
   (bit (neon_cgt_u16 a b) k \<longleftrightarrow> k < 32 \<and> uint (neon_unpack16 a ! (k div 16)) > uint (neon_unpack16 b ! (k div 16))) \<and>
   neon_cge_u16 a b = NOT (neon_cgt_u16 b a) \<and>
   neon_ceq_u16 a b = neon_cge_u16 a b AND neon_cge_u16 b a \<and>
   (neon_cgt_u16 a b AND a) OR (NOT (neon_cgt_u16 a b) AND b) = neon_max_u16 a b \<and>
   (neon_cgt_u16 b a AND a) OR (NOT (neon_cgt_u16 b a) AND b) = neon_min_u16 a b \<and>
   neon_tst_u16 a b = NOT (neon_ceq_u16 (a AND b) 0) \<and>
   (bit (neon_cgt_s32 a b) k \<longleftrightarrow> k < 32 \<and> sint (neon_unpack32 a ! (k div 32)) > sint (neon_unpack32 b ! (k div 32))) \<and>
   neon_cge_s32 a b = NOT (neon_cgt_s32 b a) \<and>
   neon_ceq_u32 a b = neon_cge_s32 a b AND neon_cge_s32 b a \<and>
   (neon_cgt_s32 a b AND a) OR (NOT (neon_cgt_s32 a b) AND b) = neon_max_s32 a b \<and>
   (neon_cgt_s32 b a AND a) OR (NOT (neon_cgt_s32 b a) AND b) = neon_min_s32 a b \<and>
   (bit (neon_cgt_u32 a b) k \<longleftrightarrow> k < 32 \<and> uint (neon_unpack32 a ! (k div 32)) > uint (neon_unpack32 b ! (k div 32))) \<and>
   neon_cge_u32 a b = NOT (neon_cgt_u32 b a) \<and>
   neon_ceq_u32 a b = neon_cge_u32 a b AND neon_cge_u32 b a \<and>
   (neon_cgt_u32 a b AND a) OR (NOT (neon_cgt_u32 a b) AND b) = neon_max_u32 a b \<and>
   (neon_cgt_u32 b a AND a) OR (NOT (neon_cgt_u32 b a) AND b) = neon_min_u32 a b \<and>
   neon_tst_u32 a b = NOT (neon_ceq_u32 (a AND b) 0)"
  unfolding neon_compare_defs neon_minmax_defs by (intro conjI compare_masks8 compare_masks16 compare_masks32 inj_values)

text \<open>
  C10. The one-word additions add lane by lane without a carry between lanes, lane-wise
  subtraction undoes them, and multiplication, pairwise addition and the absolute value act
  on each lane (or adjacent pair of lanes) alone.
\<close>

theorem neon_add_lanes_correct:
  "neon_add_u8 a b = NEON_VOP neon_unpack8 neon_pack8 (+) a b \<and>
   neon_add_u16 a b = NEON_VOP neon_unpack16 neon_pack16 (+) a b \<and>
   neon_sub_u8 (neon_add_u8 a b) b = a \<and> neon_sub_u16 (neon_add_u16 a b) b = a \<and>
   neon_unpack8 (neon_mul_u8 a b) = map2 (*) (neon_unpack8 a) (neon_unpack8 b) \<and>
   neon_unpack16 (neon_mul_u16 a b) = map2 (*) (neon_unpack16 a) (neon_unpack16 b) \<and>
   neon_unpack8 (neon_padd_u8 a b) = neon_pairs (+) (neon_unpack8 a) @ neon_pairs (+) (neon_unpack8 b) \<and>
   neon_unpack16 (neon_padd_u16 a b) = neon_pairs (+) (neon_unpack16 a) @ neon_pairs (+) (neon_unpack16 b) \<and>
   neon_unpack8 (neon_abs_s8 a) = map (\<lambda>x. word_of_int \<bar>sint x\<bar>) (neon_unpack8 a) \<and>
   neon_unpack16 (neon_abs_s16 a) = map (\<lambda>x. word_of_int \<bar>sint x\<bar>) (neon_unpack16 a)"
proof -
  have "neon_sub_u8 (neon_add_u8 a b) b = a"
    unfolding neon_sub_u8_def neon_add_u8_lanes
    by (rule l8.VOP_eqI [symmetric]) (simp add: l8.lane_VOP)
  moreover have "neon_sub_u16 (neon_add_u16 a b) b = a"
    unfolding neon_sub_u16_def neon_add_u16_lanes
    by (rule l16.VOP_eqI [symmetric]) (simp add: l16.lane_VOP)
  ultimately show ?thesis
    by (simp add: neon_add_u8_lanes neon_add_u16_lanes neon_mul_u8_def neon_mul_u16_def l8.unpack_VOP l16.unpack_VOP
      neon_padd_u8_def neon_padd_u16_def l8.unpack_POP l16.unpack_POP neon_abs_s8_def neon_abs_s16_def
      l8.unpack_VOP1 l16.unpack_VOP1 FN_abs_exact)
qed

end
