(* ===== verification/Neon_Shift.thy ===== *)
theory Neon_Shift
  imports Neon_Arith
begin

text \<open>
  The variable shifts of \<^verbatim>\<open>target-arm/neon_helper.c\<close>: \<^verbatim>\<open>neon_shl\<close>, \<^verbatim>\<open>neon_rshl\<close> (rounding),
  \<^verbatim>\<open>neon_qshl\<close>, \<^verbatim>\<open>neon_qshlu\<close> and \<^verbatim>\<open>neon_qrshl\<close> (saturating). The shift amount is the low byte of
  the second operand, signed: a negative amount shifts right.

  A shift whose result is stored in a lane of the operand's type is the shift of the lane; the
  rounding additions, whose carry matters, are at the width the code computes them. Every
  helper is proved equal to one exact integer shift, wrapped or clamped to the lane.
\<close>

section \<open>Shift amounts\<close>

definition shift_amount :: "'l::len word \<Rightarrow> int" where
  "shift_amount src2 = sint (ucast src2 :: u8)"

section \<open>Plain shifts\<close>

definition NEON_FN_shl_u :: "'l::len word \<Rightarrow> 'l word \<Rightarrow> 'l word" where
  "NEON_FN_shl_u src1 src2 =
     (let tmp = shift_amount src2; size = int LENGTH('l)
      in if tmp \<ge> size \<or> tmp \<le> - size then 0
         else if tmp < 0 then drop_bit (nat (- tmp)) src1
         else push_bit (nat tmp) src1)"

definition neon_shl_u8 :: "u32 \<Rightarrow> u32 \<Rightarrow> u32" where
  "neon_shl_u8 = NEON_VOP neon_unpack8 neon_pack8 NEON_FN_shl_u"

definition neon_shl_u16 :: "u32 \<Rightarrow> u32 \<Rightarrow> u32" where
  "neon_shl_u16 = NEON_VOP neon_unpack16 neon_pack16 NEON_FN_shl_u"

definition neon_shl_u32 :: "u32 \<Rightarrow> u32 \<Rightarrow> u32" where
  "neon_shl_u32 = NEON_VOP neon_unpack32 neon_pack32 NEON_FN_shl_u"

definition neon_shl_u64 :: "u64 \<Rightarrow> u64 \<Rightarrow> u64" where
  "neon_shl_u64 val shiftop =
     (let shift = shift_amount shiftop
      in if shift \<ge> 64 \<or> shift \<le> - 64 then 0
         else if shift < 0 then drop_bit (nat (- shift)) val
         else push_bit (nat shift) val)"

definition NEON_FN_shl_s :: "'l::len word \<Rightarrow> 'l word \<Rightarrow> 'l word" where
  "NEON_FN_shl_s src1 src2 =
     (let tmp = shift_amount src2; size = int LENGTH('l)
      in if tmp \<ge> size then 0
         else if tmp \<le> - size then signed_drop_bit (LENGTH('l) - 1) src1
         else if tmp < 0 then signed_drop_bit (nat (- tmp)) src1
         else push_bit (nat tmp) src1)"

definition neon_shl_s8 :: "u32 \<Rightarrow> u32 \<Rightarrow> u32" where
  "neon_shl_s8 = NEON_VOP neon_unpack8 neon_pack8 NEON_FN_shl_s"

definition neon_shl_s16 :: "u32 \<Rightarrow> u32 \<Rightarrow> u32" where
  "neon_shl_s16 = NEON_VOP neon_unpack16 neon_pack16 NEON_FN_shl_s"

definition neon_shl_s32 :: "u32 \<Rightarrow> u32 \<Rightarrow> u32" where
  "neon_shl_s32 = NEON_VOP neon_unpack32 neon_pack32 NEON_FN_shl_s"

definition neon_shl_s64 :: "u64 \<Rightarrow> u64 \<Rightarrow> u64" where
  "neon_shl_s64 valop shiftop =
     (let shift = shift_amount shiftop
      in if shift \<ge> 64 then 0
         else if shift \<le> - 64 then signed_drop_bit 63 valop
         else if shift < 0 then signed_drop_bit (nat (- shift)) valop
         else push_bit (nat shift) valop)"

section \<open>Rounding shifts\<close>

definition NEON_FN_rshl_s :: "'l::len word \<Rightarrow> 'l word \<Rightarrow> 'l word" where
  "NEON_FN_rshl_s src1 src2 =
     (let tmp = shift_amount src2; size = int LENGTH('l)
      in if tmp \<ge> size \<or> tmp \<le> - size then 0
         else if tmp < 0 then ucast (signed_drop_bit (nat (- tmp)) ((scast src1 :: u32) + push_bit (nat (- 1 - tmp)) 1))
         else push_bit (nat tmp) src1)"

definition neon_rshl_s8 :: "u32 \<Rightarrow> u32 \<Rightarrow> u32" where
  "neon_rshl_s8 = NEON_VOP neon_unpack8 neon_pack8 NEON_FN_rshl_s"

definition neon_rshl_s16 :: "u32 \<Rightarrow> u32 \<Rightarrow> u32" where
  "neon_rshl_s16 = NEON_VOP neon_unpack16 neon_pack16 NEON_FN_rshl_s"

definition neon_rshl_s32 :: "u32 \<Rightarrow> u32 \<Rightarrow> u32" where
  "neon_rshl_s32 valop shiftop =
     (let shift = shift_amount shiftop
      in if shift \<ge> 32 \<or> shift \<le> - 32 then 0
         else if shift < 0 then
           (let big_dest = (scast valop :: u64) + scast (push_bit (nat (- 1 - shift)) (1 :: u32))
            in ucast (signed_drop_bit (nat (- shift)) big_dest))
         else push_bit (nat shift) valop)"

definition neon_rshl_s64 :: "u64 \<Rightarrow> u64 \<Rightarrow> u64" where
  "neon_rshl_s64 valop shiftop =
     (let shift = shift_amount shiftop
      in if shift \<ge> 64 \<or> shift \<le> - 64 then 0
         else if shift < 0 then
           (let val = signed_drop_bit (nat (- shift - 1)) valop
            in if val = 0x7fffffffffffffff then 0x4000000000000000 else signed_drop_bit 1 (val + 1))
         else push_bit (nat shift) valop)"

definition NEON_FN_rshl_u :: "'l::len word \<Rightarrow> 'l word \<Rightarrow> 'l word" where
  "NEON_FN_rshl_u src1 src2 =
     (let tmp = shift_amount src2; size = int LENGTH('l)
      in if tmp \<ge> size \<or> tmp < - size then 0
         else if tmp = - size then drop_bit (nat (- tmp - 1)) src1
         else if tmp < 0 then ucast (signed_drop_bit (nat (- tmp)) ((ucast src1 :: u32) + push_bit (nat (- 1 - tmp)) 1))
         else push_bit (nat tmp) src1)"

definition neon_rshl_u8 :: "u32 \<Rightarrow> u32 \<Rightarrow> u32" where
  "neon_rshl_u8 = NEON_VOP neon_unpack8 neon_pack8 NEON_FN_rshl_u"

definition neon_rshl_u16 :: "u32 \<Rightarrow> u32 \<Rightarrow> u32" where
  "neon_rshl_u16 = NEON_VOP neon_unpack16 neon_pack16 NEON_FN_rshl_u"

definition neon_rshl_u32 :: "u32 \<Rightarrow> u32 \<Rightarrow> u32" where
  "neon_rshl_u32 val shiftop =
     (let shift = shift_amount shiftop
      in if shift \<ge> 32 \<or> shift < - 32 then 0
         else if shift = - 32 then drop_bit 31 val
         else if shift < 0 then
           (let big_dest = (ucast val :: u64) + scast (push_bit (nat (- 1 - shift)) (1 :: u32))
            in ucast (drop_bit (nat (- shift)) big_dest))
         else push_bit (nat shift) val)"

definition neon_rshl_u64 :: "u64 \<Rightarrow> u64 \<Rightarrow> u64" where
  "neon_rshl_u64 val shiftop =
     (let shift = shift_amount shiftop
      in if shift \<ge> 64 \<or> shift < - 64 then 0
         else if shift = - 64 then drop_bit 63 val
         else if shift < 0 then
           (let val = drop_bit (nat (- shift - 1)) val
            in if val = 0xffffffffffffffff then 0x8000000000000000 else drop_bit 1 (val + 1))
         else push_bit (nat shift) val)"

section \<open>Saturating shifts\<close>

definition NEON_FN_qshl_u :: "CPUARMState \<Rightarrow> 'l::len word \<Rightarrow> 'l word \<Rightarrow> 'l word \<times> CPUARMState" where
  "NEON_FN_qshl_u env src1 src2 =
     (let tmp = shift_amount src2; size = int LENGTH('l)
      in if tmp \<ge> size then (if src1 \<noteq> 0 then (NOT 0, SET_QC env) else (0, env))
         else if tmp \<le> - size then (0, env)
         else if tmp < 0 then (drop_bit (nat (- tmp)) src1, env)
         else (let dest = push_bit (nat tmp) src1
               in if drop_bit (nat tmp) dest \<noteq> src1 then (NOT 0, SET_QC env) else (dest, env)))"

definition neon_qshl_u8 :: "CPUARMState \<Rightarrow> u32 \<Rightarrow> u32 \<Rightarrow> u32 \<times> CPUARMState" where
  "neon_qshl_u8 = NEON_VOP_ENV neon_unpack8 neon_pack8 NEON_FN_qshl_u"

definition neon_qshl_u16 :: "CPUARMState \<Rightarrow> u32 \<Rightarrow> u32 \<Rightarrow> u32 \<times> CPUARMState" where
  "neon_qshl_u16 = NEON_VOP_ENV neon_unpack16 neon_pack16 NEON_FN_qshl_u"

definition neon_qshl_u32 :: "CPUARMState \<Rightarrow> u32 \<Rightarrow> u32 \<Rightarrow> u32 \<times> CPUARMState" where
  "neon_qshl_u32 = NEON_VOP_ENV neon_unpack32 neon_pack32 NEON_FN_qshl_u"

definition neon_qshl_u64 :: "CPUARMState \<Rightarrow> u64 \<Rightarrow> u64 \<Rightarrow> u64 \<times> CPUARMState" where
  "neon_qshl_u64 env val shiftop =
     (let shift = shift_amount shiftop
      in if shift \<ge> 64 then (if val \<noteq> 0 then (NOT 0, SET_QC env) else (val, env))
         else if shift \<le> - 64 then (0, env)
         else if shift < 0 then (drop_bit (nat (- shift)) val, env)
         else (let tmp = val; val = push_bit (nat shift) val
               in if drop_bit (nat shift) val \<noteq> tmp then (NOT 0, SET_QC env) else (val, env)))"

text \<open>The bound of a signed lane: \<^verbatim>\<open>dest = (uint32_t)(1 << (sizeof(src1) * 8 - 1)); if (src1 > 0) dest--\<close>.\<close>

definition neon_smax :: "'l::len word \<Rightarrow> 'l word" where
  "neon_smax src1 =
     (let dest = ucast (push_bit (LENGTH('l) - 1) (1 :: u32)) in if sint src1 > 0 then dest - 1 else dest)"

definition NEON_FN_qshl_s :: "CPUARMState \<Rightarrow> 'l::len word \<Rightarrow> 'l word \<Rightarrow> 'l word \<times> CPUARMState" where
  "NEON_FN_qshl_s env src1 src2 =
     (let tmp = shift_amount src2; size = int LENGTH('l)
      in if tmp \<ge> size then (if src1 \<noteq> 0 then (neon_smax src1, SET_QC env) else (src1, env))
         else if tmp \<le> - size then (ucast (signed_drop_bit 31 (scast src1 :: u32)), env)
         else if tmp < 0 then (signed_drop_bit (nat (- tmp)) src1, env)
         else (let dest = push_bit (nat tmp) src1
               in if signed_drop_bit (nat tmp) dest \<noteq> src1 then (neon_smax src1, SET_QC env) else (dest, env)))"

definition neon_qshl_s8 :: "CPUARMState \<Rightarrow> u32 \<Rightarrow> u32 \<Rightarrow> u32 \<times> CPUARMState" where
  "neon_qshl_s8 = NEON_VOP_ENV neon_unpack8 neon_pack8 NEON_FN_qshl_s"

definition neon_qshl_s16 :: "CPUARMState \<Rightarrow> u32 \<Rightarrow> u32 \<Rightarrow> u32 \<times> CPUARMState" where
  "neon_qshl_s16 = NEON_VOP_ENV neon_unpack16 neon_pack16 NEON_FN_qshl_s"

definition neon_qshl_s32 :: "CPUARMState \<Rightarrow> u32 \<Rightarrow> u32 \<Rightarrow> u32 \<times> CPUARMState" where
  "neon_qshl_s32 = NEON_VOP_ENV neon_unpack32 neon_pack32 NEON_FN_qshl_s"

definition neon_qshl_s64 :: "CPUARMState \<Rightarrow> u64 \<Rightarrow> u64 \<Rightarrow> u64 \<times> CPUARMState" where
  "neon_qshl_s64 env valop shiftop =
     (let shift = shift_amount shiftop; val = valop
      in if shift \<ge> 64 then (if val \<noteq> 0 then (signed_drop_bit 63 val XOR NOT SIGNBIT64, SET_QC env) else (val, env))
         else if shift \<le> - 64 then (signed_drop_bit 63 val, env)
         else if shift < 0 then (signed_drop_bit (nat (- shift)) val, env)
         else (let tmp = val; val = push_bit (nat shift) val
               in if signed_drop_bit (nat shift) val \<noteq> tmp
                  then (signed_drop_bit 63 tmp XOR NOT SIGNBIT64, SET_QC env) else (val, env)))"

definition NEON_FN_qshlu :: "CPUARMState \<Rightarrow> 'l::len word \<Rightarrow> 'l word \<Rightarrow> 'l word \<times> CPUARMState" where
  "NEON_FN_qshlu env src1 src2 =
     (if src1 AND ucast (push_bit (LENGTH('l) - 1) (1 :: u32)) \<noteq> 0 then (0, SET_QC env)
      else (let tmp = shift_amount src2; size = int LENGTH('l)
        in if tmp \<ge> size then (if src1 \<noteq> 0 then (NOT 0, SET_QC env) else (0, env))
           else if tmp \<le> - size then (0, env)
           else if tmp < 0 then (drop_bit (nat (- tmp)) src1, env)
           else (let dest = push_bit (nat tmp) src1
                 in if drop_bit (nat tmp) dest \<noteq> src1 then (NOT 0, SET_QC env) else (dest, env))))"

definition neon_qshlu_s8 :: "CPUARMState \<Rightarrow> u32 \<Rightarrow> u32 \<Rightarrow> u32 \<times> CPUARMState" where
  "neon_qshlu_s8 = NEON_VOP_ENV neon_unpack8 neon_pack8 NEON_FN_qshlu"

definition neon_qshlu_s16 :: "CPUARMState \<Rightarrow> u32 \<Rightarrow> u32 \<Rightarrow> u32 \<times> CPUARMState" where
  "neon_qshlu_s16 = NEON_VOP_ENV neon_unpack16 neon_pack16 NEON_FN_qshlu"

definition neon_qshlu_s32 :: "CPUARMState \<Rightarrow> u32 \<Rightarrow> u32 \<Rightarrow> u32 \<times> CPUARMState" where
  "neon_qshlu_s32 env valop shiftop =
     (if sint valop < 0 then (0, SET_QC env) else neon_qshl_u32 env valop shiftop)"

definition neon_qshlu_s64 :: "CPUARMState \<Rightarrow> u64 \<Rightarrow> u64 \<Rightarrow> u64 \<times> CPUARMState" where
  "neon_qshlu_s64 env valop shiftop =
     (if sint valop < 0 then (0, SET_QC env) else neon_qshl_u64 env valop shiftop)"

section \<open>Saturating rounding shifts\<close>

definition NEON_FN_qrshl_u :: "CPUARMState \<Rightarrow> 'l::len word \<Rightarrow> 'l word \<Rightarrow> 'l word \<times> CPUARMState" where
  "NEON_FN_qrshl_u env src1 src2 =
     (let tmp = shift_amount src2; size = int LENGTH('l)
      in if tmp \<ge> size then (if src1 \<noteq> 0 then (NOT 0, SET_QC env) else (0, env))
         else if tmp < - size then (0, env)
         else if tmp = - size then (drop_bit (LENGTH('l) - 1) src1, env)
         else if tmp < 0 then
           (ucast (signed_drop_bit (nat (- tmp)) ((ucast src1 :: u32) + push_bit (nat (- 1 - tmp)) 1)), env)
         else (let dest = push_bit (nat tmp) src1
               in if drop_bit (nat tmp) dest \<noteq> src1 then (NOT 0, SET_QC env) else (dest, env)))"

definition neon_qrshl_u8 :: "CPUARMState \<Rightarrow> u32 \<Rightarrow> u32 \<Rightarrow> u32 \<times> CPUARMState" where
  "neon_qrshl_u8 = NEON_VOP_ENV neon_unpack8 neon_pack8 NEON_FN_qrshl_u"

definition neon_qrshl_u16 :: "CPUARMState \<Rightarrow> u32 \<Rightarrow> u32 \<Rightarrow> u32 \<times> CPUARMState" where
  "neon_qrshl_u16 = NEON_VOP_ENV neon_unpack16 neon_pack16 NEON_FN_qrshl_u"

definition neon_qrshl_u32 :: "CPUARMState \<Rightarrow> u32 \<Rightarrow> u32 \<Rightarrow> u32 \<times> CPUARMState" where
  "neon_qrshl_u32 env val shiftop =
     (let shift = shift_amount shiftop
      in if shift \<ge> 32 then (if val \<noteq> 0 then (NOT 0, SET_QC env) else (0, env))
         else if shift < - 32 then (0, env)
         else if shift = - 32 then (drop_bit 31 val, env)
         else if shift < 0 then
           (let big_dest = (ucast val :: u64) + scast (push_bit (nat (- 1 - shift)) (1 :: u32))
            in (ucast (drop_bit (nat (- shift)) big_dest), env))
         else (let dest = push_bit (nat shift) val
               in if drop_bit (nat shift) dest \<noteq> val then (NOT 0, SET_QC env) else (dest, env)))"

definition neon_qrshl_u64 :: "CPUARMState \<Rightarrow> u64 \<Rightarrow> u64 \<Rightarrow> u64 \<times> CPUARMState" where
  "neon_qrshl_u64 env val shiftop =
     (let shift = shift_amount shiftop
      in if shift \<ge> 64 then (if val \<noteq> 0 then (NOT 0, SET_QC env) else (val, env))
         else if shift < - 64 then (0, env)
         else if shift = - 64 then (drop_bit 63 val, env)
         else if shift < 0 then
           (let val = drop_bit (nat (- shift - 1)) val
            in (if val = 0xffffffffffffffff then 0x8000000000000000 else drop_bit 1 (val + 1), env))
         else (let tmp = val; val = push_bit (nat shift) val
               in if drop_bit (nat shift) val \<noteq> tmp then (NOT 0, SET_QC env) else (val, env)))"

definition NEON_FN_qrshl_s :: "CPUARMState \<Rightarrow> 'l::len word \<Rightarrow> 'l word \<Rightarrow> 'l word \<times> CPUARMState" where
  "NEON_FN_qrshl_s env src1 src2 =
     (let tmp = shift_amount src2; size = int LENGTH('l)
      in if tmp \<ge> size then (if src1 \<noteq> 0 then (neon_smax src1, SET_QC env) else (0, env))
         else if tmp \<le> - size then (0, env)
         else if tmp < 0 then
           (ucast (signed_drop_bit (nat (- tmp)) ((scast src1 :: u32) + push_bit (nat (- 1 - tmp)) 1)), env)
         else (let dest = push_bit (nat tmp) src1
               in if signed_drop_bit (nat tmp) dest \<noteq> src1 then (neon_smax src1, SET_QC env) else (dest, env)))"

definition neon_qrshl_s8 :: "CPUARMState \<Rightarrow> u32 \<Rightarrow> u32 \<Rightarrow> u32 \<times> CPUARMState" where
  "neon_qrshl_s8 = NEON_VOP_ENV neon_unpack8 neon_pack8 NEON_FN_qrshl_s"

definition neon_qrshl_s16 :: "CPUARMState \<Rightarrow> u32 \<Rightarrow> u32 \<Rightarrow> u32 \<times> CPUARMState" where
  "neon_qrshl_s16 = NEON_VOP_ENV neon_unpack16 neon_pack16 NEON_FN_qrshl_s"

definition neon_qrshl_s32 :: "CPUARMState \<Rightarrow> u32 \<Rightarrow> u32 \<Rightarrow> u32 \<times> CPUARMState" where
  "neon_qrshl_s32 env valop shiftop =
     (let shift = shift_amount shiftop; val = valop
      in if shift \<ge> 32 then (if val \<noteq> 0 then (signed_drop_bit 31 val XOR NOT SIGNBIT, SET_QC env) else (0, env))
         else if shift \<le> - 32 then (0, env)
         else if shift < 0 then
           (let big_dest = (scast val :: u64) + scast (push_bit (nat (- 1 - shift)) (1 :: u32))
            in (ucast (signed_drop_bit (nat (- shift)) big_dest), env))
         else (let dest = push_bit (nat shift) val
               in if signed_drop_bit (nat shift) dest \<noteq> val
                  then (signed_drop_bit 31 val XOR NOT SIGNBIT, SET_QC env) else (dest, env)))"

definition neon_qrshl_s64 :: "CPUARMState \<Rightarrow> u64 \<Rightarrow> u64 \<Rightarrow> u64 \<times> CPUARMState" where
  "neon_qrshl_s64 env valop shiftop =
     (let shift = shift_amount shiftop; val = valop
      in if shift \<ge> 64 then (if val \<noteq> 0 then (signed_drop_bit 63 val XOR NOT SIGNBIT64, SET_QC env) else (val, env))
         else if shift \<le> - 64 then (0, env)
         else if shift < 0 then
           (let val = signed_drop_bit (nat (- shift - 1)) val
            in (if val = 0x7fffffffffffffff then 0x4000000000000000 else signed_drop_bit 1 (val + 1), env))
         else (let tmp = val; val = push_bit (nat shift) val
               in if signed_drop_bit (nat shift) val \<noteq> tmp
                  then (signed_drop_bit 63 tmp XOR NOT SIGNBIT64, SET_QC env) else (val, env)))"

section \<open>Specification\<close>

text \<open>The exact shift of an integer; right shifts round down, or to the nearest.\<close>

definition shift_exact :: "int \<Rightarrow> int \<Rightarrow> int" where
  "shift_exact k s = (if s < 0 then k div 2 ^ nat (- s) else k * 2 ^ nat s)"

definition rshift_exact :: "int \<Rightarrow> int \<Rightarrow> int" where
  "rshift_exact k s = (if s < 0 then (k + 2 ^ nat (- 1 - s)) div 2 ^ nat (- s) else k * 2 ^ nat s)"

section \<open>Integer facts on shifts\<close>

lemma div_pow_sign:
  assumes "- (2 ^ m) \<le> k" "k < 2 ^ m" "m \<le> n"
  shows "k div 2 ^ n = (if k < 0 then - 1 else 0 :: int)"
proof -
  have "(2::int) ^ m \<le> 2 ^ n" using assms(3) by (intro power_increasing) auto
  then have b: "- (2 ^ n) \<le> k" "k < 2 ^ n" using assms(1,2) by linarith+
  show ?thesis
  proof (cases "k < 0")
    case True
    then show ?thesis using b by (simp add: int_div_pos_eq [of k "2 ^ n" "- 1" "k + 2 ^ n"])
  next
    case False
    then show ?thesis using b by (simp add: div_pos_pos_trivial)
  qed
qed

lemma div_pow_zero: "0 \<le> k \<Longrightarrow> k < 2 ^ m \<Longrightarrow> m \<le> n \<Longrightarrow> k div 2 ^ n = (0 :: int)"
  using div_pow_sign [of m k n] by (simp add: order_less_le_trans [OF _ zero_le_power])

lemma round_half: "(k + 2 ^ n) div 2 ^ Suc n = (k div 2 ^ n + 1) div 2" for k :: int
proof -
  have "(k + 2 ^ n) div 2 ^ Suc n = ((k + 2 ^ n) div 2 ^ n) div 2"
    by (simp add: power_Suc2 zdiv_zmult2_eq del: power_Suc)
  moreover have "(k + 2 ^ n) div 2 ^ n = k div 2 ^ n + 1" by (rule div_add_self2) simp
  ultimately show ?thesis by simp
qed

lemma rshift_neg: "s < 0 \<Longrightarrow> rshift_exact k s = (k div 2 ^ nat (- 1 - s) + 1) div 2"
proof -
  assume "s < 0"
  then have "nat (- s) = Suc (nat (- 1 - s))" by simp
  then show ?thesis using \<open>s < 0\<close> round_half [of k "nat (- 1 - s)"] by (simp add: rshift_exact_def)
qed

lemma div_range: "- N \<le> k \<Longrightarrow> k < N \<Longrightarrow> - N \<le> k div 2 ^ n \<and> k div 2 ^ n < N" for N k :: int
proof -
  assume k: "- N \<le> k" "k < N"
  have p: "(1::int) \<le> 2 ^ n" by simp
  have "k div 2 ^ n \<le> k" if "0 \<le> k"
  proof -
    have "k * 1 \<le> k * 2 ^ n" using that p by (intro mult_left_mono) auto
    then show ?thesis using zdiv_mono1 [of k "k * 2 ^ n" "2 ^ n"] by simp
  qed
  moreover have "k \<le> k div 2 ^ n \<and> k div 2 ^ n < 0" if "k < 0"
  proof
    show "k div 2 ^ n < 0" using that by (simp add: pos_imp_zdiv_neg_iff)
    have "k * 2 ^ n \<le> k * 1" using that p by (intro mult_left_mono_neg) auto
    then show "k \<le> k div 2 ^ n" using zdiv_mono1 [of "k * 2 ^ n" k "2 ^ n"] by simp
  qed
  moreover have "0 \<le> k div 2 ^ n" if "0 \<le> k" using that by (simp add: pos_imp_zdiv_nonneg_iff)
  ultimately show ?thesis using k by linarith
qed

lemma rshift_range:
  "s < 0 \<Longrightarrow> 1 \<le> N \<Longrightarrow> - N \<le> k \<Longrightarrow> k < N \<Longrightarrow> - N \<le> rshift_exact k s \<and> rshift_exact k s < N"
  using div_range [of N k "nat (- 1 - s)"] by (auto simp: rshift_neg)

lemma rshift_nonneg: "s < 0 \<Longrightarrow> 0 \<le> k \<Longrightarrow> 0 \<le> rshift_exact k s"
  by (simp add: rshift_neg pos_imp_zdiv_nonneg_iff add_nonneg_nonneg)

section \<open>Word facts on shifts\<close>

lemma push_bit_word_of_int:
  "push_bit n x = word_of_int (sint x * 2 ^ n)" "push_bit n x = word_of_int (uint x * 2 ^ n)" for x :: "'a::len word"
  by (simp_all add: push_bit_eq_mult)

lemma exp_out: "LENGTH('a) \<le> n \<Longrightarrow> (2 ^ n :: 'a::len word) = 0"
  by (rule bit_word_eqI) (auto simp: bit_simps)

lemma dvd_push_bit: "2 ^ n dvd sint (push_bit n x)" "2 ^ n dvd uint (push_bit n x)" for x :: "'a::len word"
proof -
  have "take_bit n (sint (push_bit n x)) = 0" "take_bit n (uint (push_bit n x)) = 0"
    by (rule bit_eqI, auto simp: bit_simps)+
  then show "2 ^ n dvd sint (push_bit n x)" "2 ^ n dvd uint (push_bit n x)"
    by (simp_all add: take_bit_eq_mod dvd_eq_mod_eq_0)
qed

text \<open>Shifting left and back recovers the operand exactly when the exact result fits.\<close>

lemma shift_back_s:
  "signed_drop_bit n (push_bit n x) \<noteq> x \<longleftrightarrow> ssat LENGTH('a) (sint x * 2 ^ n) \<noteq> sint x * 2 ^ n" for x :: "'a::len word"
proof -
  have e: "signed_drop_bit n (push_bit n x) = x \<longleftrightarrow> sint (push_bit n x) div 2 ^ n = sint x"
    unfolding word_eq_iff_sint [of _ x] by (simp add: sint_signed_drop_bit_eq drop_bit_eq_div)
  have "sint (push_bit n x) div 2 ^ n = sint x \<longleftrightarrow> sint (push_bit n x) = sint x * 2 ^ n"
    using dvd_push_bit(1) [of n x] by (auto elim!: dvdE)
  moreover have "sint (push_bit n x) = sint x * 2 ^ n \<longleftrightarrow> ssat LENGTH('a) (sint x * 2 ^ n) = sint x * 2 ^ n"
    unfolding ssat_id_iff
    using sint_range [of "push_bit n x"] sint_word_of_int [where 'a = 'a, of "sint x * 2 ^ n"]
    by (auto simp: push_bit_word_of_int(1) simp del: One_nat_def)
  ultimately show ?thesis using e by blast
qed

lemma uint_drop_bit: "uint (drop_bit n w) = uint w div 2 ^ n" for w :: "'a::len word"
  unfolding drop_bit_word_of_int
  using div_range [of "2 ^ LENGTH('a)" "uint w" n] uint_range [of w] order_trans [OF _ uint_range(1)]
  by (intro uint_word_of_int) (simp_all add: pos_imp_zdiv_nonneg_iff)

lemma shift_back_u:
  "drop_bit n (push_bit n x) \<noteq> x \<longleftrightarrow> usat LENGTH('a) (uint x * 2 ^ n) \<noteq> uint x * 2 ^ n" for x :: "'a::len word"
proof -
  have e: "drop_bit n (push_bit n x) = x \<longleftrightarrow> uint (push_bit n x) div 2 ^ n = uint x"
    unfolding word_uint_eq_iff [of _ x] uint_drop_bit ..
  have "uint (push_bit n x) div 2 ^ n = uint x \<longleftrightarrow> uint (push_bit n x) = uint x * 2 ^ n"
    using dvd_push_bit(2) [of n x] by (auto elim!: dvdE)
  moreover have "uint (push_bit n x) = uint x * 2 ^ n \<longleftrightarrow> usat LENGTH('a) (uint x * 2 ^ n) = uint x * 2 ^ n"
    unfolding usat_id_iff
    by (metis push_bit_word_of_int(2) uint_range uint_word_of_int)
  ultimately show ?thesis using e by blast
qed

section \<open>Plain and rounding shifts are exact\<close>

lemma FN_shl_u_exact: "NEON_FN_shl_u x y = word_of_int (shift_exact (uint x) (shift_amount y))"
  for x y :: "'l::len word"
proof -
  have "uint x div 2 ^ nat (- shift_amount y) = 0" if "shift_amount y \<le> - int LENGTH('l)"
    using that by (intro div_pow_zero [OF uint_range]) simp
  moreover have "\<not> shift_amount y \<le> - int LENGTH('l)" if "\<not> shift_amount y < 0"
    using that len_gt_0 [where 'a = 'l] by linarith
  ultimately show ?thesis
    by (auto simp: NEON_FN_shl_u_def Let_def shift_exact_def drop_bit_word_of_int
        push_bit_word_of_int(2) exp_out)
qed

lemma FN_shl_s_exact: "NEON_FN_shl_s x y = word_of_int (shift_exact (sint x) (shift_amount y))"
  for x y :: "'l::len word"
proof -
  have "sint x div 2 ^ n = (if sint x < 0 then - 1 else 0)" if "LENGTH('l) - 1 \<le> n" for n
    using that by (intro div_pow_sign [OF sint_range])
  moreover have "\<not> shift_amount y \<le> - int LENGTH('l)" if "\<not> shift_amount y < 0"
    using that len_gt_0 [where 'a = 'l] by linarith
  ultimately show ?thesis
    by (auto simp: NEON_FN_shl_s_def Let_def shift_exact_def signed_drop_bit_word_of_int
        push_bit_word_of_int(1) exp_out)
qed

lemma shl64_exact:
  "neon_shl_u64 a b = word_of_int (shift_exact (uint a) (shift_amount b))"
  "neon_shl_s64 a b = word_of_int (shift_exact (sint a) (shift_amount b))"
  unfolding FN_shl_u_exact [symmetric] FN_shl_s_exact [symmetric]
  by (simp_all add: neon_shl_u64_def neon_shl_s64_def NEON_FN_shl_u_def NEON_FN_shl_s_def Let_def cong: if_cong)

lemma amount_size: "\<not> shift_amount y < 0 \<Longrightarrow> \<not> shift_amount y \<le> - int LENGTH('l::len)"
  "\<not> shift_amount y < 0 \<Longrightarrow> \<not> shift_amount y < - int LENGTH('l::len)"
  using len_gt_0 [where 'a = 'l] by linarith+

lemma rshift_out_s:
  "shift_amount y \<le> - int LENGTH('l) \<Longrightarrow> rshift_exact (sint (x::'l::len word)) (shift_amount y) = 0"
proof -
  assume a: "shift_amount y \<le> - int LENGTH('l)"
  then have "sint x div 2 ^ nat (- 1 - shift_amount y) = (if sint x < 0 then - 1 else 0)"
    by (intro div_pow_sign [OF sint_range]) (use len_gt_0 [where 'a = 'l] in linarith)
  moreover have "shift_amount y < 0" using a len_gt_0 [where 'a = 'l] by linarith
  ultimately show ?thesis by (simp add: rshift_neg)
qed

lemma rshift_out_u:
  "shift_amount y < - int LENGTH('l) \<Longrightarrow> rshift_exact (uint (x::'l::len word)) (shift_amount y) = 0"
proof -
  assume a: "shift_amount y < - int LENGTH('l)"
  then have "uint x div 2 ^ nat (- 1 - shift_amount y) = 0"
    by (intro div_pow_zero [OF uint_range]) simp
  moreover have "shift_amount y < 0" using a len_gt_0 [where 'a = 'l] by linarith
  ultimately show ?thesis by (simp add: rshift_neg)
qed

lemma rshift_top_u:
  "rshift_exact (uint (x::'l::len word)) (- int LENGTH('l)) = uint x div 2 ^ (LENGTH('l) - 1)"
proof -
  define q where "q = uint x div 2 ^ (LENGTH('l) - 1)"
  have n: "nat (- 1 - - int LENGTH('l)) = LENGTH('l) - 1" "- int LENGTH('l) < 0"
    using len_gt_0 [where 'a = 'l] by linarith+
  have "uint x < 2 * 2 ^ (LENGTH('l) - 1)"
    using uint_range(2) [of x] power_Suc [of "2::int" "LENGTH('l) - 1"] by (simp only: Suc_diff_1 len_gt_0)
  moreover have "2 ^ (LENGTH('l) - 1) * q \<le> uint x"
    using mult_div_mod_eq [of "2 ^ (LENGTH('l) - 1)" "uint x"] pos_mod_sign [of "2 ^ (LENGTH('l) - 1)" "uint x"]
      zero_less_power [of "2::int" "LENGTH('l) - 1"] unfolding q_def by linarith
  ultimately have "2 ^ (LENGTH('l) - 1) * q < 2 ^ (LENGTH('l) - 1) * 2" by linarith
  then have "q < 2" by (simp only: mult_less_cancel_left_pos zero_less_power zero_less_numeral)
  moreover have "0 \<le> q" unfolding q_def by (simp add: pos_imp_zdiv_nonneg_iff)
  ultimately have "(q + 1) div 2 = q" by presburger
  then show ?thesis unfolding rshift_neg [OF n(2)] n(1) q_def .
qed

text \<open>The rounding addition in \<^verbatim>\<open>int\<close> does not overflow for lanes of at most 16 bits.\<close>

lemma round_promoted:
  fixes P :: u32
  assumes "- 65536 \<le> sint P" "sint P < 65536" "s < 0" "- 16 < s"
  shows "signed_drop_bit (nat (- s)) (P + push_bit (nat (- 1 - s)) 1) = word_of_int (rshift_exact (sint P) s)"
proof -
  have "nat (- 1 - s) < 15" using assms(3,4) by linarith
  then have p: "(2::int) ^ nat (- 1 - s) \<le> 2 ^ 15" by (intro power_increasing) auto
  define c :: u32 where "c = push_bit (nat (- 1 - s)) 1"
  have e: "sint c = 2 ^ nat (- 1 - s)"
    using sint_word_of_int [where 'a = 32, of "2 ^ nat (- 1 - s)"] p order_trans [of "- 2147483648" 0 "2 ^ nat (- 1 - s) :: int"]
    by (simp add: c_def push_bit_eq_mult)
  moreover have "(0::int) < 2 ^ nat (- 1 - s)" by simp
  ultimately have "sint (P + c) = sint P + 2 ^ nat (- 1 - s)"
    using assms(1,2) p unfolding e [symmetric] by (intro sint_add_exact) simp_all
  then show ?thesis
    using assms(3) unfolding c_def [symmetric] by (simp add: signed_drop_bit_word_of_int rshift_exact_def)
qed

lemma promoted_s: "LENGTH('l) \<le> 16 \<Longrightarrow> s < 0 \<Longrightarrow> - int LENGTH('l) < s \<Longrightarrow>
    (ucast (signed_drop_bit (nat (- s)) ((scast x :: u32) + 2 ^ nat (- 1 - s))) :: 'l::len word) =
    word_of_int (rshift_exact (sint (x::'l word)) s)"
proof -
  assume a: "LENGTH('l) \<le> 16" "s < 0" "- int LENGTH('l) < s"
  have "(2::int) ^ (LENGTH('l) - 1) \<le> 2 ^ 16" using a(1) by (intro power_increasing) auto
  then have "- 65536 \<le> sint x" "sint x < 65536" using sint_range [of x] by simp_all
  moreover have "sint (scast x :: u32) = sint x" using a(1) by (simp add: sint_up_scast is_up)
  ultimately show ?thesis
    using a round_promoted [of "scast x" s] by (simp add: ucast_word_of_int_down)
qed

lemma promoted_u: "LENGTH('l) \<le> 16 \<Longrightarrow> s < 0 \<Longrightarrow> - int LENGTH('l) < s \<Longrightarrow>
    (ucast (signed_drop_bit (nat (- s)) ((ucast x :: u32) + 2 ^ nat (- 1 - s))) :: 'l::len word) =
    word_of_int (rshift_exact (uint (x::'l word)) s)"
proof -
  assume a: "LENGTH('l) \<le> 16" "s < 0" "- int LENGTH('l) < s"
  have "(2::int) ^ LENGTH('l) \<le> 2 ^ 16" using a(1) by (intro power_increasing) auto
  then have "(2::int) ^ LENGTH('l) \<le> 65536" by simp
  then have "- 65536 \<le> uint x" "uint x < 65536" using uint_range [of x] by linarith+
  moreover have "sint (ucast x :: u32) = uint x" using a(1) by (intro sint_ucast_up) simp
  ultimately show ?thesis
    using a round_promoted [of "ucast x" s] by (simp add: ucast_word_of_int_down)
qed

lemma nat_int_minus_1: "nat (int n - 1) = n - 1"
  by simp

lemma shift_pos: "\<not> s < 0 \<Longrightarrow> rshift_exact k s = k * 2 ^ nat s" "\<not> s < 0 \<Longrightarrow> shift_exact k s = k * 2 ^ nat s"
  by (simp_all add: rshift_exact_def shift_exact_def)

lemma FN_rshl_s_exact:
  "LENGTH('l) \<le> 16 \<Longrightarrow> NEON_FN_rshl_s x (y::'l::len word) = word_of_int (rshift_exact (sint x) (shift_amount y))"
  using amount_size [of y, where 'l = 'l]
  by (auto simp: NEON_FN_rshl_s_def Let_def promoted_s rshift_out_s shift_pos
      push_bit_word_of_int(1) exp_out not_le)

lemma FN_rshl_u_exact:
  "LENGTH('l) \<le> 16 \<Longrightarrow> NEON_FN_rshl_u x (y::'l::len word) = word_of_int (rshift_exact (uint x) (shift_amount y))"
  using amount_size [of y, where 'l = 'l]
  by (auto simp: NEON_FN_rshl_u_def Let_def promoted_u rshift_out_u rshift_top_u shift_pos drop_bit_word_of_int
      push_bit_word_of_int(2) exp_out not_less nat_int_minus_1)

text \<open>The 32 bit helpers round in 64 bits.\<close>

lemma round_constant64:
  "- 32 < s \<Longrightarrow> s < 0 \<Longrightarrow> (scast (push_bit (nat (- 1 - s)) (1 :: u32)) :: u64) = word_of_int (2 ^ nat (- 1 - s))"
  "- 32 < s \<Longrightarrow> s < 0 \<Longrightarrow> (2::int) ^ nat (- 1 - s) \<le> 1073741824"
proof -
  assume a: "- 32 < s" "s < 0"
  then have "nat (- 1 - s) \<le> 30" by linarith
  then have "(2::int) ^ nat (- 1 - s) \<le> 2 ^ 30" by (intro power_increasing) auto
  then show p: "(2::int) ^ nat (- 1 - s) \<le> 1073741824" by simp
  have "sint (push_bit (nat (- 1 - s)) (1 :: u32)) = 2 ^ nat (- 1 - s)"
    using sint_word_of_int [where 'a = 32, of "2 ^ nat (- 1 - s)"] p order_trans [of "- 2147483648" 0 "2 ^ nat (- 1 - s) :: int"]
    by (simp add: push_bit_eq_mult)
  then show "(scast (push_bit (nat (- 1 - s)) (1 :: u32)) :: u64) = word_of_int (2 ^ nat (- 1 - s))"
    by (simp only: scast_eq_word_of_int)
qed

lemma round64_s:
  assumes "- 32 < s" "s < 0"
  shows "(ucast (signed_drop_bit (nat (- s)) ((scast x :: u64) + scast (push_bit (nat (- 1 - s)) (1 :: u32)))) :: u32) =
    word_of_int (rshift_exact (sint (x::u32)) s)"
proof -
  define c where "c = (2::int) ^ nat (- 1 - s)"
  have c: "0 < c" "c \<le> 1073741824" using round_constant64(2) [OF assms] by (simp_all add: c_def)
  have "(scast x :: u64) + word_of_int c = word_of_int (sint x + c)" by (simp only: scast_eq_word_of_int of_int_add)
  moreover have "sint (word_of_int (sint x + c) :: u64) = sint x + c"
    using c sint_ranges(5,6) [of x] by (intro sint_word_of_int) simp_all
  ultimately show ?thesis
    using assms(2) unfolding round_constant64(1) [OF assms] c_def [symmetric]
    by (simp only: signed_drop_bit_word_of_int rshift_exact_def if_True c_def [symmetric])
      (simp add: ucast_word_of_int_down)
qed

lemma round64_u:
  assumes "- 32 < s" "s < 0"
  shows "(ucast (drop_bit (nat (- s)) ((ucast x :: u64) + scast (push_bit (nat (- 1 - s)) (1 :: u32)))) :: u32) =
    word_of_int (rshift_exact (uint (x::u32)) s)"
proof -
  define c where "c = (2::int) ^ nat (- 1 - s)"
  have c: "0 < c" "c \<le> 1073741824" using round_constant64(2) [OF assms] by (simp_all add: c_def)
  have "(ucast x :: u64) + word_of_int c = word_of_int (uint x + c)" by (simp only: ucast_eq_word_of_int of_int_add)
  moreover have "uint (word_of_int (uint x + c) :: u64) = uint x + c"
    using c uint_ranges(3) [of x] by (intro uint_word_of_int) simp_all
  ultimately show ?thesis
    using assms(2) unfolding round_constant64(1) [OF assms] c_def [symmetric]
    by (simp only: drop_bit_word_of_int rshift_exact_def if_True c_def [symmetric])
      (simp add: ucast_word_of_int_down)
qed

lemmas round64 = round64_s [unfolded push_bit_of_1] round64_u [unfolded push_bit_of_1]

lemma rshl32_exact:
  "neon_rshl_s32 a b = word_of_int (rshift_exact (sint a) (shift_amount b))"
  "neon_rshl_u32 a b = word_of_int (rshift_exact (uint a) (shift_amount b))"
  using rshift_out_s [of b a] rshift_out_u [of b a] rshift_top_u [of a]
  by (auto simp: neon_rshl_s32_def neon_rshl_u32_def Let_def round64 shift_pos
      drop_bit_word_of_int [of 31] push_bit_eq_mult exp_out not_less not_le)

text \<open>The 64 bit helpers shift one place short, add one and halve; the one overflow is a case of its own.\<close>

lemma half_round_s:
  "(if v = 0x7fffffffffffffff then 0x4000000000000000 else signed_drop_bit 1 (v + 1)) =
    (word_of_int ((sint v + 1) div 2) :: u64)"
proof (cases "v = 0x7fffffffffffffff")
  case False
  then have "sint v \<noteq> 9223372036854775807" unfolding word_eq_iff_sint by simp
  then have "sint (v + 1) = sint v + 1"
    using sint_ranges(7,8) [of v] by (subst sint_add_exact) simp_all
  then show ?thesis using False by (simp add: signed_drop_bit_word_of_int)
qed simp

lemma half_round_u:
  "(if v = 0xffffffffffffffff then 0x8000000000000000 else drop_bit 1 (v + 1)) =
    (word_of_int ((uint v + 1) div 2) :: u64)"
proof (cases "v = 0xffffffffffffffff")
  case False
  then have "uint v \<noteq> 18446744073709551615" unfolding word_uint_eq_iff by simp
  then have "uint (v + 1) = uint v + 1"
    using uint_ranges(4) [of v] by (simp add: uint_plus_if')
  then show ?thesis using False by (simp only: drop_bit_word_of_int if_False power_one_right)
qed simp

lemma rshl64_exact:
  "neon_rshl_s64 a b = word_of_int (rshift_exact (sint a) (shift_amount b))"
  "neon_rshl_u64 a b = word_of_int (rshift_exact (uint a) (shift_amount b))"
proof -
  have n: "nat (- s - 1) = nat (- 1 - s)" for s :: int by simp
  have d: "sint (signed_drop_bit n a) = sint a div 2 ^ n" for n
    by (simp add: sint_signed_drop_bit_eq drop_bit_eq_div)
  show "neon_rshl_s64 a b = word_of_int (rshift_exact (sint a) (shift_amount b))"
    using rshift_out_s [of b a]
    by (simp add: neon_rshl_s64_def Let_def half_round_s n d rshift_neg shift_pos push_bit_eq_mult exp_out not_less)
  show "neon_rshl_u64 a b = word_of_int (rshift_exact (uint a) (shift_amount b))"
    using rshift_out_u [of b a] rshift_top_u [of a]
    by (auto simp: neon_rshl_u64_def Let_def half_round_u n uint_drop_bit rshift_neg [of "shift_amount b"] shift_pos
        drop_bit_word_of_int [of 63] push_bit_eq_mult exp_out not_less)
qed

section \<open>Saturating shifts are clamped exact shifts\<close>

lemma usat_right:
  "s < 0 \<Longrightarrow> usat_res (shift_exact (uint x) s) env = (word_of_int (shift_exact (uint x) s) :: 'l::len word, env)"
  "s < 0 \<Longrightarrow> usat_res (rshift_exact (uint x) s) env = (word_of_int (rshift_exact (uint x) s) :: 'l::len word, env)"
  for x :: "'l::len word"
proof -
  assume s: "s < 0"
  have p: "- (2 ^ LENGTH('l)) \<le> uint x" "uint x < 2 ^ LENGTH('l)" "(1::int) \<le> 2 ^ LENGTH('l)"
    using uint_range [of x] one_le_power [of "2::int" "LENGTH('l)"] by linarith+
  show "usat_res (shift_exact (uint x) s) env = (word_of_int (shift_exact (uint x) s) :: 'l word, env)"
    using div_range [OF p(1,2)] s
    by (intro usat_res_id) (simp_all add: shift_exact_def pos_imp_zdiv_nonneg_iff)
  show "usat_res (rshift_exact (uint x) s) env = (word_of_int (rshift_exact (uint x) s) :: 'l word, env)"
    using rshift_range [OF s p(3,1,2)] rshift_nonneg [OF s] by (intro usat_res_id) simp_all
qed

lemma ssat_right:
  "s < 0 \<Longrightarrow> ssat_res (shift_exact (sint x) s) env = (word_of_int (shift_exact (sint x) s) :: 'l::len word, env)"
  "s < 0 \<Longrightarrow> ssat_res (rshift_exact (sint x) s) env = (word_of_int (rshift_exact (sint x) s) :: 'l::len word, env)"
  for x :: "'l::len word"
proof -
  assume s: "s < 0"
  have p: "- (2 ^ (LENGTH('l) - 1)) \<le> sint x" "sint x < 2 ^ (LENGTH('l) - 1)" "(1::int) \<le> 2 ^ (LENGTH('l) - 1)"
    using sint_range [of x] one_le_power [of "2::int" "LENGTH('l) - 1"] by linarith+
  show "ssat_res (shift_exact (sint x) s) env = (word_of_int (shift_exact (sint x) s) :: 'l word, env)"
    using div_range [OF p(1,2)] s by (intro ssat_res_id) (simp_all add: shift_exact_def)
  show "ssat_res (rshift_exact (sint x) s) env = (word_of_int (rshift_exact (sint x) s) :: 'l word, env)"
    using rshift_range [OF s p(3,1,2)] by (intro ssat_res_id) simp_all
qed

lemma usat_left:
  "(if drop_bit n (push_bit n x) \<noteq> x then (- 1, SET_QC env) else (push_bit n x, env)) =
    (usat_res (uint x * 2 ^ n) env :: 'l::len word \<times> _)" for x :: "'l::len word"
  by (rule usat_res_ifI [OF shift_back_u]) (simp_all add: push_bit_eq_mult not_less)

lemma usat_left_out:
  fixes x :: "'l::len word"
  assumes "LENGTH('l) \<le> n"
  shows "(if x \<noteq> 0 then (- 1, SET_QC env) else (0, env)) = (usat_res (uint x * 2 ^ n) env :: 'l::len word \<times> _)"
proof (cases "x = 0")
  case False
  then have "uint x \<noteq> 0" by (simp add: word_uint_eq_iff)
  then have "1 \<le> uint x" using uint_range(1) [of x] by linarith
  then have "1 * 2 ^ LENGTH('l) \<le> uint x * 2 ^ n"
    using assms by (intro mult_mono power_increasing) auto
  then show ?thesis using False by (simp add: usat_res_over)
qed (simp add: usat_res_id)

lemma ssat_left:
  fixes x :: "'l::len word"
  assumes "x \<noteq> 0 \<Longrightarrow> M = word_of_int (if sint x < 0 then - (2 ^ (LENGTH('l) - 1)) else 2 ^ (LENGTH('l) - 1) - 1)"
  shows "(if signed_drop_bit n (push_bit n x) \<noteq> x then (M, SET_QC env) else (push_bit n x, env)) =
    (ssat_res (sint x * 2 ^ n) env :: 'l::len word \<times> _)"
proof (rule ssat_res_ifI [OF shift_back_s])
  assume "signed_drop_bit n (push_bit n x) \<noteq> x"
  then have "x \<noteq> 0" by auto
  then show "M = word_of_int (if sint x * 2 ^ n < 0 then - (2 ^ (LENGTH('l) - 1)) else 2 ^ (LENGTH('l) - 1) - 1)"
    using assms by (simp add: mult_less_0_iff)
qed (simp add: push_bit_eq_mult)

lemma ssat_left_out:
  fixes x :: "'l::len word"
  assumes "LENGTH('l) \<le> n"
    and "x \<noteq> 0 \<Longrightarrow> M = word_of_int (if sint x < 0 then - (2 ^ (LENGTH('l) - 1)) else 2 ^ (LENGTH('l) - 1) - 1)"
  shows "(if x \<noteq> 0 then (M, SET_QC env) else (0, env)) = (ssat_res (sint x * 2 ^ n) env :: 'l::len word \<times> _)"
proof (cases "x = 0")
  case False
  have p: "(2::int) ^ (LENGTH('l) - 1) < 2 ^ n" using assms(1) len_gt_0 [where 'a = 'l]
    by (intro power_strict_increasing) linarith+
  have "sint x \<noteq> 0" using False by (simp add: word_eq_iff_sint)
  then consider "sint x \<le> - 1" | "1 \<le> sint x" by linarith
  then show ?thesis
  proof cases
    case 1
    then have "sint x * 2 ^ n \<le> - 1 * 2 ^ n" by (intro mult_right_mono) auto
    then have "sint x * 2 ^ n < - (2 ^ (LENGTH('l) - 1))"
      using p by linarith
    then show ?thesis using False 1 assms(2) by (simp add: ssat_res_under del: One_nat_def)
  next
    case 2
    then have "1 * 2 ^ n \<le> sint x * 2 ^ n" by (intro mult_right_mono) auto
    then have "2 ^ (LENGTH('l) - 1) \<le> sint x * 2 ^ n"
      using p by linarith
    then show ?thesis using False 2 assms(2) by (simp add: ssat_res_over del: One_nat_def)
  qed
qed (simp add: ssat_res_id)

text \<open>The three ways the code writes the signed bound on the side of the operand.\<close>

lemma smax_bound:
  assumes "LENGTH('l) \<le> 32" "x \<noteq> 0"
  shows "neon_smax x = word_of_int (if sint (x::'l::len word) < 0 then - (2 ^ (LENGTH('l) - 1)) else 2 ^ (LENGTH('l) - 1) - 1)"
proof -
  have "sint x \<noteq> 0" using assms(2) by (simp add: word_eq_iff_sint)
  moreover have "(2 ^ (LENGTH('l) - 1) :: 'l word) = - (2 ^ (LENGTH('l) - 1))"
    using top_bit_double [where 'l = 'l] by (simp only: eq_neg_iff_add_eq_0 top_bit_def)
  ultimately show ?thesis
    using assms(1) lane_bounds(2) [where 'l = 'l]
    by (auto simp: neon_smax_def Let_def simp del: One_nat_def push_bit_of_1)
qed

lemma bound32: "signed_drop_bit 31 x XOR NOT SIGNBIT =
    word_of_int (if sint x < 0 then - (2 ^ (LENGTH(32) - 1)) else 2 ^ (LENGTH(32) - 1) - 1)"
  by (simp add: signed_drop_bit_sign32 bit_last_iff [symmetric] SIGNBIT_def)

lemma bound64: "signed_drop_bit 63 x XOR NOT SIGNBIT64 =
    word_of_int (if sint x < 0 then - (2 ^ (LENGTH(64) - 1)) else 2 ^ (LENGTH(64) - 1) - 1)"
  unfolding saturated64 by simp

lemma size_amount: "int LENGTH('l::len) \<le> s \<Longrightarrow> LENGTH('l) \<le> nat s \<and> \<not> s < 0"
  by (simp add: nat_le_iff le_nat_iff)

lemma FN_qshl_u_exact: "NEON_FN_qshl_u env x y = usat_res (shift_exact (uint x) (shift_amount y)) env"
  for x y :: "'l::len word"
proof (cases "shift_amount y < 0")
  case True
  then have "NEON_FN_qshl_u env x y = (NEON_FN_shl_u x y, env)"
    by (auto simp: NEON_FN_qshl_u_def NEON_FN_shl_u_def Let_def)
  then show ?thesis using True by (simp add: FN_shl_u_exact usat_right)
next
  case False
  then show ?thesis
    using amount_size [of y, where 'l = 'l] size_amount [where 'l = 'l, of "shift_amount y"]
    by (cases "int LENGTH('l) \<le> shift_amount y")
      (simp_all add: NEON_FN_qshl_u_def Let_def shift_pos usat_left [symmetric] usat_left_out [symmetric])
qed

lemma shift31_lane:
  "LENGTH('l) \<le> 32 \<Longrightarrow> ucast (signed_drop_bit 31 (scast x :: u32)) = signed_drop_bit (LENGTH('l) - 1) (x::'l::len word)"
proof (rule bit_word_eqI)
  fix n assume "LENGTH('l) \<le> 32" "n < LENGTH('l)"
  then show "bit (ucast (signed_drop_bit 31 (scast x :: u32)) :: 'l word) n = bit (signed_drop_bit (LENGTH('l) - 1) x) n"
    by (cases n) (auto simp: bit_simps min_def)
qed

lemma FN_qshl_s_exact:
  "LENGTH('l) \<le> 32 \<Longrightarrow> NEON_FN_qshl_s env x (y::'l::len word) = ssat_res (shift_exact (sint x) (shift_amount y)) env"
proof (cases "shift_amount y < 0")
  case True
  assume "LENGTH('l) \<le> 32"
  then have "NEON_FN_qshl_s env x y = (NEON_FN_shl_s x y, env)"
    using True by (auto simp: NEON_FN_qshl_s_def NEON_FN_shl_s_def Let_def shift31_lane)
  then show ?thesis using True by (simp add: FN_shl_s_exact ssat_right)
next
  case False
  assume "LENGTH('l) \<le> 32"
  with False show ?thesis
    using amount_size [of y, where 'l = 'l] size_amount [where 'l = 'l, of "shift_amount y"]
      ssat_left [of x "neon_smax x" "nat (shift_amount y)" env, OF smax_bound]
      ssat_left_out [of "nat (shift_amount y)" x "neon_smax x" env, OF _ smax_bound]
    by (cases "int LENGTH('l) \<le> shift_amount y") (auto simp: NEON_FN_qshl_s_def Let_def shift_pos)
qed

lemma qshl_u64_exact: "neon_qshl_u64 env a b = usat_res (shift_exact (uint a) (shift_amount b)) env"
  unfolding FN_qshl_u_exact [symmetric]
  by (auto simp: neon_qshl_u64_def NEON_FN_qshl_u_def Let_def)

lemma qshl_s64_exact: "neon_qshl_s64 env a b = ssat_res (shift_exact (sint a) (shift_amount b)) env"
proof (cases "shift_amount b < 0")
  case True
  then have "neon_qshl_s64 env a b = (neon_shl_s64 a b, env)"
    by (auto simp: neon_qshl_s64_def neon_shl_s64_def Let_def)
  then show ?thesis using True by (simp add: shl64_exact ssat_right)
next
  case False
  then show ?thesis
    using ssat_left [of a _ "nat (shift_amount b)" env, OF bound64]
      ssat_left_out [of "nat (shift_amount b)" a _ env, OF _ bound64]
    by (cases "64 \<le> shift_amount b") (auto simp: neon_qshl_s64_def Let_def shift_pos)
qed

text \<open>A signed operand shifted into an unsigned lane: a negative operand clamps to zero.\<close>

lemma shift_exact_negative: "k < 0 \<Longrightarrow> shift_exact k s < 0"
  by (auto simp: shift_exact_def pos_imp_zdiv_neg_iff mult_neg_pos)

lemma usat_negative: "sint (x::'l::len word) < 0 \<Longrightarrow> usat_res (shift_exact (sint x) s) env = (0 :: 'l word, SET_QC env)"
  by (intro usat_res_under shift_exact_negative)

lemma sint_eq_uint_nonneg: "\<not> sint x < 0 \<Longrightarrow> sint x = uint (x::'l::len word)"
proof -
  assume "\<not> sint x < 0"
  then have "\<not> bit x (LENGTH('l) - 1)" by (simp add: bit_last_iff)
  then show ?thesis using sint_uint_cases [of x] by (simp only: if_False)
qed

lemma FN_qshlu_exact:
  "LENGTH('l) \<le> 32 \<Longrightarrow> NEON_FN_qshlu env x (y::'l::len word) = usat_res (shift_exact (sint x) (shift_amount y)) env"
proof -
  assume "LENGTH('l) \<le> 32"
  then have "(ucast (push_bit (LENGTH('l) - 1) (1 :: u32)) :: 'l word) = top_bit"
    by (intro bit_word_eqI) (auto simp: bit_simps)
  then have "x AND ucast (push_bit (LENGTH('l) - 1) (1 :: u32)) \<noteq> 0 \<longleftrightarrow> sint x < 0"
    by (simp only: top_bit_def and_exp_eq_0_iff_not_bit bit_last_iff not_not One_nat_def)
  then show ?thesis
    using FN_qshl_u_exact [of env x y] usat_negative [of x "shift_amount y" env] sint_eq_uint_nonneg [of x]
    by (auto simp: NEON_FN_qshlu_def NEON_FN_qshl_u_def simp del: push_bit_of_1)
qed

lemma qshlu64_exact: "neon_qshlu_s64 env c d = usat_res (shift_exact (sint c) (shift_amount d)) env"
  by (simp add: neon_qshlu_s64_def usat_negative sint_eq_uint_nonneg qshl_u64_exact)

lemma FN_qrshl_u_exact:
  "LENGTH('l) \<le> 16 \<Longrightarrow> NEON_FN_qrshl_u env x (y::'l::len word) = usat_res (rshift_exact (uint x) (shift_amount y)) env"
proof (cases "shift_amount y < 0")
  case True
  assume "LENGTH('l) \<le> 16"
  moreover have "NEON_FN_qrshl_u env x y = (NEON_FN_rshl_u x y, env)"
    using True by (auto simp: NEON_FN_qrshl_u_def NEON_FN_rshl_u_def Let_def nat_int_minus_1)
  ultimately show ?thesis using True by (simp add: FN_rshl_u_exact usat_right)
next
  case False
  then show ?thesis
    using amount_size [of y, where 'l = 'l] size_amount [where 'l = 'l, of "shift_amount y"]
    by (cases "int LENGTH('l) \<le> shift_amount y")
      (auto simp: NEON_FN_qrshl_u_def Let_def shift_pos usat_left [symmetric] usat_left_out [symmetric])
qed

lemma FN_qrshl_s_exact:
  "LENGTH('l) \<le> 16 \<Longrightarrow> NEON_FN_qrshl_s env x (y::'l::len word) = ssat_res (rshift_exact (sint x) (shift_amount y)) env"
proof (cases "shift_amount y < 0")
  case True
  assume "LENGTH('l) \<le> 16"
  moreover have "NEON_FN_qrshl_s env x y = (NEON_FN_rshl_s x y, env)"
    using True by (auto simp: NEON_FN_qrshl_s_def NEON_FN_rshl_s_def Let_def)
  ultimately show ?thesis using True by (simp add: FN_rshl_s_exact ssat_right)
next
  case False
  assume "LENGTH('l) \<le> 16"
  with False show ?thesis
    using amount_size [of y, where 'l = 'l] size_amount [where 'l = 'l, of "shift_amount y"]
      ssat_left [of x "neon_smax x" "nat (shift_amount y)" env, OF smax_bound]
      ssat_left_out [of "nat (shift_amount y)" x "neon_smax x" env, OF _ smax_bound]
    by (cases "int LENGTH('l) \<le> shift_amount y") (auto simp: NEON_FN_qrshl_s_def Let_def shift_pos)
qed

lemma qrshl_u32_exact: "neon_qrshl_u32 env a b = usat_res (rshift_exact (uint a) (shift_amount b)) env"
proof (cases "shift_amount b < 0")
  case True
  then have "neon_qrshl_u32 env a b = (neon_rshl_u32 a b, env)"
    by (auto simp: neon_qrshl_u32_def neon_rshl_u32_def Let_def)
  then show ?thesis using True by (simp add: rshl32_exact usat_right)
next
  case False
  then show ?thesis
    by (cases "32 \<le> shift_amount b")
      (auto simp: neon_qrshl_u32_def Let_def shift_pos usat_left [symmetric] usat_left_out [symmetric])
qed

lemma qrshl_s32_exact: "neon_qrshl_s32 env a b = ssat_res (rshift_exact (sint a) (shift_amount b)) env"
proof (cases "shift_amount b < 0")
  case True
  then have "neon_qrshl_s32 env a b = (neon_rshl_s32 a b, env)"
    by (auto simp: neon_qrshl_s32_def neon_rshl_s32_def Let_def)
  then show ?thesis using True by (simp add: rshl32_exact ssat_right)
next
  case False
  then show ?thesis
    using ssat_left [of a _ "nat (shift_amount b)" env, OF bound32]
      ssat_left_out [of "nat (shift_amount b)" a _ env, OF _ bound32]
    by (cases "32 \<le> shift_amount b") (auto simp: neon_qrshl_s32_def Let_def shift_pos)
qed

lemma qrshl_u64_exact: "neon_qrshl_u64 env a b = usat_res (rshift_exact (uint a) (shift_amount b)) env"
proof (cases "shift_amount b < 0")
  case True
  then have "neon_qrshl_u64 env a b = (neon_rshl_u64 a b, env)"
    by (auto simp: neon_qrshl_u64_def neon_rshl_u64_def Let_def)
  then show ?thesis using True by (simp add: rshl64_exact usat_right)
next
  case False
  then show ?thesis
    using usat_left_out [of "nat (shift_amount b)" a env]
    by (cases "64 \<le> shift_amount b")
      (auto simp: neon_qrshl_u64_def Let_def shift_pos usat_left [symmetric])
qed

lemma qrshl_s64_exact: "neon_qrshl_s64 env a b = ssat_res (rshift_exact (sint a) (shift_amount b)) env"
proof (cases "shift_amount b < 0")
  case True
  then have "neon_qrshl_s64 env a b = (neon_rshl_s64 a b, env)"
    by (auto simp: neon_qrshl_s64_def neon_rshl_s64_def Let_def)
  then show ?thesis using True by (simp add: rshl64_exact ssat_right)
next
  case False
  then show ?thesis
    using ssat_left [of a _ "nat (shift_amount b)" env, OF bound64]
      ssat_left_out [of "nat (shift_amount b)" a _ env, OF _ bound64]
    by (cases "64 \<le> shift_amount b") (auto simp: neon_qrshl_s64_def Let_def shift_pos)
qed

lemma qshl_u8_vop: "neon_qshl_u8 = usat_vop neon_unpack8 neon_pack8 (\<lambda>x y. shift_exact (uint x) (shift_amount y))"
  unfolding neon_qshl_u8_def usat_vop_def l8.length_unpack
  by (intro ext l8.VOP_ENV_flag) (simp add: FN_qshl_u_exact usat_res_def)

lemma qshl_u16_vop: "neon_qshl_u16 = usat_vop neon_unpack16 neon_pack16 (\<lambda>x y. shift_exact (uint x) (shift_amount y))"
  unfolding neon_qshl_u16_def usat_vop_def l16.length_unpack
  by (intro ext l16.VOP_ENV_flag) (simp add: FN_qshl_u_exact usat_res_def)

lemma qshl_u32_vop: "neon_qshl_u32 = usat_vop neon_unpack32 neon_pack32 (\<lambda>x y. shift_exact (uint x) (shift_amount y))"
  unfolding neon_qshl_u32_def usat_vop_def l32.length_unpack
  by (intro ext l32.VOP_ENV_flag) (simp add: FN_qshl_u_exact usat_res_def)

lemma qshl_s8_vop: "neon_qshl_s8 = ssat_vop neon_unpack8 neon_pack8 (\<lambda>x y. shift_exact (sint x) (shift_amount y))"
  unfolding neon_qshl_s8_def ssat_vop_def l8.length_unpack
  by (intro ext l8.VOP_ENV_flag) (simp add: FN_qshl_s_exact ssat_res_def)

lemma qshl_s16_vop: "neon_qshl_s16 = ssat_vop neon_unpack16 neon_pack16 (\<lambda>x y. shift_exact (sint x) (shift_amount y))"
  unfolding neon_qshl_s16_def ssat_vop_def l16.length_unpack
  by (intro ext l16.VOP_ENV_flag) (simp add: FN_qshl_s_exact ssat_res_def)

lemma qshl_s32_vop: "neon_qshl_s32 = ssat_vop neon_unpack32 neon_pack32 (\<lambda>x y. shift_exact (sint x) (shift_amount y))"
  unfolding neon_qshl_s32_def ssat_vop_def l32.length_unpack
  by (intro ext l32.VOP_ENV_flag) (simp add: FN_qshl_s_exact ssat_res_def)

lemma qshlu_s8_vop: "neon_qshlu_s8 = usat_vop neon_unpack8 neon_pack8 (\<lambda>x y. shift_exact (sint x) (shift_amount y))"
  unfolding neon_qshlu_s8_def usat_vop_def l8.length_unpack
  by (intro ext l8.VOP_ENV_flag) (simp add: FN_qshlu_exact usat_res_def)

lemma qshlu_s16_vop: "neon_qshlu_s16 = usat_vop neon_unpack16 neon_pack16 (\<lambda>x y. shift_exact (sint x) (shift_amount y))"
  unfolding neon_qshlu_s16_def usat_vop_def l16.length_unpack
  by (intro ext l16.VOP_ENV_flag) (simp add: FN_qshlu_exact usat_res_def)

lemma qrshl_u8_vop: "neon_qrshl_u8 = usat_vop neon_unpack8 neon_pack8 (\<lambda>x y. rshift_exact (uint x) (shift_amount y))"
  unfolding neon_qrshl_u8_def usat_vop_def l8.length_unpack
  by (intro ext l8.VOP_ENV_flag) (simp add: FN_qrshl_u_exact usat_res_def)

lemma qrshl_u16_vop: "neon_qrshl_u16 = usat_vop neon_unpack16 neon_pack16 (\<lambda>x y. rshift_exact (uint x) (shift_amount y))"
  unfolding neon_qrshl_u16_def usat_vop_def l16.length_unpack
  by (intro ext l16.VOP_ENV_flag) (simp add: FN_qrshl_u_exact usat_res_def)

lemma qrshl_s8_vop: "neon_qrshl_s8 = ssat_vop neon_unpack8 neon_pack8 (\<lambda>x y. rshift_exact (sint x) (shift_amount y))"
  unfolding neon_qrshl_s8_def ssat_vop_def l8.length_unpack
  by (intro ext l8.VOP_ENV_flag) (simp add: FN_qrshl_s_exact ssat_res_def)

lemma qrshl_s16_vop: "neon_qrshl_s16 = ssat_vop neon_unpack16 neon_pack16 (\<lambda>x y. rshift_exact (sint x) (shift_amount y))"
  unfolding neon_qrshl_s16_def ssat_vop_def l16.length_unpack
  by (intro ext l16.VOP_ENV_flag) (simp add: FN_qrshl_s_exact ssat_res_def)

lemma vop32_single:
  "usat_vop neon_unpack32 neon_pack32 h env a b = usat_res (h a b) env"
  by (simp add: usat_vop_def usat_res_def NEON_VOP_def neon_unpack32_def neon_pack32_def)

lemma qshlu32_exact: "neon_qshlu_s32 env a b = usat_res (shift_exact (sint a) (shift_amount b)) env"
  by (simp add: neon_qshlu_s32_def usat_negative sint_eq_uint_nonneg qshl_u32_vop vop32_single)

lemmas neon_shift_defs =
  neon_shl_u8_def neon_shl_u16_def neon_shl_u32_def neon_shl_s8_def neon_shl_s16_def neon_shl_s32_def
  neon_rshl_u8_def neon_rshl_u16_def neon_rshl_s8_def neon_rshl_s16_def

section \<open>Properties\<close>

text \<open>
  C11. The plain and the rounding shifts store, in every lane, the exact shift of the lane's
  value by the signed low byte of the shift operand: multiplication by a power of two to the
  left, division rounding down (or to nearest, for \<^verbatim>\<open>rshl\<close>) to the right, for every amount from
  -128 to 127, beyond the lane's width included.
\<close>

theorem neon_shift_correct:
  "neon_shl_u8 = NEON_VOP neon_unpack8 neon_pack8 (\<lambda>x y. word_of_int (shift_exact (uint x) (shift_amount y))) \<and>
   neon_shl_u16 = NEON_VOP neon_unpack16 neon_pack16 (\<lambda>x y. word_of_int (shift_exact (uint x) (shift_amount y))) \<and>
   neon_shl_u32 = NEON_VOP neon_unpack32 neon_pack32 (\<lambda>x y. word_of_int (shift_exact (uint x) (shift_amount y))) \<and>
   neon_shl_s8 = NEON_VOP neon_unpack8 neon_pack8 (\<lambda>x y. word_of_int (shift_exact (sint x) (shift_amount y))) \<and>
   neon_shl_s16 = NEON_VOP neon_unpack16 neon_pack16 (\<lambda>x y. word_of_int (shift_exact (sint x) (shift_amount y))) \<and>
   neon_shl_s32 = NEON_VOP neon_unpack32 neon_pack32 (\<lambda>x y. word_of_int (shift_exact (sint x) (shift_amount y))) \<and>
   neon_shl_u64 c d = word_of_int (shift_exact (uint c) (shift_amount d)) \<and>
   neon_shl_s64 c d = word_of_int (shift_exact (sint c) (shift_amount d)) \<and>
   neon_rshl_u8 = NEON_VOP neon_unpack8 neon_pack8 (\<lambda>x y. word_of_int (rshift_exact (uint x) (shift_amount y))) \<and>
   neon_rshl_u16 = NEON_VOP neon_unpack16 neon_pack16 (\<lambda>x y. word_of_int (rshift_exact (uint x) (shift_amount y))) \<and>
   neon_rshl_u32 a b = word_of_int (rshift_exact (uint a) (shift_amount b)) \<and>
   neon_rshl_s8 = NEON_VOP neon_unpack8 neon_pack8 (\<lambda>x y. word_of_int (rshift_exact (sint x) (shift_amount y))) \<and>
   neon_rshl_s16 = NEON_VOP neon_unpack16 neon_pack16 (\<lambda>x y. word_of_int (rshift_exact (sint x) (shift_amount y))) \<and>
   neon_rshl_s32 a b = word_of_int (rshift_exact (sint a) (shift_amount b)) \<and>
   neon_rshl_u64 c d = word_of_int (rshift_exact (uint c) (shift_amount d)) \<and>
   neon_rshl_s64 c d = word_of_int (rshift_exact (sint c) (shift_amount d))"
  unfolding neon_shift_defs FN_shl_u_exact [abs_def] FN_shl_s_exact [abs_def]
    FN_rshl_u_exact [where 'l = 8, simplified, abs_def] FN_rshl_u_exact [where 'l = 16, simplified, abs_def]
    FN_rshl_s_exact [where 'l = 8, simplified, abs_def] FN_rshl_s_exact [where 'l = 16, simplified, abs_def]
    shl64_exact rshl32_exact rshl64_exact
  by (intro conjI refl)

text \<open>
  C12. The saturating shifts (\<^verbatim>\<open>qshl\<close>, \<^verbatim>\<open>qshlu\<close>, \<^verbatim>\<open>qrshl\<close>) clamp the same exact shift to the lane's range
  and raise \<open>QC\<close> exactly when a lane was clamped; \<^verbatim>\<open>qshlu\<close> reads its operand as signed and clamps
  it to the unsigned range.
\<close>

theorem neon_qshift_correct:
  "neon_qshl_u8 = usat_vop neon_unpack8 neon_pack8 (\<lambda>x y. shift_exact (uint x) (shift_amount y)) \<and>
   neon_qshl_u16 = usat_vop neon_unpack16 neon_pack16 (\<lambda>x y. shift_exact (uint x) (shift_amount y)) \<and>
   neon_qshl_u32 = usat_vop neon_unpack32 neon_pack32 (\<lambda>x y. shift_exact (uint x) (shift_amount y)) \<and>
   neon_qshl_s8 = ssat_vop neon_unpack8 neon_pack8 (\<lambda>x y. shift_exact (sint x) (shift_amount y)) \<and>
   neon_qshl_s16 = ssat_vop neon_unpack16 neon_pack16 (\<lambda>x y. shift_exact (sint x) (shift_amount y)) \<and>
   neon_qshl_s32 = ssat_vop neon_unpack32 neon_pack32 (\<lambda>x y. shift_exact (sint x) (shift_amount y)) \<and>
   neon_qshl_u64 env c d = usat_res (shift_exact (uint c) (shift_amount d)) env \<and>
   neon_qshl_s64 env c d = ssat_res (shift_exact (sint c) (shift_amount d)) env \<and>
   neon_qshlu_s8 = usat_vop neon_unpack8 neon_pack8 (\<lambda>x y. shift_exact (sint x) (shift_amount y)) \<and>
   neon_qshlu_s16 = usat_vop neon_unpack16 neon_pack16 (\<lambda>x y. shift_exact (sint x) (shift_amount y)) \<and>
   neon_qshlu_s32 env a b = usat_res (shift_exact (sint a) (shift_amount b)) env \<and>
   neon_qshlu_s64 env c d = usat_res (shift_exact (sint c) (shift_amount d)) env \<and>
   neon_qrshl_u8 = usat_vop neon_unpack8 neon_pack8 (\<lambda>x y. rshift_exact (uint x) (shift_amount y)) \<and>
   neon_qrshl_u16 = usat_vop neon_unpack16 neon_pack16 (\<lambda>x y. rshift_exact (uint x) (shift_amount y)) \<and>
   neon_qrshl_u32 env a b = usat_res (rshift_exact (uint a) (shift_amount b)) env \<and>
   neon_qrshl_s8 = ssat_vop neon_unpack8 neon_pack8 (\<lambda>x y. rshift_exact (sint x) (shift_amount y)) \<and>
   neon_qrshl_s16 = ssat_vop neon_unpack16 neon_pack16 (\<lambda>x y. rshift_exact (sint x) (shift_amount y)) \<and>
   neon_qrshl_s32 env a b = ssat_res (rshift_exact (sint a) (shift_amount b)) env \<and>
   neon_qrshl_u64 env c d = usat_res (rshift_exact (uint c) (shift_amount d)) env \<and>
   neon_qrshl_s64 env c d = ssat_res (rshift_exact (sint c) (shift_amount d)) env"
  by (intro conjI qshl_u8_vop qshl_u16_vop qshl_u32_vop qshl_s8_vop qshl_s16_vop qshl_s32_vop qshlu_s8_vop qshlu_s16_vop qrshl_u8_vop qrshl_u16_vop qrshl_s8_vop qrshl_s16_vop
    qshl_u64_exact qshl_s64_exact qshlu32_exact qshlu64_exact
    qrshl_u32_exact qrshl_s32_exact qrshl_u64_exact qrshl_s64_exact)

end
