(* ===== verification/Neon_Wide.thy ===== *)
theory Neon_Wide
  imports Neon_Shift
begin

text \<open>
  The helpers of \<^verbatim>\<open>target-arm/neon_helper.c\<close> that mix lane widths: saturating doubling multiply
  high, narrowing (plain, high half, rounding, saturating), widening, and the long operations
  on 64-bit vectors. The lanes of a 64-bit vector are read with \<open>d_unpack16\<close> and \<open>d_unpack32\<close>, two
  more interpretations of the layout contract.
\<close>

section \<open>Lanes of a 64-bit vector\<close>

definition d_unpack16 :: "u64 \<Rightarrow> u16 list" where
  "d_unpack16 x = [ucast x, ucast (drop_bit 16 x), ucast (drop_bit 32 x), ucast (drop_bit 48 x)]"

definition d_pack16 :: "u16 list \<Rightarrow> u64" where
  "d_pack16 v = ucast (v ! 0) OR push_bit 16 (ucast (v ! 1)) OR push_bit 32 (ucast (v ! 2)) OR push_bit 48 (ucast (v ! 3))"

definition d_unpack32 :: "u64 \<Rightarrow> u32 list" where
  "d_unpack32 x = [ucast x, ucast (drop_bit 32 x)]"

definition d_pack32 :: "u32 list \<Rightarrow> u64" where
  "d_pack32 v = ucast (v ! 0) OR push_bit 32 (ucast (v ! 1))"

section \<open>Saturating doubling multiply high\<close>

definition NEON_QDMULH16 :: "bool \<Rightarrow> CPUARMState \<Rightarrow> u16 \<Rightarrow> u16 \<Rightarrow> u16 \<times> CPUARMState" where
  "NEON_QDMULH16 round env src1 src2 =
     (let tmp = (scast src1 :: u32) * scast src2;
          (tmp, env) = (if (tmp XOR push_bit 1 tmp) AND SIGNBIT \<noteq> 0
                        then (drop_bit 31 tmp XOR NOT SIGNBIT, SET_QC env) else (push_bit 1 tmp, env));
          (tmp, env) = (if round then
                          let old = tmp; tmp = tmp + push_bit 15 1
                          in if sint tmp < sint old then (SIGNBIT - 1, SET_QC env) else (tmp, env)
                        else (tmp, env))
      in (ucast (drop_bit 16 tmp), env))"

definition neon_qdmulh_s16 :: "CPUARMState \<Rightarrow> u32 \<Rightarrow> u32 \<Rightarrow> u32 \<times> CPUARMState" where
  "neon_qdmulh_s16 = NEON_VOP_ENV neon_unpack16 neon_pack16 (NEON_QDMULH16 False)"

definition neon_qrdmulh_s16 :: "CPUARMState \<Rightarrow> u32 \<Rightarrow> u32 \<Rightarrow> u32 \<times> CPUARMState" where
  "neon_qrdmulh_s16 = NEON_VOP_ENV neon_unpack16 neon_pack16 (NEON_QDMULH16 True)"

definition NEON_QDMULH32 :: "bool \<Rightarrow> CPUARMState \<Rightarrow> u32 \<Rightarrow> u32 \<Rightarrow> u32 \<times> CPUARMState" where
  "NEON_QDMULH32 round env src1 src2 =
     (let tmp = (scast src1 :: u64) * scast src2;
          (tmp, env) = (if (tmp XOR push_bit 1 tmp) AND SIGNBIT64 \<noteq> 0
                        then (drop_bit 63 tmp XOR NOT SIGNBIT64, SET_QC env) else (push_bit 1 tmp, env));
          (tmp, env) = (if round then
                          let old = tmp; tmp = tmp + push_bit 31 1
                          in if sint tmp < sint old then (SIGNBIT64 - 1, SET_QC env) else (tmp, env)
                        else (tmp, env))
      in (ucast (drop_bit 32 tmp), env))"

definition neon_qdmulh_s32 :: "CPUARMState \<Rightarrow> u32 \<Rightarrow> u32 \<Rightarrow> u32 \<times> CPUARMState" where
  "neon_qdmulh_s32 = NEON_VOP_ENV neon_unpack32 neon_pack32 (NEON_QDMULH32 False)"

definition neon_qrdmulh_s32 :: "CPUARMState \<Rightarrow> u32 \<Rightarrow> u32 \<Rightarrow> u32 \<times> CPUARMState" where
  "neon_qrdmulh_s32 = NEON_VOP_ENV neon_unpack32 neon_pack32 (NEON_QDMULH32 True)"

section \<open>Narrowing\<close>

definition neon_narrow_u8 :: "u64 \<Rightarrow> u32" where
  "neon_narrow_u8 x = ucast ((x AND 0xff) OR (drop_bit 8 x AND 0xff00) OR (drop_bit 16 x AND 0xff0000)
     OR (drop_bit 24 x AND 0xff000000))"

definition neon_narrow_u16 :: "u64 \<Rightarrow> u32" where
  "neon_narrow_u16 x = ucast ((x AND 0xffff) OR (drop_bit 16 x AND 0xffff0000))"

definition neon_narrow_high_u8 :: "u64 \<Rightarrow> u32" where
  "neon_narrow_high_u8 x = ucast ((drop_bit 8 x AND 0xff) OR (drop_bit 16 x AND 0xff00)
     OR (drop_bit 24 x AND 0xff0000) OR (drop_bit 32 x AND 0xff000000))"

definition neon_narrow_high_u16 :: "u64 \<Rightarrow> u32" where
  "neon_narrow_high_u16 x = ucast ((drop_bit 16 x AND 0xffff) OR (drop_bit 32 x AND 0xffff0000))"

definition neon_narrow_round_high_u8 :: "u64 \<Rightarrow> u32" where
  "neon_narrow_round_high_u8 x =
     (let x = (x AND 0xff80ff80ff80ff80) + 0x0080008000800080
      in ucast ((drop_bit 8 x AND 0xff) OR (drop_bit 16 x AND 0xff00)
           OR (drop_bit 24 x AND 0xff0000) OR (drop_bit 32 x AND 0xff000000)))"

definition neon_narrow_round_high_u16 :: "u64 \<Rightarrow> u32" where
  "neon_narrow_round_high_u16 x =
     (let x = (x AND 0xffff8000ffff8000) + 0x0000800000008000
      in ucast ((drop_bit 16 x AND 0xffff) OR (drop_bit 32 x AND 0xffff0000)))"

definition SAT8_unarrow :: "nat \<Rightarrow> u64 \<Rightarrow> u32 \<times> CPUARMState \<Rightarrow> u32 \<times> CPUARMState" where
  "SAT8_unarrow n x st =
     (let (res, env) = st; s = ucast (drop_bit n x) :: u16
      in if s AND 0x8000 \<noteq> 0 then (res, SET_QC env)
         else (let (d, env) = (if s > 0xff then (0xff :: u8, SET_QC env) else (ucast s, env))
               in (res OR push_bit (n div 2) (ucast d), env)))"

definition neon_unarrow_sat8 :: "CPUARMState \<Rightarrow> u64 \<Rightarrow> u32 \<times> CPUARMState" where
  "neon_unarrow_sat8 env x =
     SAT8_unarrow 48 x (SAT8_unarrow 32 x (SAT8_unarrow 16 x (SAT8_unarrow 0 x (0, env))))"

definition SAT8_u :: "nat \<Rightarrow> u64 \<Rightarrow> u32 \<times> CPUARMState \<Rightarrow> u32 \<times> CPUARMState" where
  "SAT8_u n x st =
     (let (res, env) = st; s = ucast (drop_bit n x) :: u16;
          (d, env) = (if s > 0xff then (0xff :: u8, SET_QC env) else (ucast s, env))
      in (res OR push_bit (n div 2) (ucast d), env))"

definition neon_narrow_sat_u8 :: "CPUARMState \<Rightarrow> u64 \<Rightarrow> u32 \<times> CPUARMState" where
  "neon_narrow_sat_u8 env x = SAT8_u 48 x (SAT8_u 32 x (SAT8_u 16 x (SAT8_u 0 x (0, env))))"

definition SAT8_s :: "nat \<Rightarrow> u64 \<Rightarrow> u32 \<times> CPUARMState \<Rightarrow> u32 \<times> CPUARMState" where
  "SAT8_s n x st =
     (let (res, env) = st; s = ucast (drop_bit n x) :: u16;
          (d, env) = (if s \<noteq> scast (ucast s :: u8) then (ucast (signed_drop_bit 15 s XOR 0x7f) :: u8, SET_QC env)
                      else (ucast s, env))
      in (res OR push_bit (n div 2) (ucast d), env))"

definition neon_narrow_sat_s8 :: "CPUARMState \<Rightarrow> u64 \<Rightarrow> u32 \<times> CPUARMState" where
  "neon_narrow_sat_s8 env x = SAT8_s 48 x (SAT8_s 32 x (SAT8_s 16 x (SAT8_s 0 x (0, env))))"

definition neon_unarrow_sat16 :: "CPUARMState \<Rightarrow> u64 \<Rightarrow> u32 \<times> CPUARMState" where
  "neon_unarrow_sat16 env x =
     (let low = ucast x :: u32;
          (low, env) = (if low AND 0x80000000 \<noteq> 0 then (0, SET_QC env)
                        else if low > 0xffff then (0xffff, SET_QC env) else (low, env));
          high = ucast (drop_bit 32 x) :: u32;
          (high, env) = (if high AND 0x80000000 \<noteq> 0 then (0, SET_QC env)
                         else if high > 0xffff then (0xffff, SET_QC env) else (high, env))
      in (low OR push_bit 16 high, env))"

definition neon_narrow_sat_u16 :: "CPUARMState \<Rightarrow> u64 \<Rightarrow> u32 \<times> CPUARMState" where
  "neon_narrow_sat_u16 env x =
     (let low = ucast x :: u32;
          (low, env) = (if low > 0xffff then (0xffff, SET_QC env) else (low, env));
          high = ucast (drop_bit 32 x) :: u32;
          (high, env) = (if high > 0xffff then (0xffff, SET_QC env) else (high, env))
      in (low OR push_bit 16 high, env))"

definition neon_narrow_sat_s16 :: "CPUARMState \<Rightarrow> u64 \<Rightarrow> u32 \<times> CPUARMState" where
  "neon_narrow_sat_s16 env x =
     (let low = ucast x :: u32;
          (low, env) = (if low \<noteq> scast (ucast low :: u16) then (signed_drop_bit 31 low XOR 0x7fff, SET_QC env) else (low, env));
          high = ucast (drop_bit 32 x) :: u32;
          (high, env) = (if high \<noteq> scast (ucast high :: u16) then (signed_drop_bit 31 high XOR 0x7fff, SET_QC env) else (high, env))
      in (ucast (ucast low :: u16) OR push_bit 16 high, env))"

definition neon_unarrow_sat32 :: "CPUARMState \<Rightarrow> u64 \<Rightarrow> u32 \<times> CPUARMState" where
  "neon_unarrow_sat32 env x =
     (if x AND 0x8000000000000000 \<noteq> 0 then (0, SET_QC env)
      else if x > 0xffffffff then (0xffffffff, SET_QC env)
      else (ucast x, env))"

definition neon_narrow_sat_u32 :: "CPUARMState \<Rightarrow> u64 \<Rightarrow> u32 \<times> CPUARMState" where
  "neon_narrow_sat_u32 env x = (if x > 0xffffffff then (0xffffffff, SET_QC env) else (ucast x, env))"

definition neon_narrow_sat_s32 :: "CPUARMState \<Rightarrow> u64 \<Rightarrow> u32 \<times> CPUARMState" where
  "neon_narrow_sat_s32 env x =
     (if x \<noteq> scast (ucast x :: u32) then (ucast (signed_drop_bit 63 x XOR 0x7fffffff), SET_QC env)
      else (ucast x, env))"

section \<open>Widening\<close>

definition neon_widen_u8 :: "u32 \<Rightarrow> u64" where
  "neon_widen_u8 x =
     ucast (ucast x :: u8) OR push_bit 16 (ucast (ucast (drop_bit 8 x) :: u8))
       OR push_bit 32 (ucast (ucast (drop_bit 16 x) :: u8)) OR push_bit 48 (ucast (ucast (drop_bit 24 x) :: u8))"

definition neon_widen_s8 :: "u32 \<Rightarrow> u64" where
  "neon_widen_s8 x =
     ucast (scast (ucast x :: u8) :: u16) OR push_bit 16 (ucast (scast (ucast (drop_bit 8 x) :: u8) :: u16))
       OR push_bit 32 (ucast (scast (ucast (drop_bit 16 x) :: u8) :: u16))
       OR push_bit 48 (ucast (scast (ucast (drop_bit 24 x) :: u8) :: u16))"

definition neon_widen_u16 :: "u32 \<Rightarrow> u64" where
  "neon_widen_u16 x =
     (let high = ucast (ucast (drop_bit 16 x) :: u16) :: u64
      in ucast (ucast x :: u16) OR push_bit 32 high)"

definition neon_widen_s16 :: "u32 \<Rightarrow> u64" where
  "neon_widen_s16 x =
     (let high = scast (ucast (drop_bit 16 x) :: u16) :: u64
      in ucast (scast (ucast x :: u16) :: u32) OR push_bit 32 high)"

section \<open>The layouts of a 64-bit vector\<close>

lemma d_unpack_pack16: "length v = 4 \<Longrightarrow> d_unpack16 (d_pack16 v) = v"
proof -
  assume "length v = 4"
  then obtain a b c d where v: "v = [a, b, c, d]"
    by (auto simp: length_Suc_conv numeral_eq_Suc)
  show ?thesis
    unfolding v d_unpack16_def d_pack16_def list.inject
    by (intro conjI bit_word_eqI refl) (auto simp: bit_simps dest: bit_imp_le_length)
qed

lemma d_pack_unpack16: "d_pack16 (d_unpack16 x) = x"
proof (rule bit_word_eqI)
  fix i assume "i < LENGTH(64)"
  then show "bit (d_pack16 (d_unpack16 x)) i = bit x i"
    by (cases "i < 16"; cases "i < 32"; cases "i < 48")
      (auto simp: d_unpack16_def d_pack16_def bit_simps)
qed

lemma d_unpack_pack32: "length v = 2 \<Longrightarrow> d_unpack32 (d_pack32 v) = v"
proof -
  assume "length v = 2"
  then obtain a b where v: "v = [a, b]"
    by (auto simp: length_Suc_conv numeral_eq_Suc)
  show ?thesis
    unfolding v d_unpack32_def d_pack32_def list.inject
    by (intro conjI bit_word_eqI refl) (auto simp: bit_simps dest: bit_imp_le_length)
qed

lemma d_pack_unpack32: "d_pack32 (d_unpack32 x) = x"
  by (rule bit_word_eqI) (auto simp: d_unpack32_def d_pack32_def bit_simps)

interpretation d16: neon_layout d_unpack16 d_pack16 4
  by unfold_locales (simp_all add: d_unpack_pack16 d_pack_unpack16, simp add: d_unpack16_def)

interpretation d32: neon_layout d_unpack32 d_pack32 2
  by unfold_locales (simp_all add: d_unpack_pack32 d_pack_unpack32, simp add: d_unpack32_def)

section \<open>Doubling multiply high\<close>

lemma product_bounds:
  "- (N * N) \<le> x * y \<and> x * y \<le> N * N" if "\<bar>x\<bar> \<le> N" "\<bar>y\<bar> \<le> N" for x y N :: int
proof -
  have "\<bar>x * y\<bar> \<le> N * N" using that unfolding abs_mult by (intro mult_mono) auto
  then show ?thesis by linarith
qed

lemma product_gap:
  "x * y \<le> N * (N - 1)" if "- N \<le> x" "x < N" "- N \<le> y" "y < N" "x * y \<noteq> N * N" for x y N :: int
proof -
  have "\<bar>x\<bar> \<le> N - 1 \<and> \<bar>y\<bar> \<le> N \<or> \<bar>x\<bar> \<le> N \<and> \<bar>y\<bar> \<le> N - 1"
    using that by (cases "x = - N"; cases "y = - N") auto
  then have "\<bar>x\<bar> * \<bar>y\<bar> \<le> N * (N - 1)"
    using mult_mono [of "\<bar>x\<bar>" "N - 1" "\<bar>y\<bar>" N] mult_mono [of "\<bar>x\<bar>" N "\<bar>y\<bar>" "N - 1"]
    by (auto simp: mult.commute)
  then show ?thesis by (metis abs_le_D1 abs_mult)
qed

lemma high_half16: "(ucast (drop_bit 16 (w::u32)) :: u16) = word_of_int (sint w div 65536)"
proof -
  have "(ucast (drop_bit 16 w) :: u16) = ucast (signed_drop_bit 16 w)"
    by (rule bit_word_eqI) (auto simp: bit_simps)
  then show ?thesis by (simp add: signed_drop_bit_word_of_int ucast_word_of_int_down)
qed

lemma QDMULH16_exact:
  "NEON_QDMULH16 round env x y = ssat_res ((2 * sint x * sint y + (if round then 32768 else 0)) div 65536) env"
proof -
  define p where "p = sint x * sint y"
  have b: "- 1073741824 \<le> p" "p \<le> 1073741824"
    using product_bounds [of "sint x" 32768 "sint y"] sint_ranges(3,4) [of x] sint_ranges(3,4) [of y]
    unfolding p_def by simp_all
  have t: "(scast x :: u32) * scast y = word_of_int p"
    by (simp only: p_def scast_eq_word_of_int of_int_mult)
  show ?thesis
  proof (cases "p = 1073741824")
    case True
    then show ?thesis unfolding NEON_QDMULH16_def Let_def t mult.assoc p_def [symmetric]
      by (simp add: SIGNBIT_def ssat_res_over)
  next
    case False
    then have g: "p \<le> 1073709056"
      using product_gap [of 32768 "sint x" "sint y"] sint_ranges(3,4) [of x] sint_ranges(3,4) [of y]
      unfolding p_def by simp
    define v :: u32 where "v = push_bit 1 (word_of_int p)"
    have s: "sint (word_of_int p :: u32) = p" "sint v = 2 * p"
      using b False sint_word_of_int [where 'a = 32, of p] sint_word_of_int [where 'a = 32, of "2 * p"]
      by (simp_all add: v_def push_bit_eq_mult mult.commute)
    have ovf: "((word_of_int p :: u32) XOR v) AND SIGNBIT = 0"
      unfolding and_SIGNBIT bit_xor_iff
      using bit_last_iff [of "word_of_int p :: u32"] bit_last_iff [of v] s by simp
    have r: "sint (v + push_bit 15 1) = 2 * p + 32768"
      using b g by (subst sint_add_exact) (simp_all add: s)
    have "ssat_res ((2 * p + (if round then 32768 else 0)) div 65536) env =
        (word_of_int ((2 * p + (if round then 32768 else 0)) div 65536) :: u16, env)"
      using b g by (intro ssat_res_id) auto
    then show ?thesis
      unfolding NEON_QDMULH16_def Let_def t mult.assoc p_def [symmetric] v_def [symmetric]
      using ovf r s by (cases round) (simp_all add: high_half16 del: push_bit_of_1)
  qed
qed

lemma high_half32: "(ucast (drop_bit 32 (w::u64)) :: u32) = word_of_int (sint w div 4294967296)"
proof -
  have "(ucast (drop_bit 32 w) :: u32) = ucast (signed_drop_bit 32 w)"
    by (rule bit_word_eqI) (auto simp: bit_simps)
  then show ?thesis by (simp add: signed_drop_bit_word_of_int ucast_word_of_int_down)
qed

lemma QDMULH32_exact:
  "NEON_QDMULH32 round env x y = ssat_res ((2 * sint x * sint y + (if round then 2147483648 else 0)) div 4294967296) env"
proof -
  define p where "p = sint x * sint y"
  have b: "- 4611686018427387904 \<le> p" "p \<le> 4611686018427387904"
    using product_bounds [of "sint x" 2147483648 "sint y"] sint_ranges(5,6) [of x] sint_ranges(5,6) [of y]
    unfolding p_def by simp_all
  have t: "(scast x :: u64) * scast y = word_of_int p"
    by (simp only: p_def scast_eq_word_of_int of_int_mult)
  show ?thesis
  proof (cases "p = 4611686018427387904")
    case True
    then show ?thesis unfolding NEON_QDMULH32_def Let_def t mult.assoc p_def [symmetric]
      by (simp add: SIGNBIT64_def ssat_res_over)
  next
    case False
    then have g: "p \<le> 4611686016279904256"
      using product_gap [of 2147483648 "sint x" "sint y"] sint_ranges(5,6) [of x] sint_ranges(5,6) [of y]
      unfolding p_def by simp
    define v :: u64 where "v = push_bit 1 (word_of_int p)"
    have s: "sint (word_of_int p :: u64) = p" "sint v = 2 * p"
      using b False sint_word_of_int [where 'a = 64, of p] sint_word_of_int [where 'a = 64, of "2 * p"]
      by (simp_all add: v_def push_bit_eq_mult mult.commute)
    have ovf: "((word_of_int p :: u64) XOR v) AND SIGNBIT64 = 0"
      unfolding and_SIGNBIT64 bit_xor_iff
      using bit_last_iff [of "word_of_int p :: u64"] bit_last_iff [of v] s by simp
    have r: "sint (v + push_bit 31 1) = 2 * p + 2147483648"
      using b g by (subst sint_add_exact) (simp_all add: s)
    have "ssat_res ((2 * p + (if round then 2147483648 else 0)) div 4294967296) env =
        (word_of_int ((2 * p + (if round then 2147483648 else 0)) div 4294967296) :: u32, env)"
      using b g by (intro ssat_res_id) auto
    then show ?thesis
      unfolding NEON_QDMULH32_def Let_def t mult.assoc p_def [symmetric] v_def [symmetric]
      using ovf r s by (cases round) (simp_all add: high_half32 del: push_bit_of_1)
  qed
qed

section \<open>Narrowing and widening\<close>

text \<open>The masks of the code as runs of ones.\<close>

lemma mask_numerals:
  "(0xff :: u64) = mask 8" "(0xff00 :: u64) = push_bit 8 (mask 8)" "(0xff0000 :: u64) = push_bit 16 (mask 8)"
  "(0xff000000 :: u64) = push_bit 24 (mask 8)" "(0xffff :: u64) = mask 16" "(0xffff0000 :: u64) = push_bit 16 (mask 16)"
  by (simp_all add: mask_eq_exp_minus_1)

lemma narrow_lanes:
  "neon_unpack8 (neon_narrow_u8 x) = map ucast (d_unpack16 x)"
  "neon_unpack16 (neon_narrow_u16 x) = map ucast (d_unpack32 x)"
  "neon_unpack8 (neon_narrow_high_u8 x) = map (\<lambda>l. ucast (drop_bit 8 l)) (d_unpack16 x)"
  "neon_unpack16 (neon_narrow_high_u16 x) = map (\<lambda>l. ucast (drop_bit 16 l)) (d_unpack32 x)"
  unfolding neon_narrow_u8_def neon_narrow_u16_def neon_narrow_high_u8_def neon_narrow_high_u16_def mask_numerals
    neon_unpack8_def neon_unpack16_def d_unpack16_def d_unpack32_def list.map list.inject
  by (intro conjI bit_word_eqI refl; auto simp: bit_simps)+

lemma widen_pack:
  "neon_widen_u8 x = d_pack16 (map ucast (neon_unpack8 x))"
  "neon_widen_s8 x = d_pack16 (map scast (neon_unpack8 x))"
  "neon_widen_u16 x = d_pack32 (map ucast (neon_unpack16 x))"
  "neon_widen_s16 x = d_pack32 (map scast (neon_unpack16 x))"
proof -
  show "neon_widen_u8 x = d_pack16 (map ucast (neon_unpack8 x))"
    by (simp add: neon_widen_u8_def d_pack16_def neon_unpack8_def ucast_ucast_up)
  show "neon_widen_u16 x = d_pack32 (map ucast (neon_unpack16 x))"
    by (simp add: neon_widen_u16_def d_pack32_def neon_unpack16_def ucast_ucast_up Let_def)
  show "neon_widen_s8 x = d_pack16 (map scast (neon_unpack8 x))"
    by (simp add: neon_widen_s8_def d_pack16_def neon_unpack8_def)
  show "neon_widen_s16 x = d_pack32 (map scast (neon_unpack16 x))"
    unfolding neon_widen_s16_def Let_def d_pack32_def neon_unpack16_def
    by (rule bit_word_eqI) (auto simp: bit_simps min_def dest: bit_imp_le_length)
qed

text \<open>One step of a saturating narrowing: a lane or-ed into the result, and the flag it raises.\<close>

definition or_step :: "nat \<Rightarrow> (CPUARMState \<Rightarrow> 'l::len word \<times> CPUARMState) \<Rightarrow> u32 \<times> CPUARMState \<Rightarrow> u32 \<times> CPUARMState" where
  "or_step n f st = (let (v, env) = f (snd st) in (fst st OR push_bit n (ucast v), env))"

lemma SAT8_u_step: "SAT8_u n x st = or_step (n div 2) (usat_res (uint (ucast (drop_bit n x) :: u16)) :: _ \<Rightarrow> u8 \<times> _) st"
proof -
  define s :: u16 where "s = ucast (drop_bit n x)"
  have "(if s > 0xff then (0xff, SET_QC env) else (ucast s, env)) = (usat_res (uint s) env :: u8 \<times> _)" for env
    using uint_ranges(2) [of s]
    by (cases "s > 0xff") (simp_all add: word_less_def sat_res)
  then show ?thesis
    unfolding SAT8_u_def or_step_def Let_def s_def by (simp add: split_beta)
qed

lemma SAT8_s_step: "SAT8_s n x st = or_step (n div 2) (ssat_res (sint (ucast (drop_bit n x) :: u16)) :: _ \<Rightarrow> u8 \<times> _) st"
proof -
  define s :: u16 where "s = ucast (drop_bit n x)"
  have "(if s \<noteq> scast (ucast s :: u8) then (ucast (signed_drop_bit 15 s XOR 0x7f), SET_QC env) else (ucast s, env)) =
      (ssat_res (sint s) env :: u8 \<times> _)" for env
  proof (rule ssat_res_ifI)
    have "scast (ucast s :: u8) = s \<longleftrightarrow> ssat LENGTH(8) (sint s) = sint s" by (rule narrow_s_iff) simp
    then show "s \<noteq> scast (ucast s :: u8) \<longleftrightarrow> ssat LENGTH(8) (sint s) \<noteq> sint s" by metis
    show "(ucast (signed_drop_bit 15 s XOR 0x7f) :: u8) =
        word_of_int (if sint s < 0 then - (2 ^ (LENGTH(8) - 1)) else 2 ^ (LENGTH(8) - 1) - 1)"
      using div_pow_sign [of 15 "sint s" 15] sint_ranges(3,4) [of s] by (simp add: signed_drop_bit_word_of_int)
    show "(ucast s :: u8) = word_of_int (sint s)" by (rule ucast_sint_down) simp
  qed
  then show ?thesis
    unfolding SAT8_s_def or_step_def Let_def s_def by (simp add: split_beta)
qed

lemma SAT8_unarrow_step:
  "SAT8_unarrow n x st = or_step (n div 2) (usat_res (sint (ucast (drop_bit n x) :: u16)) :: _ \<Rightarrow> u8 \<times> _) st"
proof -
  define s :: u16 where "s = ucast (drop_bit n x)"
  have neg: "s AND 0x8000 \<noteq> 0 \<longleftrightarrow> sint s < 0"
    using and_exp_eq_0_iff_not_bit [of s 15] bit_last_iff [of s] by simp
  show ?thesis
  proof (cases "sint s < 0")
    case True
    then show ?thesis
      unfolding SAT8_unarrow_def or_step_def Let_def s_def [symmetric] neg
      by (simp add: usat_res_under split: prod.split)
  next
    case False
    then have "sint s = uint s" by (rule sint_eq_uint_nonneg)
    then show ?thesis
      using SAT8_u_step [of n x st] False
      unfolding SAT8_unarrow_def SAT8_u_def Let_def s_def [symmetric] neg by (simp split: prod.splits)
  qed
qed

text \<open>A saturating narrowing of a whole vector.\<close>

definition usat_lanes :: "('b \<Rightarrow> int) \<Rightarrow> ('l::len word list \<Rightarrow> 'c) \<Rightarrow> 'b list \<Rightarrow> CPUARMState \<Rightarrow> 'c \<times> CPUARMState" where
  "usat_lanes h pack xs env =
     (pack (map (\<lambda>x. usat_word (h x)) xs), set_qc_if (\<exists>x\<in>set xs. usat LENGTH('l) (h x) \<noteq> h x) env)"

definition ssat_lanes :: "('b \<Rightarrow> int) \<Rightarrow> ('l::len word list \<Rightarrow> 'c) \<Rightarrow> 'b list \<Rightarrow> CPUARMState \<Rightarrow> 'c \<times> CPUARMState" where
  "ssat_lanes h pack xs env =
     (pack (map (\<lambda>x. ssat_word (h x)) xs), set_qc_if (\<exists>x\<in>set xs. ssat LENGTH('l) (h x) \<noteq> h x) env)"

lemma or_lanes8:
  "or_step 24 f3 (or_step 16 f2 (or_step 8 f1 (or_step 0 f0 (0, env)))) =
    (let (v0, env) = f0 env; (v1, env) = f1 env; (v2, env) = f2 env; (v3, env) = f3 env
     in (neon_pack8 [v0, v1, v2, v3], env))"
  by (simp add: or_step_def neon_pack8_def or.assoc numeral_eq_Suc split: prod.splits)

lemma narrow_sat8:
  "neon_narrow_sat_u8 env x = usat_lanes uint neon_pack8 (d_unpack16 x) env"
  "neon_narrow_sat_s8 env x = ssat_lanes sint neon_pack8 (d_unpack16 x) env"
  "neon_unarrow_sat8 env x = usat_lanes sint neon_pack8 (d_unpack16 x) env"
  unfolding neon_narrow_sat_u8_def neon_narrow_sat_s8_def neon_unarrow_sat8_def
    SAT8_u_step SAT8_s_step SAT8_unarrow_step
  using or_lanes8
  by (simp_all add: usat_res_def ssat_res_def usat_lanes_def ssat_lanes_def d_unpack16_def Let_def disj_ac)

lemma ucast_minus_1_16: "(ucast (- 1 :: u16) :: u32) = 0xffff"
  by (simp add: unsigned_minus_1_eq_mask mask_eq_exp_minus_1)

lemma unarrow16:
  "(if low AND 0x80000000 \<noteq> 0 then (0, SET_QC env) else if low > 0xffff then (0xffff, SET_QC env) else (low, env)) =
    map_prod ucast id (usat_res (sint low) env :: u16 \<times> _)" for low :: u32
proof (cases "sint low < 0")
  case True
  then show ?thesis
    using and_exp_eq_0_iff_not_bit [of low 31] bit_last_iff [of low] by (simp add: usat_res_under)
next
  case False
  then have u: "sint low = uint low" by (rule sint_eq_uint_nonneg)
  have z: "low AND 0x80000000 = 0" using False and_exp_eq_0_iff_not_bit [of low 31] bit_last_iff [of low] by simp
  show ?thesis
  proof (cases "low > 0xffff")
    case True
    then show ?thesis using z u by (simp add: word_less_def usat_res_over ucast_minus_1_16)
  next
    case small: False
    then have r: "uint low < 65536" by (simp add: word_less_def)
    then have "(ucast (ucast low :: u16) :: u32) = low"
      using narrow_u_iff [where 'l = 16, of low] by (simp add: usat_id_iff)
    then show ?thesis using small z u r by (simp add: usat_res_id)
  qed
qed

lemma narrow16_u:
  "(if low > 0xffff then (0xffff, SET_QC env) else (low, env)) =
    map_prod ucast id (usat_res (uint low) env :: u16 \<times> _)" for low :: u32
proof (cases "low > 0xffff")
  case True
  then show ?thesis by (simp add: word_less_def usat_res_over ucast_minus_1_16)
next
  case False
  then have "uint low < 65536" by (simp add: word_less_def)
  moreover from this have "(ucast (ucast low :: u16) :: u32) = low"
    using narrow_u_iff [where 'l = 16, of low] by (simp add: usat_id_iff)
  ultimately show ?thesis using False by (simp add: usat_res_id)
qed

lemma narrow16_s:
  "map_prod ucast id (if low \<noteq> scast (ucast low :: u16) then (signed_drop_bit 31 low XOR 0x7fff, SET_QC env) else (low, env)) =
    (ssat_res (sint low) env :: u16 \<times> _)" for low :: u32
proof -
  have "(if low \<noteq> scast (ucast low :: u16) then (ucast (signed_drop_bit 31 low XOR 0x7fff), SET_QC env) else (ucast low, env)) =
    (ssat_res (sint low) env :: u16 \<times> _)"
  proof (rule ssat_res_ifI)
    have "scast (ucast low :: u16) = low \<longleftrightarrow> ssat LENGTH(16) (sint low) = sint low" by (rule narrow_s_iff) simp
    then show "low \<noteq> scast (ucast low :: u16) \<longleftrightarrow> ssat LENGTH(16) (sint low) \<noteq> sint low" by metis
    show "(ucast (signed_drop_bit 31 low XOR 0x7fff) :: u16) =
        word_of_int (if sint low < 0 then - (2 ^ (LENGTH(16) - 1)) else 2 ^ (LENGTH(16) - 1) - 1)"
      using div_pow_sign [of 31 "sint low" 31] sint_ranges(5,6) [of low] by (simp add: signed_drop_bit_word_of_int)
    show "(ucast low :: u16) = word_of_int (sint low)" by (rule ucast_sint_down) simp
  qed
  then show ?thesis by (simp split: if_splits)
qed

lemma map_prod_pair: "(case map_prod f id p of (v, e) \<Rightarrow> g v e) = (case p of (v, e) \<Rightarrow> g (f v) e)"
  by (simp add: split_beta)

lemma push16_ucast: "push_bit 16 (ucast (ucast (v::u32) :: u16) :: u32) = push_bit 16 v"
  by (rule bit_word_eqI) (auto simp: bit_simps)

lemma narrow_sat16:
  "neon_unarrow_sat16 env x = usat_lanes sint neon_pack16 (d_unpack32 x) env"
  "neon_narrow_sat_u16 env x = usat_lanes uint neon_pack16 (d_unpack32 x) env"
  "neon_narrow_sat_s16 env x = ssat_lanes sint neon_pack16 (d_unpack32 x) env"
proof -
  show "neon_unarrow_sat16 env x = usat_lanes sint neon_pack16 (d_unpack32 x) env"
    unfolding neon_unarrow_sat16_def Let_def unarrow16
    by (simp add: usat_res_def usat_lanes_def d_unpack32_def neon_pack16_def disj_ac)
  show "neon_narrow_sat_u16 env x = usat_lanes uint neon_pack16 (d_unpack32 x) env"
    unfolding neon_narrow_sat_u16_def Let_def narrow16_u
    by (simp add: usat_res_def usat_lanes_def d_unpack32_def neon_pack16_def disj_ac)
  define l h :: u32 where "l = ucast x" and "h = ucast (drop_bit 32 x)"
  obtain low env1 where l: "(if l \<noteq> scast (ucast l :: u16) then (signed_drop_bit 31 l XOR 0x7fff, SET_QC env) else (l, env)) = (low, env1)"
    by fastforce
  obtain high env2 where h: "(if h \<noteq> scast (ucast h :: u16) then (signed_drop_bit 31 h XOR 0x7fff, SET_QC env1) else (h, env1)) = (high, env2)"
    by fastforce
  have "(ucast low, env1) = (ssat_res (sint l) env :: u16 \<times> _)" "(ucast high, env2) = (ssat_res (sint h) env1 :: u16 \<times> _)"
    using narrow16_s [of l env] narrow16_s [of h env1] unfolding l h by simp_all
  then show "neon_narrow_sat_s16 env x = ssat_lanes sint neon_pack16 (d_unpack32 x) env"
    unfolding neon_narrow_sat_s16_def Let_def l_def [symmetric] h_def [symmetric] l prod.case h
    by (subst push16_ucast [symmetric])
      (simp add: ssat_res_def ssat_lanes_def d_unpack32_def neon_pack16_def disj_ac l_def h_def)
qed

lemma narrow_sat32:
  "neon_unarrow_sat32 env x = usat_res (sint x) env"
  "neon_narrow_sat_u32 env x = usat_res (uint x) env"
  "neon_narrow_sat_s32 env x = ssat_res (sint x) env"
proof -
  have neg: "x AND 0x8000000000000000 \<noteq> 0 \<longleftrightarrow> sint x < 0"
    using and_exp_eq_0_iff_not_bit [of x 63] bit_last_iff [of x] by simp
  show u: "neon_narrow_sat_u32 env x = usat_res (uint x) env"
    by (cases "x > 0xffffffff") (simp_all add: neon_narrow_sat_u32_def word_less_def sat_res)
  show "neon_unarrow_sat32 env x = usat_res (sint x) env"
    using u sint_eq_uint_nonneg [of x]
    by (cases "sint x < 0") (simp_all add: neon_unarrow_sat32_def neon_narrow_sat_u32_def neg usat_res_under)
  show "neon_narrow_sat_s32 env x = ssat_res (sint x) env"
    unfolding neon_narrow_sat_s32_def
  proof (rule ssat_res_ifI)
    have "scast (ucast x :: u32) = x \<longleftrightarrow> ssat LENGTH(32) (sint x) = sint x" by (rule narrow_s_iff) simp
    then show "x \<noteq> scast (ucast x :: u32) \<longleftrightarrow> ssat LENGTH(32) (sint x) \<noteq> sint x" by metis
    show "(ucast (signed_drop_bit 63 x XOR 0x7fffffff) :: u32) =
        word_of_int (if sint x < 0 then - (2 ^ (LENGTH(32) - 1)) else 2 ^ (LENGTH(32) - 1) - 1)"
      using div_pow_sign [of 63 "sint x" 63] sint_ranges(7,8) [of x] by (simp add: signed_drop_bit_word_of_int)
    show "(ucast x :: u32) = word_of_int (sint x)" by (rule ucast_sint_down) simp
  qed
qed

section \<open>Rounding narrowing\<close>

text \<open>
  The rounding constant is added to all lanes at once and may carry out of a lane. The low
  bits of every lane are cleared first, so a carry into the next lane stays below the bits
  that are kept.
\<close>

lemma d_pack16_sum:
  "d_pack16 [a, b, c, d] = ucast a + 2 ^ 16 * ucast b + 2 ^ 32 * ucast c + 2 ^ 48 * ucast d"
proof -
  have "d_pack16 [a, b, c, d] =
      ((ucast a OR push_bit 16 (ucast b)) OR push_bit 32 (ucast c)) OR push_bit 48 (ucast d)"
    by (simp add: d_pack16_def or.assoc numeral_eq_Suc)
  also have "\<dots> = ((ucast a + push_bit 16 (ucast b)) + push_bit 32 (ucast c)) + push_bit 48 (ucast d)"
    by (subst disjunctive_add, force simp: bit_simps dest: bit_imp_le_length)+ simp
  finally show ?thesis by (simp add: push_bit_eq_mult mult.commute)
qed

lemma d_pack32_sum: "d_pack32 [a, b] = ucast a + 2 ^ 32 * ucast b"
proof -
  have "d_pack32 [a, b] = ucast a + push_bit 32 (ucast b)"
    unfolding d_pack32_def by (subst disjunctive_add) (auto simp: bit_simps dest: bit_imp_le_length)
  then show ?thesis by (simp add: push_bit_eq_mult mult.commute)
qed

definition carry :: "'l::len word \<Rightarrow> 'l word \<Rightarrow> u64" where
  "carry A B = (if uint A + uint B < 2 ^ LENGTH('l) then 0 else 1)"

lemma carry_split: "(ucast A :: u64) + ucast B = ucast (A + B) + 2 ^ LENGTH('l) * carry A B" for A B :: "'l::len word"
proof (cases "uint A + uint B < 2 ^ LENGTH('l)")
  case True
  then show ?thesis
    by (simp only: carry_def ucast_eq_word_of_int uint_plus_if' if_True of_int_add mult_zero_right add_0_right)
next
  case False
  then show ?thesis
    by (simp only: carry_def ucast_eq_word_of_int uint_plus_if' if_False of_int_add of_int_diff of_int_power of_int_numeral) simp
qed

lemma low_clear_add:
  "take_bit k A = 0 \<Longrightarrow> take_bit k r = r \<Longrightarrow> A + r = A OR r" for A r :: "'l::len word"
proof (rule disjunctive_add)
  fix n assume "take_bit k A = 0" "take_bit k r = r"
  then have "\<not> bit (take_bit k A) n" "bit r n \<longrightarrow> n < k" by (metis bit_0_eq bot_apply bot_bool_def, metis bit_take_bit_iff)
  then show "\<not> bit A n \<or> \<not> bit r n" by (auto simp: bit_take_bit_iff)
qed

lemma rounded_clear: "take_bit k ((l AND NOT (mask k)) + 2 ^ k) = 0" for l :: "'l::len word"
proof -
  have "l AND NOT (mask k) = push_bit k (drop_bit k l)"
    by (rule bit_word_eqI) (auto simp: bit_simps)
  then have "(l AND NOT (mask k)) + 2 ^ k = push_bit k (drop_bit k l + 1)"
    by (simp add: push_bit_eq_mult algebra_simps)
  moreover have "take_bit k (push_bit k (drop_bit k l + 1)) = 0"
    by (rule bit_word_eqI) (auto simp: bit_simps)
  ultimately show ?thesis by simp
qed

lemma round_high_lane:
  fixes l c :: "'l::len word"
  assumes "take_bit k c = c"
  shows "drop_bit (Suc k) ((l AND NOT (mask k)) + 2 ^ k + c) = drop_bit (Suc k) (l + 2 ^ k)"
proof -
  define A where "A = (l AND NOT (mask k)) + 2 ^ k"
  have A: "take_bit k A = 0" unfolding A_def by (rule rounded_clear)
  have d: "drop_bit (Suc k) (A + r) = drop_bit (Suc k) A" if "take_bit k r = r" for r
  proof -
    have "\<not> bit r (Suc k + n)" for n
      using that bit_take_bit_iff [of k r "Suc k + n"] by simp
    then show ?thesis
      unfolding low_clear_add [OF A that] by (intro bit_word_eqI) (auto simp: bit_simps)
  qed
  have "l = (l AND NOT (mask k)) + take_bit k l"
    by (subst disjunctive_add) (auto simp: bit_simps intro: bit_word_eqI)
  then have "l + 2 ^ k = A + take_bit k l" unfolding A_def by (metis add.assoc add.commute)
  then show ?thesis using d [OF assms] d [of "take_bit k l"] unfolding A_def [symmetric] by simp
qed

lemma round_high_carry:
  fixes l :: "'l::len word" and c :: u64
  assumes "c = 0 \<or> c = 1" "0 < k" "LENGTH('l) \<le> 64"
  shows "ucast ((l AND NOT (mask k)) + 2 ^ k) + c = (ucast ((l AND NOT (mask k)) + 2 ^ k + ucast c) :: u64)"
proof (cases "c = 0")
  case False
  then have c: "c = 1" using assms(1) by blast
  define A where "A = (l AND NOT (mask k)) + 2 ^ k"
  have "take_bit k (1 :: 'l word) = 1" using assms(2) by (cases k) simp_all
  then have "A + 1 = A OR 1" unfolding A_def by (intro low_clear_add [OF rounded_clear])
  moreover have "\<not> bit A 0" using rounded_clear [of k l] assms(2) unfolding A_def [symmetric]
    by (metis bit_take_bit_iff bit_0_eq bot_apply bot_bool_def)
  then have "ucast A + (1 :: u64) = ucast A OR 1"
    by (intro disjunctive_add) (auto simp: bit_simps bit_1_iff intro: gr0I)
  ultimately show ?thesis unfolding A_def [symmetric] c by (simp add: ucast_or)
qed simp

lemma d_unpack16_bitwise:
  "d_unpack16 (a AND b) = map2 (AND) (d_unpack16 a) (d_unpack16 b)"
  "d_unpack16 (a OR b) = map2 (OR) (d_unpack16 a) (d_unpack16 b)"
  "d_unpack16 (a XOR b) = map2 (XOR) (d_unpack16 a) (d_unpack16 b)"
  "d_unpack16 (NOT a) = map NOT (d_unpack16 a)"
proof -
  have "(ucast (drop_bit n (NOT a)) :: u16) = NOT (ucast (drop_bit n a))" if "n \<le> 48" for n
    by (rule bit_word_eqI) (use that in \<open>auto simp: bit_simps\<close>)
  then show "d_unpack16 (NOT a) = map NOT (d_unpack16 a)"
    by (simp add: d_unpack16_def ucast_not_down)
qed (simp_all add: d_unpack16_def ucast_and ucast_or ucast_xor drop_bit_and drop_bit_or drop_bit_xor)

lemma d_unpack32_bitwise:
  "d_unpack32 (a AND b) = map2 (AND) (d_unpack32 a) (d_unpack32 b)"
  "d_unpack32 (a OR b) = map2 (OR) (d_unpack32 a) (d_unpack32 b)"
  "d_unpack32 (a XOR b) = map2 (XOR) (d_unpack32 a) (d_unpack32 b)"
  "d_unpack32 (NOT a) = map NOT (d_unpack32 a)"
proof -
  have "(ucast (drop_bit n (NOT a)) :: u32) = NOT (ucast (drop_bit n a))" if "n \<le> 32" for n
    by (rule bit_word_eqI) (use that in \<open>auto simp: bit_simps\<close>)
  then show "d_unpack32 (NOT a) = map NOT (d_unpack32 a)"
    by (simp add: d_unpack32_def ucast_not_down)
qed (simp_all add: d_unpack32_def ucast_and ucast_or ucast_xor drop_bit_and drop_bit_or drop_bit_xor)

text \<open>Adding vectors of digits to base \<open>p\<close>, and moving the carries to the next digit.\<close>

lemma digits_add:
  "(a0 + p * a1 + q * a2 + r * a3) + (b0 + p * b1 + q * b2 + r * b3) =
    (a0 + b0) + p * (a1 + b1) + q * (a2 + b2) + r * (a3 + b3)"
  "(a0 + p * a1) + (b0 + p * b1) = (a0 + b0) + p * (a1 + b1)" for p :: "'a::comm_ring_1"
  by (simp_all add: algebra_simps)

lemma digits_carry:
  "q = p * p \<Longrightarrow> r = p * p * p \<Longrightarrow> p * p * p * p = 0 \<Longrightarrow>
    (s0 + p * c0) + p * (s1 + p * c1) + q * (s2 + p * c2) + r * (s3 + p * c3) =
    s0 + p * (s1 + c0) + q * (s2 + c1) + r * (s3 + c2)"
  "p * p = 0 \<Longrightarrow> (s0 + p * c0) + p * (s1 + p * c1) = s0 + p * (s1 + c0)" for p :: "'a::comm_ring_1"
  by (simp_all add: distrib_left mult.assoc [symmetric])

lemma narrow_round_high_u8_lanes:
  "neon_unpack8 (neon_narrow_round_high_u8 x) = map (\<lambda>l. ucast (drop_bit 8 (l + 0x80))) (d_unpack16 x)"
proof -
  obtain l0 l1 l2 l3 where l: "d_unpack16 x = [l0, l1, l2, l3]" unfolding d_unpack16_def by blast
  define R where "R = (\<lambda>l :: u16. l AND NOT (mask 7))"
  define S where "S l = R l + 2 ^ 7" for l
  have m: "d_unpack16 0xff80ff80ff80ff80 = [NOT (mask 7), NOT (mask 7), NOT (mask 7), NOT (mask 7)]"
    by (simp add: d_unpack16_def mask_eq_exp_minus_1)
  have k: "(0x0080008000800080 :: u64) = d_pack16 [2 ^ 7, 2 ^ 7, 2 ^ 7, 2 ^ 7]" by (simp add: d_pack16_def)
  have xm: "x AND 0xff80ff80ff80ff80 = d_pack16 [R l0, R l1, R l2, R l3]"
    using d16.pack_unpack [of "x AND 0xff80ff80ff80ff80"] unfolding d_unpack16_bitwise l m by (simp add: R_def)
  define c where "c l = carry (R l) (2 ^ 7)" for l
  have c: "c l = 0 \<or> c l = 1" "(ucast (R l) :: u64) + ucast (2 ^ 7 :: u16) = ucast (S l) + 2 ^ 16 * c l" for l
    using carry_split [of "R l" "2 ^ 7"] by (simp_all add: c_def carry_def S_def del: power_numeral)
  have n: "(ucast (S l) :: u64) + c m = ucast (S l + ucast (c m))" for l m
    unfolding S_def R_def using c(1) by (intro round_high_carry) auto
  have "(x AND 0xff80ff80ff80ff80) + 0x0080008000800080 =
      ((ucast (R l0) :: u64) + ucast (2 ^ 7 :: u16)) + 2 ^ 16 * (ucast (R l1) + ucast (2 ^ 7 :: u16)) +
      2 ^ 32 * (ucast (R l2) + ucast (2 ^ 7 :: u16)) + 2 ^ 48 * (ucast (R l3) + ucast (2 ^ 7 :: u16))"
    unfolding xm k d_pack16_sum by (rule digits_add)
  also have "\<dots> = ucast (S l0) + 2 ^ 16 * (ucast (S l1) + c l0) + 2 ^ 32 * (ucast (S l2) + c l1) + 2 ^ 48 * (ucast (S l3) + c l2)"
    unfolding c(2) by (rule digits_carry) simp_all
  also have "\<dots> = d_pack16 [S l0, S l1 + ucast (c l0), S l2 + ucast (c l1), S l3 + ucast (c l2)]"
    unfolding n d_pack16_sum ..
  finally have X: "d_unpack16 ((x AND 0xff80ff80ff80ff80) + 0x0080008000800080) =
      [S l0, S l1 + ucast (c l0), S l2 + ucast (c l1), S l3 + ucast (c l2)]" by simp
  have d: "drop_bit 8 (S l + r) = drop_bit 8 (l + 0x80)" if "r = 0 \<or> r = 1" for l r
    using round_high_lane [of 7 r l] that unfolding S_def R_def by auto
  have "(ucast (c l) :: u16) = 0 \<or> (ucast (c l) :: u16) = 1" for l using c(1) [of l] by auto
  then show ?thesis
    using narrow_lanes(3) [of "(x AND 0xff80ff80ff80ff80) + 0x0080008000800080"] d [of 0]
    unfolding neon_narrow_round_high_u8_def Let_def neon_narrow_high_u8_def X l by (simp add: d)
qed

lemma narrow_round_high_u16_lanes:
  "neon_unpack16 (neon_narrow_round_high_u16 x) = map (\<lambda>l. ucast (drop_bit 16 (l + 0x8000))) (d_unpack32 x)"
proof -
  obtain l0 l1 where l: "d_unpack32 x = [l0, l1]" unfolding d_unpack32_def by blast
  define R where "R = (\<lambda>l :: u32. l AND NOT (mask 15))"
  define S where "S l = R l + 2 ^ 15" for l
  have m: "d_unpack32 0xffff8000ffff8000 = [NOT (mask 15), NOT (mask 15)]"
    by (simp add: d_unpack32_def mask_eq_exp_minus_1)
  have k: "(0x0000800000008000 :: u64) = d_pack32 [2 ^ 15, 2 ^ 15]" by (simp add: d_pack32_def)
  have xm: "x AND 0xffff8000ffff8000 = d_pack32 [R l0, R l1]"
    using d32.pack_unpack [of "x AND 0xffff8000ffff8000"] unfolding d_unpack32_bitwise l m by (simp add: R_def)
  define c where "c l = carry (R l) (2 ^ 15)" for l
  have c: "c l = 0 \<or> c l = 1" "(ucast (R l) :: u64) + ucast (2 ^ 15 :: u32) = ucast (S l) + 2 ^ 32 * c l" for l
    using carry_split [of "R l" "2 ^ 15"] by (simp_all add: c_def carry_def S_def del: power_numeral)
  have n: "(ucast (S l) :: u64) + c m = ucast (S l + ucast (c m))" for l m
    unfolding S_def R_def using c(1) by (intro round_high_carry) auto
  have "(x AND 0xffff8000ffff8000) + 0x0000800000008000 =
      ((ucast (R l0) :: u64) + ucast (2 ^ 15 :: u32)) + 2 ^ 32 * (ucast (R l1) + ucast (2 ^ 15 :: u32))"
    unfolding xm k d_pack32_sum by (rule digits_add)
  also have "\<dots> = ucast (S l0) + 2 ^ 32 * (ucast (S l1) + c l0)"
    unfolding c(2) by (rule digits_carry) simp_all
  also have "\<dots> = d_pack32 [S l0, S l1 + ucast (c l0)]"
    unfolding n d_pack32_sum ..
  finally have X: "d_unpack32 ((x AND 0xffff8000ffff8000) + 0x0000800000008000) = [S l0, S l1 + ucast (c l0)]"
    by simp
  have d: "drop_bit 16 (S l + r) = drop_bit 16 (l + 0x8000)" if "r = 0 \<or> r = 1" for l r
    using round_high_lane [of 15 r l] that unfolding S_def R_def by auto
  have "(ucast (c l) :: u32) = 0 \<or> (ucast (c l) :: u32) = 1" for l using c(1) [of l] by auto
  then show ?thesis
    using narrow_lanes(4) [of "(x AND 0xffff8000ffff8000) + 0x0000800000008000"] d [of 0]
    unfolding neon_narrow_round_high_u16_def Let_def neon_narrow_high_u16_def X l by (simp add: d)
qed

section \<open>Properties\<close>

text \<open>
  C13. Saturating doubling multiply high, with and without rounding, yields the high half of
  twice the exact product (plus half a unit when rounding), clamped to the signed lane, and
  raises \<open>QC\<close> exactly when a lane was clamped, which happens only for the product of the two
  smallest values.
\<close>

theorem neon_qdmulh_correct:
  "neon_qdmulh_s16 = ssat_vop neon_unpack16 neon_pack16 (\<lambda>x y. (2 * sint x * sint y) div 2 ^ 16) \<and>
   neon_qrdmulh_s16 = ssat_vop neon_unpack16 neon_pack16 (\<lambda>x y. (2 * sint x * sint y + 2 ^ 15) div 2 ^ 16) \<and>
   neon_qdmulh_s32 = ssat_vop neon_unpack32 neon_pack32 (\<lambda>x y. (2 * sint x * sint y) div 2 ^ 32) \<and>
   neon_qrdmulh_s32 = ssat_vop neon_unpack32 neon_pack32 (\<lambda>x y. (2 * sint x * sint y + 2 ^ 31) div 2 ^ 32)"
  unfolding neon_qdmulh_s16_def neon_qrdmulh_s16_def neon_qdmulh_s32_def neon_qrdmulh_s32_def
    ssat_vop_def l16.length_unpack l32.length_unpack
  by (intro conjI ext l16.VOP_ENV_flag l32.VOP_ENV_flag) (simp_all add: QDMULH16_exact QDMULH32_exact ssat_res_def)

text \<open>
  C14. Narrowing keeps the low half, the high half or the rounded high half of every lane; the
  rounding addition, done for all lanes in one 64-bit addition, never disturbs the kept bits
  of a neighbouring lane. Widening extends every lane by its sign or by zero, and narrowing
  a widened vector gives it back.
\<close>

theorem neon_narrow_widen_correct:
  "neon_unpack8 (neon_narrow_u8 x) = map ucast (d_unpack16 x) \<and>
   neon_unpack16 (neon_narrow_u16 x) = map ucast (d_unpack32 x) \<and>
   neon_unpack8 (neon_narrow_high_u8 x) = map (\<lambda>l. ucast (drop_bit 8 l)) (d_unpack16 x) \<and>
   neon_unpack16 (neon_narrow_high_u16 x) = map (\<lambda>l. ucast (drop_bit 16 l)) (d_unpack32 x) \<and>
   neon_unpack8 (neon_narrow_round_high_u8 x) = map (\<lambda>l. ucast (drop_bit 8 (l + 0x80))) (d_unpack16 x) \<and>
   neon_unpack16 (neon_narrow_round_high_u16 x) = map (\<lambda>l. ucast (drop_bit 16 (l + 0x8000))) (d_unpack32 x) \<and>
   d_unpack16 (neon_widen_u8 y) = map ucast (neon_unpack8 y) \<and>
   d_unpack16 (neon_widen_s8 y) = map scast (neon_unpack8 y) \<and>
   d_unpack32 (neon_widen_u16 y) = map ucast (neon_unpack16 y) \<and>
   d_unpack32 (neon_widen_s16 y) = map scast (neon_unpack16 y) \<and>
   neon_narrow_u8 (neon_widen_u8 y) = y \<and> neon_narrow_u8 (neon_widen_s8 y) = y \<and>
   neon_narrow_u16 (neon_widen_u16 y) = y \<and> neon_narrow_u16 (neon_widen_s16 y) = y"
proof -
  have w: "d_unpack16 (neon_widen_u8 y) = map ucast (neon_unpack8 y)"
    "d_unpack16 (neon_widen_s8 y) = map scast (neon_unpack8 y)"
    "d_unpack32 (neon_widen_u16 y) = map ucast (neon_unpack16 y)"
    "d_unpack32 (neon_widen_s16 y) = map scast (neon_unpack16 y)"
    by (simp_all add: widen_pack)
  have "neon_narrow_u8 (neon_widen_u8 y) = y" "neon_narrow_u8 (neon_widen_s8 y) = y"
    unfolding l8.unpack_inject [symmetric, of _ y] narrow_lanes w by (simp_all add: ucast_ucast_up ucast_scast_down comp_def)
  moreover have "neon_narrow_u16 (neon_widen_u16 y) = y" "neon_narrow_u16 (neon_widen_s16 y) = y"
    unfolding l16.unpack_inject [symmetric, of _ y] narrow_lanes w by (simp_all add: ucast_ucast_up ucast_scast_down comp_def)
  ultimately show ?thesis
    using w narrow_lanes narrow_round_high_u8_lanes narrow_round_high_u16_lanes by blast
qed

text \<open>
  C15. The saturating narrowings clamp every wide lane to the narrow range (signed to signed,
  unsigned to unsigned, signed to unsigned) and raise \<open>QC\<close> exactly when some lane was clamped.
\<close>

theorem neon_narrow_sat_correct:
  "neon_narrow_sat_u8 env x = usat_lanes uint neon_pack8 (d_unpack16 x) env \<and>
   neon_narrow_sat_s8 env x = ssat_lanes sint neon_pack8 (d_unpack16 x) env \<and>
   neon_unarrow_sat8 env x = usat_lanes sint neon_pack8 (d_unpack16 x) env \<and>
   neon_narrow_sat_u16 env x = usat_lanes uint neon_pack16 (d_unpack32 x) env \<and>
   neon_narrow_sat_s16 env x = ssat_lanes sint neon_pack16 (d_unpack32 x) env \<and>
   neon_unarrow_sat16 env x = usat_lanes sint neon_pack16 (d_unpack32 x) env \<and>
   neon_narrow_sat_u32 env x = usat_res (uint x) env \<and>
   neon_narrow_sat_s32 env x = ssat_res (sint x) env \<and>
   neon_unarrow_sat32 env x = usat_res (sint x) env"
  by (intro conjI narrow_sat8 narrow_sat16 narrow_sat32)

end
