(* ===== verification/Neon_Long.thy ===== *)
theory Neon_Long
  imports Neon_Wide
begin

text \<open>
  The long operations of \<^verbatim>\<open>target-arm/neon_helper.c\<close> on 64-bit vectors: addition, subtraction and
  pairwise addition of all lanes in one word, saturating addition, absolute difference,
  widening multiplication, negation, and the saturating sign manipulations.
\<close>

section \<open>Addition and subtraction\<close>

definition neon_addl_u16 :: "u64 \<Rightarrow> u64 \<Rightarrow> u64" where
  "neon_addl_u16 a b =
     (let mask = (a XOR b) AND 0x8000800080008000;
          a = a AND NOT 0x8000800080008000;
          b = b AND NOT 0x8000800080008000
      in (a + b) XOR mask)"

definition neon_addl_u32 :: "u64 \<Rightarrow> u64 \<Rightarrow> u64" where
  "neon_addl_u32 a b =
     (let mask = (a XOR b) AND 0x8000000080000000;
          a = a AND NOT 0x8000000080000000;
          b = b AND NOT 0x8000000080000000
      in (a + b) XOR mask)"

definition neon_paddl_u16 :: "u64 \<Rightarrow> u64 \<Rightarrow> u64" where
  "neon_paddl_u16 a b =
     (let tmp = (a AND 0x0000ffff0000ffff) + (drop_bit 16 a AND 0x0000ffff0000ffff);
          tmp2 = (b AND 0xffff0000ffff0000) + (push_bit 16 b AND 0xffff0000ffff0000)
      in (tmp AND 0xffff) OR (drop_bit 16 tmp AND 0xffff0000)
         OR (push_bit 16 tmp2 AND 0xffff00000000) OR (tmp2 AND 0xffff000000000000))"

definition neon_paddl_u32 :: "u64 \<Rightarrow> u64 \<Rightarrow> u64" where
  "neon_paddl_u32 a b =
     (let low = ucast (a + drop_bit 32 a) :: u32; high = ucast (b + drop_bit 32 b) :: u32
      in ucast low + push_bit 32 (ucast high))"

definition neon_subl_u16 :: "u64 \<Rightarrow> u64 \<Rightarrow> u64" where
  "neon_subl_u16 a b =
     (let mask = (a XOR NOT b) AND 0x8000800080008000;
          a = a OR 0x8000800080008000;
          b = b AND NOT 0x8000800080008000
      in (a - b) XOR mask)"

definition neon_subl_u32 :: "u64 \<Rightarrow> u64 \<Rightarrow> u64" where
  "neon_subl_u32 a b =
     (let mask = (a XOR NOT b) AND 0x8000000080000000;
          a = a OR 0x8000000080000000;
          b = b AND NOT 0x8000000080000000
      in (a - b) XOR mask)"

definition neon_addl_saturate_s32 :: "CPUARMState \<Rightarrow> u64 \<Rightarrow> u64 \<Rightarrow> u64 \<times> CPUARMState" where
  "neon_addl_saturate_s32 env a b =
     (let x = ucast a :: u32; y = ucast b :: u32; low = x + y;
          (low, env) = (if (low XOR x) AND SIGNBIT \<noteq> 0 \<and> \<not> (x XOR y) AND SIGNBIT \<noteq> 0
                        then (signed_drop_bit 31 x XOR NOT SIGNBIT, SET_QC env) else (low, env));
          x = ucast (drop_bit 32 a) :: u32; y = ucast (drop_bit 32 b) :: u32; high = x + y;
          (high, env) = (if (high XOR x) AND SIGNBIT \<noteq> 0 \<and> \<not> (x XOR y) AND SIGNBIT \<noteq> 0
                         then (signed_drop_bit 31 x XOR NOT SIGNBIT, SET_QC env) else (high, env))
      in (ucast low OR push_bit 32 (ucast high), env))"

definition neon_addl_saturate_s64 :: "CPUARMState \<Rightarrow> u64 \<Rightarrow> u64 \<Rightarrow> u64 \<times> CPUARMState" where
  "neon_addl_saturate_s64 env a b =
     (let result = a + b
      in if (result XOR a) AND SIGNBIT64 \<noteq> 0 \<and> \<not> (a XOR b) AND SIGNBIT64 \<noteq> 0
         then (signed_drop_bit 63 a XOR NOT SIGNBIT64, SET_QC env) else (result, env))"

section \<open>Absolute difference, multiplication, negation\<close>

text \<open>
  \<^verbatim>\<open>DO_ABD(dest, x, y, intype, arithtype)\<close> with an unsigned and with a signed \<^verbatim>\<open>intype\<close>; \<open>'i\<close> and \<open>'a\<close>
  are the two type arguments.
\<close>

definition DO_ABD_u :: "'i::len itself \<Rightarrow> 'a::len itself \<Rightarrow> u32 \<Rightarrow> u32 \<Rightarrow> u64" where
  "DO_ABD_u _ _ x y =
     (let tmp_x = ucast (ucast x :: 'i word) :: 'a word; tmp_y = ucast (ucast y :: 'i word) :: 'a word
      in ucast (if tmp_x > tmp_y then tmp_x - tmp_y else tmp_y - tmp_x))"

definition DO_ABD_s :: "'i::len itself \<Rightarrow> 'a::len itself \<Rightarrow> u32 \<Rightarrow> u32 \<Rightarrow> u64" where
  "DO_ABD_s _ _ x y =
     (let tmp_x = scast (ucast x :: 'i word) :: 'a word; tmp_y = scast (ucast y :: 'i word) :: 'a word
      in scast (if sint tmp_x > sint tmp_y then tmp_x - tmp_y else tmp_y - tmp_x))"

definition neon_abdl_u16 :: "u32 \<Rightarrow> u32 \<Rightarrow> u64" where
  "neon_abdl_u16 a b =
     DO_ABD_u TYPE(8) TYPE(32) a b OR push_bit 16 (DO_ABD_u TYPE(8) TYPE(32) (drop_bit 8 a) (drop_bit 8 b))
       OR push_bit 32 (DO_ABD_u TYPE(8) TYPE(32) (drop_bit 16 a) (drop_bit 16 b))
       OR push_bit 48 (DO_ABD_u TYPE(8) TYPE(32) (drop_bit 24 a) (drop_bit 24 b))"

definition neon_abdl_s16 :: "u32 \<Rightarrow> u32 \<Rightarrow> u64" where
  "neon_abdl_s16 a b =
     DO_ABD_s TYPE(8) TYPE(32) a b OR push_bit 16 (DO_ABD_s TYPE(8) TYPE(32) (drop_bit 8 a) (drop_bit 8 b))
       OR push_bit 32 (DO_ABD_s TYPE(8) TYPE(32) (drop_bit 16 a) (drop_bit 16 b))
       OR push_bit 48 (DO_ABD_s TYPE(8) TYPE(32) (drop_bit 24 a) (drop_bit 24 b))"

definition neon_abdl_u32 :: "u32 \<Rightarrow> u32 \<Rightarrow> u64" where
  "neon_abdl_u32 a b =
     DO_ABD_u TYPE(16) TYPE(32) a b OR push_bit 32 (DO_ABD_u TYPE(16) TYPE(32) (drop_bit 16 a) (drop_bit 16 b))"

definition neon_abdl_s32 :: "u32 \<Rightarrow> u32 \<Rightarrow> u64" where
  "neon_abdl_s32 a b =
     DO_ABD_s TYPE(16) TYPE(32) a b OR push_bit 32 (DO_ABD_s TYPE(16) TYPE(32) (drop_bit 16 a) (drop_bit 16 b))"

definition neon_abdl_u64 :: "u32 \<Rightarrow> u32 \<Rightarrow> u64" where
  "neon_abdl_u64 a b = DO_ABD_u TYPE(32) TYPE(64) a b"

definition neon_abdl_s64 :: "u32 \<Rightarrow> u32 \<Rightarrow> u64" where
  "neon_abdl_s64 a b = DO_ABD_s TYPE(32) TYPE(64) a b"

text \<open>
  \<^verbatim>\<open>DO_MULL(dest, x, y, type1, type2)\<close> with an unsigned and with a signed \<^verbatim>\<open>type1\<close>; the product is
  taken in \<^verbatim>\<open>type2\<close>, always unsigned.
\<close>

definition DO_MULL_u :: "'t::len itself \<Rightarrow> 'w::len itself \<Rightarrow> u32 \<Rightarrow> u32 \<Rightarrow> u64" where
  "DO_MULL_u _ _ x y =
     (let tmp_x = ucast x :: 't word; tmp_y = ucast y :: 't word
      in ucast ((ucast tmp_x :: 'w word) * ucast tmp_y))"

definition DO_MULL_s :: "'t::len itself \<Rightarrow> 'w::len itself \<Rightarrow> u32 \<Rightarrow> u32 \<Rightarrow> u64" where
  "DO_MULL_s _ _ x y =
     (let tmp_x = ucast x :: 't word; tmp_y = ucast y :: 't word
      in ucast ((scast tmp_x :: 'w word) * scast tmp_y))"

definition neon_mull_u8 :: "u32 \<Rightarrow> u32 \<Rightarrow> u64" where
  "neon_mull_u8 a b =
     DO_MULL_u TYPE(8) TYPE(16) a b OR push_bit 16 (DO_MULL_u TYPE(8) TYPE(16) (drop_bit 8 a) (drop_bit 8 b))
       OR push_bit 32 (DO_MULL_u TYPE(8) TYPE(16) (drop_bit 16 a) (drop_bit 16 b))
       OR push_bit 48 (DO_MULL_u TYPE(8) TYPE(16) (drop_bit 24 a) (drop_bit 24 b))"

definition neon_mull_s8 :: "u32 \<Rightarrow> u32 \<Rightarrow> u64" where
  "neon_mull_s8 a b =
     DO_MULL_s TYPE(8) TYPE(16) a b OR push_bit 16 (DO_MULL_s TYPE(8) TYPE(16) (drop_bit 8 a) (drop_bit 8 b))
       OR push_bit 32 (DO_MULL_s TYPE(8) TYPE(16) (drop_bit 16 a) (drop_bit 16 b))
       OR push_bit 48 (DO_MULL_s TYPE(8) TYPE(16) (drop_bit 24 a) (drop_bit 24 b))"

definition neon_mull_u16 :: "u32 \<Rightarrow> u32 \<Rightarrow> u64" where
  "neon_mull_u16 a b =
     DO_MULL_u TYPE(16) TYPE(32) a b OR push_bit 32 (DO_MULL_u TYPE(16) TYPE(32) (drop_bit 16 a) (drop_bit 16 b))"

definition neon_mull_s16 :: "u32 \<Rightarrow> u32 \<Rightarrow> u64" where
  "neon_mull_s16 a b =
     DO_MULL_s TYPE(16) TYPE(32) a b OR push_bit 32 (DO_MULL_s TYPE(16) TYPE(32) (drop_bit 16 a) (drop_bit 16 b))"

definition neon_negl_u16 :: "u64 \<Rightarrow> u64" where
  "neon_negl_u16 x =
     ucast (ucast (- x) :: u16) OR push_bit 16 (ucast (ucast (- drop_bit 16 x) :: u16))
       OR push_bit 32 (ucast (ucast (- drop_bit 32 x) :: u16)) OR push_bit 48 (ucast (ucast (- drop_bit 48 x) :: u16))"

definition neon_negl_u32 :: "u64 \<Rightarrow> u64" where
  "neon_negl_u32 x =
     (let low = ucast (- x) :: u32; high = ucast (- drop_bit 32 x) :: u32
      in ucast low OR push_bit 32 (ucast high))"

section \<open>Saturating sign manipulation\<close>

text \<open>\<^verbatim>\<open>DO_QABS8\<close>, \<^verbatim>\<open>DO_QABS16\<close>, \<^verbatim>\<open>DO_QNEG8\<close> and \<^verbatim>\<open>DO_QNEG16\<close>: the same statement at two lane types.\<close>

definition DO_QABS :: "CPUARMState \<Rightarrow> 'l::len word \<Rightarrow> 'l word \<times> CPUARMState" where
  "DO_QABS env x =
     (if x = 2 ^ (LENGTH('l) - 1) then (2 ^ (LENGTH('l) - 1) - 1, SET_QC env)
      else if sint x < 0 then (- x, env) else (x, env))"

definition DO_QNEG :: "CPUARMState \<Rightarrow> 'l::len word \<Rightarrow> 'l word \<times> CPUARMState" where
  "DO_QNEG env x =
     (if x = 2 ^ (LENGTH('l) - 1) then (2 ^ (LENGTH('l) - 1) - 1, SET_QC env) else (- x, env))"

fun NEON_DO1_ENV :: "(CPUARMState \<Rightarrow> 'l \<Rightarrow> 'l \<times> CPUARMState) \<Rightarrow> CPUARMState \<Rightarrow> 'l list \<Rightarrow> 'l list \<times> CPUARMState" where
  "NEON_DO1_ENV fn env [] = ([], env)"
| "NEON_DO1_ENV fn env (x # xs) =
     (let (d, env') = fn env x; (ds, env'') = NEON_DO1_ENV fn env' xs in (d # ds, env''))"

definition neon_qabs_s8 :: "CPUARMState \<Rightarrow> u32 \<Rightarrow> u32 \<times> CPUARMState" where
  "neon_qabs_s8 env x = map_prod neon_pack8 id (NEON_DO1_ENV DO_QABS env (neon_unpack8 x))"

definition neon_qneg_s8 :: "CPUARMState \<Rightarrow> u32 \<Rightarrow> u32 \<times> CPUARMState" where
  "neon_qneg_s8 env x = map_prod neon_pack8 id (NEON_DO1_ENV DO_QNEG env (neon_unpack8 x))"

definition neon_qabs_s16 :: "CPUARMState \<Rightarrow> u32 \<Rightarrow> u32 \<times> CPUARMState" where
  "neon_qabs_s16 env x = map_prod neon_pack16 id (NEON_DO1_ENV DO_QABS env (neon_unpack16 x))"

definition neon_qneg_s16 :: "CPUARMState \<Rightarrow> u32 \<Rightarrow> u32 \<times> CPUARMState" where
  "neon_qneg_s16 env x = map_prod neon_pack16 id (NEON_DO1_ENV DO_QNEG env (neon_unpack16 x))"

definition neon_qabs_s32 :: "CPUARMState \<Rightarrow> u32 \<Rightarrow> u32 \<times> CPUARMState" where
  "neon_qabs_s32 env x =
     (if x = SIGNBIT then (NOT SIGNBIT, SET_QC env) else if sint x < 0 then (- x, env) else (x, env))"

definition neon_qneg_s32 :: "CPUARMState \<Rightarrow> u32 \<Rightarrow> u32 \<times> CPUARMState" where
  "neon_qneg_s32 env x = (if x = SIGNBIT then (NOT SIGNBIT, SET_QC env) else (- x, env))"

definition neon_qabs_s64 :: "CPUARMState \<Rightarrow> u64 \<Rightarrow> u64 \<times> CPUARMState" where
  "neon_qabs_s64 env x =
     (if x = SIGNBIT64 then (NOT SIGNBIT64, SET_QC env) else if sint x < 0 then (- x, env) else (x, env))"

definition neon_qneg_s64 :: "CPUARMState \<Rightarrow> u64 \<Rightarrow> u64 \<times> CPUARMState" where
  "neon_qneg_s64 env x = (if x = SIGNBIT64 then (NOT SIGNBIT64, SET_QC env) else (- x, env))"

section \<open>One-word addition and subtraction act on each lane\<close>

lemma digits_diff:
  "(a0 + p * a1 + q * a2 + r * a3) - (b0 + p * b1 + q * b2 + r * b3) =
    (a0 - b0) + p * (a1 - b1) + q * (a2 - b2) + r * (a3 - b3)"
  "(a0 + p * a1) - (b0 + p * b1) = (a0 - b0) + p * (a1 - b1)" for p :: "'a::comm_ring_1"
  by (simp_all add: algebra_simps)

lemma ucast_diff_noborrow: "uint y \<le> uint x \<Longrightarrow> (ucast (x - y) :: 'r::len word) = ucast x - ucast y"
  by (simp only: ucast_eq_word_of_int uint_sub_if' if_True of_int_diff)

lemma d_unpack16_add:
  assumes "d_unpack16 a = [a0, a1, a2, a3]" "d_unpack16 b = [b0, b1, b2, b3]"
    and "\<forall>(x, y) \<in> set [(a0, b0), (a1, b1), (a2, b2), (a3, b3)]. uint x + uint y < 2 ^ LENGTH(16)"
  shows "d_unpack16 (a + b) = [a0 + b0, a1 + b1, a2 + b2, a3 + b3]"
proof -
  have "a + b = d_pack16 [a0, a1, a2, a3] + d_pack16 [b0, b1, b2, b3]"
    by (simp flip: assms(1,2))
  also have "\<dots> = d_pack16 [a0 + b0, a1 + b1, a2 + b2, a3 + b3]"
    using assms(3) unfolding d_pack16_sum digits_add by (simp add: ucast_add_nocarry)
  finally show ?thesis by simp
qed

lemma d_unpack16_diff:
  assumes "d_unpack16 a = [a0, a1, a2, a3]" "d_unpack16 b = [b0, b1, b2, b3]"
    and "\<forall>(x, y) \<in> set [(a0, b0), (a1, b1), (a2, b2), (a3, b3)]. uint y \<le> uint x"
  shows "d_unpack16 (a - b) = [a0 - b0, a1 - b1, a2 - b2, a3 - b3]"
proof -
  have "a - b = d_pack16 [a0, a1, a2, a3] - d_pack16 [b0, b1, b2, b3]"
    by (simp flip: assms(1,2))
  also have "\<dots> = d_pack16 [a0 - b0, a1 - b1, a2 - b2, a3 - b3]"
    using assms(3) unfolding d_pack16_sum digits_diff by (simp add: ucast_diff_noborrow)
  finally show ?thesis by simp
qed

lemma d_unpack32_add:
  assumes "d_unpack32 a = [a0, a1]" "d_unpack32 b = [b0, b1]"
    and "\<forall>(x, y) \<in> set [(a0, b0), (a1, b1)]. uint x + uint y < 2 ^ LENGTH(32)"
  shows "d_unpack32 (a + b) = [a0 + b0, a1 + b1]"
proof -
  have "a + b = d_pack32 [a0, a1] + d_pack32 [b0, b1]" by (simp flip: assms(1,2))
  also have "\<dots> = d_pack32 [a0 + b0, a1 + b1]"
    using assms(3) unfolding d_pack32_sum digits_add by (simp add: ucast_add_nocarry)
  finally show ?thesis by simp
qed

lemma d_unpack32_diff:
  assumes "d_unpack32 a = [a0, a1]" "d_unpack32 b = [b0, b1]"
    and "\<forall>(x, y) \<in> set [(a0, b0), (a1, b1)]. uint y \<le> uint x"
  shows "d_unpack32 (a - b) = [a0 - b0, a1 - b1]"
proof -
  have "a - b = d_pack32 [a0, a1] - d_pack32 [b0, b1]" by (simp flip: assms(1,2))
  also have "\<dots> = d_pack32 [a0 - b0, a1 - b1]"
    using assms(3) unfolding d_pack32_sum digits_diff by (simp add: ucast_diff_noborrow)
  finally show ?thesis by simp
qed

lemma noborrow_lane: "uint (y AND NOT top_bit) \<le> uint (x OR top_bit)" for x y :: "'l::len word"
proof -
  have "uint (top_bit :: 'l word) = 2 ^ (LENGTH('l) - 1)"
    using uint_word_of_int [where 'a = 'l, of "2 ^ (LENGTH('l) - 1)"] unfolding top_bit_def by simp
  moreover have "uint (top_bit :: 'l word) \<le> uint (x OR top_bit)"
    using or_greater_eq [of "uint x" "uint (top_bit :: 'l word)"] by (simp add: uint_or or.commute)
  ultimately show ?thesis using uint_and_not_top [of y] by linarith
qed

lemma swar_sub_lane: "((x OR top_bit) - (y AND NOT top_bit)) XOR ((x XOR NOT y) AND top_bit) = x - y"
  for x y :: "'l::len word"
proof -
  define xm ym where "xm = x AND NOT top_bit" and "ym = y AND NOT top_bit"
  have "x OR top_bit = xm + top_bit"
    unfolding xm_def by (subst disjunctive_add) (auto simp: bit_simps intro: bit_word_eqI)
  moreover have "(x XOR NOT y) AND top_bit = (if bit x (LENGTH('l) - 1) = bit y (LENGTH('l) - 1) then top_bit else 0)"
    by (rule bit_word_eqI) (auto simp: bit_simps)
  moreover have "x - y = xm - ym + (if bit x (LENGTH('l) - 1) = bit y (LENGTH('l) - 1) then 0 else top_bit)"
  proof -
    have t: "- top_bit = (top_bit :: 'l word)" using top_bit_double [where 'l = 'l] by (metis minus_unique)
    have "x - y = (xm + (x AND top_bit)) - (ym + (y AND top_bit))"
      using split_top [of x] split_top [of y] unfolding xm_def ym_def by metis
    moreover have "xm - (ym + top_bit) = xm - ym + - top_bit" "(xm + top_bit) - ym = xm - ym + top_bit"
      "(xm + top_bit) - (ym + top_bit) = xm - ym" by (simp_all add: algebra_simps)
    ultimately show ?thesis unfolding and_top t by (simp split: if_splits)
  qed
  moreover have "w XOR top_bit = w + top_bit" for w :: "'l word" by (rule add_top [symmetric])
  moreover have "xm + top_bit - ym + top_bit = xm - ym + (top_bit + top_bit)" "xm + top_bit - ym = xm - ym + top_bit"
    by (simp_all add: algebra_simps)
  ultimately show ?thesis unfolding ym_def [symmetric] by (simp add: top_bit_double)
qed

lemma neon_addl_u16_lanes: "d_unpack16 (neon_addl_u16 a b) = map2 (+) (d_unpack16 a) (d_unpack16 b)"
proof -
  obtain a0 a1 a2 a3 b0 b1 b2 b3 where
    l: "d_unpack16 a = [a0, a1, a2, a3]" "d_unpack16 b = [b0, b1, b2, b3]"
    unfolding d_unpack16_def by blast
  have t: "d_unpack16 0x8000800080008000 = [top_bit, top_bit, top_bit, top_bit]"
    by (simp add: d_unpack16_def top_bit_def)
  have m: "d_unpack16 (a AND NOT 0x8000800080008000) = [a0 AND NOT top_bit, a1 AND NOT top_bit, a2 AND NOT top_bit, a3 AND NOT top_bit]"
    "d_unpack16 (b AND NOT 0x8000800080008000) = [b0 AND NOT top_bit, b1 AND NOT top_bit, b2 AND NOT top_bit, b3 AND NOT top_bit]"
    by (simp_all only: d_unpack16_bitwise l t list.map zip_Cons_Cons zip_Nil prod.case)
  have "d_unpack16 ((a AND NOT 0x8000800080008000) + (b AND NOT 0x8000800080008000)) =
      map2 (\<lambda>x y. (x AND NOT top_bit) + (y AND NOT top_bit)) [a0, a1, a2, a3] [b0, b1, b2, b3]"
    using d_unpack16_add [OF m] nocarry_lane [where 'l = 16] by simp
  then show ?thesis
    unfolding neon_addl_u16_def Let_def d_unpack16_bitwise l t
    by (simp only: list.map zip_Cons_Cons zip_Nil prod.case swar_lane)
qed

lemma neon_subl_u16_lanes: "d_unpack16 (neon_subl_u16 a b) = map2 (-) (d_unpack16 a) (d_unpack16 b)"
proof -
  obtain a0 a1 a2 a3 b0 b1 b2 b3 where
    l: "d_unpack16 a = [a0, a1, a2, a3]" "d_unpack16 b = [b0, b1, b2, b3]"
    unfolding d_unpack16_def by blast
  have t: "d_unpack16 0x8000800080008000 = [top_bit, top_bit, top_bit, top_bit]"
    by (simp add: d_unpack16_def top_bit_def)
  have m: "d_unpack16 (a OR 0x8000800080008000) = [a0 OR top_bit, a1 OR top_bit, a2 OR top_bit, a3 OR top_bit]"
    "d_unpack16 (b AND NOT 0x8000800080008000) = [b0 AND NOT top_bit, b1 AND NOT top_bit, b2 AND NOT top_bit, b3 AND NOT top_bit]"
    by (simp_all only: d_unpack16_bitwise l t list.map zip_Cons_Cons zip_Nil prod.case)
  have "d_unpack16 ((a OR 0x8000800080008000) - (b AND NOT 0x8000800080008000)) =
      map2 (\<lambda>x y. (x OR top_bit) - (y AND NOT top_bit)) [a0, a1, a2, a3] [b0, b1, b2, b3]"
    using d_unpack16_diff [OF m] noborrow_lane [where 'l = 16] by simp
  then show ?thesis
    unfolding neon_subl_u16_def Let_def d_unpack16_bitwise l t
    by (simp only: list.map zip_Cons_Cons zip_Nil prod.case swar_sub_lane)
qed

lemma neon_addl_u32_lanes: "d_unpack32 (neon_addl_u32 a b) = map2 (+) (d_unpack32 a) (d_unpack32 b)"
proof -
  obtain a0 a1 b0 b1 where l: "d_unpack32 a = [a0, a1]" "d_unpack32 b = [b0, b1]"
    unfolding d_unpack32_def by blast
  have t: "d_unpack32 0x8000000080000000 = [top_bit, top_bit]"
    by (simp add: d_unpack32_def top_bit_def)
  have m: "d_unpack32 (a AND NOT 0x8000000080000000) = [a0 AND NOT top_bit, a1 AND NOT top_bit]"
    "d_unpack32 (b AND NOT 0x8000000080000000) = [b0 AND NOT top_bit, b1 AND NOT top_bit]"
    by (simp_all only: d_unpack32_bitwise l t list.map zip_Cons_Cons zip_Nil prod.case)
  have "d_unpack32 ((a AND NOT 0x8000000080000000) + (b AND NOT 0x8000000080000000)) =
      map2 (\<lambda>x y. (x AND NOT top_bit) + (y AND NOT top_bit)) [a0, a1] [b0, b1]"
    using d_unpack32_add [OF m] nocarry_lane [where 'l = 32] by simp
  then show ?thesis
    unfolding neon_addl_u32_def Let_def d_unpack32_bitwise l t
    by (simp only: list.map zip_Cons_Cons zip_Nil prod.case swar_lane)
qed

lemma neon_subl_u32_lanes: "d_unpack32 (neon_subl_u32 a b) = map2 (-) (d_unpack32 a) (d_unpack32 b)"
proof -
  obtain a0 a1 b0 b1 where l: "d_unpack32 a = [a0, a1]" "d_unpack32 b = [b0, b1]"
    unfolding d_unpack32_def by blast
  have t: "d_unpack32 0x8000000080000000 = [top_bit, top_bit]"
    by (simp add: d_unpack32_def top_bit_def)
  have m: "d_unpack32 (a OR 0x8000000080000000) = [a0 OR top_bit, a1 OR top_bit]"
    "d_unpack32 (b AND NOT 0x8000000080000000) = [b0 AND NOT top_bit, b1 AND NOT top_bit]"
    by (simp_all only: d_unpack32_bitwise l t list.map zip_Cons_Cons zip_Nil prod.case)
  have "d_unpack32 ((a OR 0x8000000080000000) - (b AND NOT 0x8000000080000000)) =
      map2 (\<lambda>x y. (x OR top_bit) - (y AND NOT top_bit)) [a0, a1] [b0, b1]"
    using d_unpack32_diff [OF m] noborrow_lane [where 'l = 32] by simp
  then show ?thesis
    unfolding neon_subl_u32_def Let_def d_unpack32_bitwise l t
    by (simp only: list.map zip_Cons_Cons zip_Nil prod.case swar_sub_lane)
qed

section \<open>Pairwise addition\<close>

lemma long_masks:
  "(0x0000ffff0000ffff :: u64) = mask 16 OR push_bit 32 (mask 16)"
  "(0xffff0000ffff0000 :: u64) = push_bit 16 (mask 16) OR push_bit 48 (mask 16)"
  "(0xffff00000000 :: u64) = push_bit 32 (mask 16)" "(0xffff000000000000 :: u64) = push_bit 48 (mask 16)"
  by (simp_all add: mask_eq_exp_minus_1)

lemma pair_sums:
  assumes "d_unpack16 a = [a0, a1, a2, a3]"
  shows "d_unpack32 ((a AND 0x0000ffff0000ffff) + (drop_bit 16 a AND 0x0000ffff0000ffff)) =
    [ucast a0 + ucast a1, ucast a2 + ucast a3]"
proof (rule d_unpack32_add)
  show "d_unpack32 (a AND 0x0000ffff0000ffff) = [ucast a0, ucast a2]"
    "d_unpack32 (drop_bit 16 a AND 0x0000ffff0000ffff) = [ucast a1, ucast a3]"
    using assms unfolding d_unpack16_def d_unpack32_def long_masks list.inject
    by (auto intro!: bit_word_eqI simp: bit_simps)
  have b: "uint (ucast (x::u16) :: u32) < 65536" for x using uint_ranges(2) [of x] by (simp add: uint_up_ucast is_up)
  show "\<forall>(x, y) \<in> set [(ucast a0 :: u32, ucast a1 :: u32), (ucast a2, ucast a3)]. uint x + uint y < 2 ^ LENGTH(32)"
    using add_strict_mono [OF b [of a0] b [of a1]] add_strict_mono [OF b [of a2] b [of a3]] by simp
qed

lemma neon_paddl_u16_lanes:
  "d_unpack16 (neon_paddl_u16 a b) = neon_pairs (+) (d_unpack16 a) @ neon_pairs (+) (d_unpack16 b)"
proof -
  obtain a0 a1 a2 a3 b0 b1 b2 b3 where
    l: "d_unpack16 a = [a0, a1, a2, a3]" "d_unpack16 b = [b0, b1, b2, b3]"
    unfolding d_unpack16_def by blast
  define P where "P c = (c AND 0x0000ffff0000ffff) + (drop_bit 16 c AND 0x0000ffff0000ffff)" for c :: u64
  have "(b AND 0xffff0000ffff0000) + (push_bit 16 b AND 0xffff0000ffff0000) = push_bit 16 (P b)"
  proof -
    have "b AND 0xffff0000ffff0000 = push_bit 16 (drop_bit 16 b AND 0x0000ffff0000ffff)"
      "push_bit 16 b AND 0xffff0000ffff0000 = push_bit 16 (b AND 0x0000ffff0000ffff)"
      unfolding long_masks by (rule bit_word_eqI; auto simp: bit_simps)+
    then show ?thesis unfolding P_def by (simp only: push_bit_eq_mult distrib_right add.commute)
  qed
  then have e: "neon_paddl_u16 a b = (P a AND mask 16) OR (drop_bit 16 (P a) AND push_bit 16 (mask 16))
      OR (push_bit 16 (push_bit 16 (P b)) AND push_bit 32 (mask 16)) OR (push_bit 16 (P b) AND push_bit 48 (mask 16))"
    unfolding neon_paddl_u16_def Let_def P_def [symmetric] mask_numerals long_masks(3,4) by simp
  have "d_unpack16 (neon_paddl_u16 a b) = [ucast (P a), ucast (drop_bit 32 (P a)), ucast (P b), ucast (drop_bit 32 (P b))]"
    unfolding e d_unpack16_def list.inject by (intro conjI bit_word_eqI refl; auto simp: bit_simps)
  also have "\<dots> = map ucast (d_unpack32 (P a) @ d_unpack32 (P b))"
    by (simp add: d_unpack32_def ucast_ucast_down)
  also have "\<dots> = neon_pairs (+) [a0, a1, a2, a3] @ neon_pairs (+) [b0, b1, b2, b3]"
    unfolding P_def pair_sums [OF l(1)] pair_sums [OF l(2)] by (simp add: ucast_add_down ucast_ucast_up)
  finally show ?thesis unfolding l .
qed

lemma neon_paddl_u32_lanes:
  "d_unpack32 (neon_paddl_u32 a b) = neon_pairs (+) (d_unpack32 a) @ neon_pairs (+) (d_unpack32 b)"
proof -
  have "neon_paddl_u32 a b = d_pack32 [ucast (a + drop_bit 32 a), ucast (b + drop_bit 32 b)]"
    by (simp add: neon_paddl_u32_def Let_def d_pack32_sum push_bit_eq_mult mult.commute)
  then show ?thesis by (simp add: d_unpack32_def [of a] d_unpack32_def [of b] ucast_add_down)
qed

section \<open>Saturating addition and sign manipulation\<close>

lemma addl_sat32_lane:
  "(if (a + b XOR a) AND SIGNBIT \<noteq> 0 \<and> \<not> (a XOR b) AND SIGNBIT \<noteq> 0
    then (signed_drop_bit 31 a XOR NOT SIGNBIT, SET_QC env) else (a + b, env)) = ssat_res (sint a + sint b) env"
proof -
  have e: "signed_drop_bit 31 a XOR NOT SIGNBIT = NOT (signed_drop_bit 31 a XOR SIGNBIT)" by simp
  show ?thesis using neon_qadd_s32_sat [of env a b] unfolding neon_qadd_s32_def Let_def e .
qed

lemma neon_addl_saturate_s32_sat:
  "neon_addl_saturate_s32 env a b = ssat_vop d_unpack32 d_pack32 (\<lambda>x y. sint x + sint y) env a b"
  unfolding neon_addl_saturate_s32_def Let_def addl_sat32_lane ssat_vop_def d32.length_unpack ex_less_numerals
  by (simp add: ssat_res_def NEON_VOP_def d_unpack32_def d_pack32_def)

lemma sint_min: "sint (2 ^ (LENGTH('l) - 1) :: 'l::len word) = - (2 ^ (LENGTH('l) - 1))"
proof -
  have "(2 ^ (LENGTH('l) - 1) :: 'l word) = word_of_int (- (2 ^ (LENGTH('l) - 1)))"
    using top_bit_double [where 'l = 'l] by (simp add: top_bit_def eq_neg_iff_add_eq_0)
  then show ?thesis by (simp only:) (rule sint_word_of_int, simp_all)
qed

lemma DO_QNEG_sat: "DO_QNEG env x = ssat_res (- sint x) env" for x :: "'l::len word"
proof -
  have e: "x = 2 ^ (LENGTH('l) - 1) \<longleftrightarrow> sint x = - (2 ^ (LENGTH('l) - 1))"
    unfolding word_eq_iff_sint sint_min ..
  have "(x = 2 ^ (LENGTH('l) - 1)) \<longleftrightarrow> ssat LENGTH('l) (- sint x) \<noteq> - sint x"
    unfolding e ssat_id_iff using sint_range [of x] by linarith
  then show ?thesis
    unfolding DO_QNEG_def by (rule ssat_res_ifI) (simp_all add: sint_min del: One_nat_def)
qed

lemma DO_QABS_sat: "DO_QABS env x = ssat_res \<bar>sint x\<bar> env" for x :: "'l::len word"
proof (cases "sint x < 0")
  case True
  then show ?thesis using DO_QNEG_sat [of env x] by (simp only: DO_QABS_def DO_QNEG_def if_True abs_of_neg)
next
  case False
  then have "x \<noteq> 2 ^ (LENGTH('l) - 1)" by (auto simp: sint_min simp del: One_nat_def)
  then show ?thesis using False sint_range [of x] by (simp add: DO_QABS_def ssat_res_id)
qed

lemma DO1_ENV_sat: "NEON_DO1_ENV (\<lambda>env x. ssat_res (h x) env) env xs =
    (map (\<lambda>x. ssat_word (h x) :: 'l word) xs, set_qc_if (\<exists>x\<in>set xs. ssat LENGTH('l) (h x) \<noteq> h x) env)"
  for h :: "'l::len word \<Rightarrow> int"
  by (induction xs arbitrary: env) (simp_all add: ssat_res_def)

lemma qneg_sat:
  "neon_qabs_s8 env x = ssat_lanes (\<lambda>l. \<bar>sint l\<bar>) neon_pack8 (neon_unpack8 x) env"
  "neon_qneg_s8 env x = ssat_lanes (\<lambda>l. - sint l) neon_pack8 (neon_unpack8 x) env"
  "neon_qabs_s16 env x = ssat_lanes (\<lambda>l. \<bar>sint l\<bar>) neon_pack16 (neon_unpack16 x) env"
  "neon_qneg_s16 env x = ssat_lanes (\<lambda>l. - sint l) neon_pack16 (neon_unpack16 x) env"
  unfolding neon_qabs_s8_def neon_qneg_s8_def neon_qabs_s16_def neon_qneg_s16_def DO_QABS_sat [abs_def] DO_QNEG_sat [abs_def]
  by (simp_all add: DO1_ENV_sat ssat_lanes_def)

lemma qneg_sat_wide:
  "neon_qabs_s32 env a = ssat_res \<bar>sint a\<bar> env" "neon_qneg_s32 env a = ssat_res (- sint a) env"
  "neon_qabs_s64 env c = ssat_res \<bar>sint c\<bar> env" "neon_qneg_s64 env c = ssat_res (- sint c) env"
  unfolding DO_QABS_sat [symmetric] DO_QNEG_sat [symmetric]
  by (simp_all add: neon_qabs_s32_def neon_qneg_s32_def neon_qabs_s64_def neon_qneg_s64_def DO_QABS_def DO_QNEG_def
    SIGNBIT_def SIGNBIT64_def)

section \<open>Absolute difference and products\<close>

lemma word_of_int_via:
  "0 \<le> k \<Longrightarrow> k < 2 ^ LENGTH('w) \<Longrightarrow> (word_of_int k :: u64) = ucast (word_of_int k :: 'w::len word)"
  by (simp only: ucast_eq_word_of_int uint_word_of_int)

lemma DO_ABD_u_exact:
  assumes "LENGTH('i) \<le> LENGTH('a)" "LENGTH('i) \<le> LENGTH('w)"
  shows "DO_ABD_u TYPE('i::len) TYPE('a::len) x y =
    ucast (word_of_int \<bar>uint (ucast x :: 'i word) - uint (ucast y :: 'i word)\<bar> :: 'w::len word)"
proof -
  define u v :: "'i word" where "u = ucast x" and "v = ucast y"
  have up: "uint (ucast w :: 'a word) = uint w" for w :: "'i word" using assms(1) by (simp add: uint_up_ucast is_up)
  have "(2::int) ^ LENGTH('i) \<le> 2 ^ LENGTH('w)" using assms(2) by (intro power_increasing) auto
  then have "\<bar>uint u - uint v\<bar> < 2 ^ LENGTH('w)" using abs_diff_less(1) [of u v] by linarith
  moreover have "DO_ABD_u TYPE('i) TYPE('a) x y = word_of_int \<bar>uint u - uint v\<bar>"
    unfolding DO_ABD_u_def Let_def u_def [symmetric] v_def [symmetric]
    by (simp only: ucast_eq_word_of_int [where 'b = 64] word_less_def uint_sub_if' up abs_if split: if_splits) auto
  ultimately show ?thesis unfolding u_def [symmetric] v_def [symmetric] by (simp only: word_of_int_via abs_ge_zero)
qed

lemma DO_ABD_s_exact:
  assumes "LENGTH('i) < LENGTH('a)" "LENGTH('i) \<le> LENGTH('w)"
  shows "DO_ABD_s TYPE('i::len) TYPE('a::len) x y =
    ucast (word_of_int \<bar>sint (ucast x :: 'i word) - sint (ucast y :: 'i word)\<bar> :: 'w::len word)"
proof -
  define u v :: "'i word" where "u = ucast x" and "v = ucast y"
  have up: "sint (scast w :: 'a word) = sint w" for w :: "'i word" using assms(1) by (simp add: sint_up_scast is_up)
  have "(2::int) ^ LENGTH('i) \<le> 2 ^ (LENGTH('a) - 1)" using assms(1) by (intro power_increasing) auto
  then have "sint ((scast u :: 'a word) - scast v) = sint u - sint v" "sint ((scast v :: 'a word) - scast u) = sint v - sint u"
    using abs_diff_less(2) [of u v] by (subst sint_diff_exact; simp only: up; linarith)+
  then have "DO_ABD_s TYPE('i) TYPE('a) x y = word_of_int \<bar>sint u - sint v\<bar>"
    unfolding DO_ABD_s_def Let_def u_def [symmetric] v_def [symmetric]
    by (simp only: scast_eq_word_of_int [where 'b = 64] up abs_if split: if_splits) auto
  moreover have "(2::int) ^ LENGTH('i) \<le> 2 ^ LENGTH('w)" using assms(2) by (intro power_increasing) auto
  then have "\<bar>sint u - sint v\<bar> < 2 ^ LENGTH('w)" using abs_diff_less(2) [of u v] by linarith
  ultimately show ?thesis unfolding u_def [symmetric] v_def [symmetric] by (simp only: word_of_int_via abs_ge_zero)
qed

lemma DO_MULL_exact:
  "DO_MULL_u TYPE('t::len) TYPE('w::len) x y = ucast (word_of_int (uint (ucast x :: 't word) * uint (ucast y :: 't word)) :: 'w word)"
  "DO_MULL_s TYPE('t::len) TYPE('w::len) x y = ucast (word_of_int (sint (ucast x :: 't word) * sint (ucast y :: 't word)) :: 'w word)"
  unfolding DO_MULL_u_def DO_MULL_s_def Let_def by (simp_all only: ucast_eq_word_of_int [where 'b = 'w] scast_eq_word_of_int of_int_mult)

lemmas abd_exact =
  DO_ABD_u_exact [where 'i = 8 and 'a = 32 and 'w = 16, simplified]
  DO_ABD_u_exact [where 'i = 16 and 'a = 32 and 'w = 32, simplified]
  DO_ABD_s_exact [where 'i = 8 and 'a = 32 and 'w = 16, simplified]
  DO_ABD_s_exact [where 'i = 16 and 'a = 32 and 'w = 32, simplified]

lemma long_lanes:
  "d_unpack16 (neon_abdl_u16 a b) = map2 (\<lambda>x y. word_of_int \<bar>uint x - uint y\<bar>) (neon_unpack8 a) (neon_unpack8 b)"
  "d_unpack16 (neon_abdl_s16 a b) = map2 (\<lambda>x y. word_of_int \<bar>sint x - sint y\<bar>) (neon_unpack8 a) (neon_unpack8 b)"
  "d_unpack32 (neon_abdl_u32 a b) = map2 (\<lambda>x y. word_of_int \<bar>uint x - uint y\<bar>) (neon_unpack16 a) (neon_unpack16 b)"
  "d_unpack32 (neon_abdl_s32 a b) = map2 (\<lambda>x y. word_of_int \<bar>sint x - sint y\<bar>) (neon_unpack16 a) (neon_unpack16 b)"
  "d_unpack16 (neon_mull_u8 a b) = map2 (\<lambda>x y. word_of_int (uint x * uint y)) (neon_unpack8 a) (neon_unpack8 b)"
  "d_unpack16 (neon_mull_s8 a b) = map2 (\<lambda>x y. word_of_int (sint x * sint y)) (neon_unpack8 a) (neon_unpack8 b)"
  "d_unpack32 (neon_mull_u16 a b) = map2 (\<lambda>x y. word_of_int (uint x * uint y)) (neon_unpack16 a) (neon_unpack16 b)"
  "d_unpack32 (neon_mull_s16 a b) = map2 (\<lambda>x y. word_of_int (sint x * sint y)) (neon_unpack16 a) (neon_unpack16 b)"
proof -
  have p16: "d_unpack16 (ucast v0 OR push_bit 16 (ucast v1) OR push_bit 32 (ucast v2) OR push_bit 48 (ucast v3)) = [v0, v1, v2, v3]"
    for v0 v1 v2 v3 :: u16 using d_unpack_pack16 [of "[v0, v1, v2, v3]"] by (simp add: d_pack16_def)
  have p32: "d_unpack32 (ucast v0 OR push_bit 32 (ucast v1)) = [v0, v1]"
    for v0 v1 :: u32 using d_unpack_pack32 [of "[v0, v1]"] by (simp add: d_pack32_def)
  show "d_unpack16 (neon_abdl_u16 a b) = map2 (\<lambda>x y. word_of_int \<bar>uint x - uint y\<bar>) (neon_unpack8 a) (neon_unpack8 b)"
    "d_unpack16 (neon_abdl_s16 a b) = map2 (\<lambda>x y. word_of_int \<bar>sint x - sint y\<bar>) (neon_unpack8 a) (neon_unpack8 b)"
    "d_unpack32 (neon_abdl_u32 a b) = map2 (\<lambda>x y. word_of_int \<bar>uint x - uint y\<bar>) (neon_unpack16 a) (neon_unpack16 b)"
    "d_unpack32 (neon_abdl_s32 a b) = map2 (\<lambda>x y. word_of_int \<bar>sint x - sint y\<bar>) (neon_unpack16 a) (neon_unpack16 b)"
    unfolding neon_abdl_u16_def neon_abdl_s16_def neon_abdl_u32_def neon_abdl_s32_def abd_exact p16 p32
    by (simp_all add: neon_unpack8_def neon_unpack16_def)
  show "d_unpack16 (neon_mull_u8 a b) = map2 (\<lambda>x y. word_of_int (uint x * uint y)) (neon_unpack8 a) (neon_unpack8 b)"
    "d_unpack16 (neon_mull_s8 a b) = map2 (\<lambda>x y. word_of_int (sint x * sint y)) (neon_unpack8 a) (neon_unpack8 b)"
    "d_unpack32 (neon_mull_u16 a b) = map2 (\<lambda>x y. word_of_int (uint x * uint y)) (neon_unpack16 a) (neon_unpack16 b)"
    "d_unpack32 (neon_mull_s16 a b) = map2 (\<lambda>x y. word_of_int (sint x * sint y)) (neon_unpack16 a) (neon_unpack16 b)"
    unfolding neon_mull_u8_def neon_mull_s8_def neon_mull_u16_def neon_mull_s16_def DO_MULL_exact p16 p32
    by (simp_all add: neon_unpack8_def neon_unpack16_def)
qed

lemma abdl64: "uint (neon_abdl_u64 a b) = \<bar>uint a - uint b\<bar>" "uint (neon_abdl_s64 a b) = \<bar>sint a - sint b\<bar>"
proof -
  have "\<bar>uint a - uint b\<bar> < 2 ^ LENGTH(64)" "\<bar>sint a - sint b\<bar> < 2 ^ LENGTH(64)"
    using abs_diff_less [of a b] by simp_all
  then show "uint (neon_abdl_u64 a b) = \<bar>uint a - uint b\<bar>" "uint (neon_abdl_s64 a b) = \<bar>sint a - sint b\<bar>"
    unfolding neon_abdl_u64_def neon_abdl_s64_def
    using DO_ABD_u_exact [where 'i = 32 and 'a = 64 and 'w = 64, of a b] DO_ABD_s_exact [where 'i = 32 and 'a = 64 and 'w = 64, of a b]
      uint_word_of_int [where 'a = 64, of "\<bar>uint a - uint b\<bar>"] uint_word_of_int [where 'a = 64, of "\<bar>sint a - sint b\<bar>"] by simp_all
qed

lemma negl_lanes:
  "d_unpack16 (neon_negl_u16 x) = map uminus (d_unpack16 x)" "d_unpack32 (neon_negl_u32 x) = map uminus (d_unpack32 x)"
proof -
  have "neon_negl_u16 x = d_pack16 (map uminus (d_unpack16 x))" "neon_negl_u32 x = d_pack32 (map uminus (d_unpack32 x))"
    by (simp_all add: neon_negl_u16_def neon_negl_u32_def Let_def d_pack16_def d_pack32_def d_unpack16_def d_unpack32_def ucast_uminus_down)
  then show "d_unpack16 (neon_negl_u16 x) = map uminus (d_unpack16 x)" "d_unpack32 (neon_negl_u32 x) = map uminus (d_unpack32 x)"
    by simp_all
qed

section \<open>Properties\<close>

text \<open>
  C16. Long addition, subtraction, pairwise addition and negation of 64-bit vectors, computed
  with whole-word arithmetic, act on each lane modulo its width: no carry or borrow crosses
  a lane.
\<close>

theorem neon_long_arith_correct:
  "d_unpack16 (neon_addl_u16 a b) = map2 (+) (d_unpack16 a) (d_unpack16 b) \<and>
   d_unpack32 (neon_addl_u32 a b) = map2 (+) (d_unpack32 a) (d_unpack32 b) \<and>
   d_unpack16 (neon_subl_u16 a b) = map2 (-) (d_unpack16 a) (d_unpack16 b) \<and>
   d_unpack32 (neon_subl_u32 a b) = map2 (-) (d_unpack32 a) (d_unpack32 b) \<and>
   d_unpack16 (neon_paddl_u16 a b) = neon_pairs (+) (d_unpack16 a) @ neon_pairs (+) (d_unpack16 b) \<and>
   d_unpack32 (neon_paddl_u32 a b) = neon_pairs (+) (d_unpack32 a) @ neon_pairs (+) (d_unpack32 b) \<and>
   d_unpack16 (neon_negl_u16 a) = map uminus (d_unpack16 a) \<and>
   d_unpack32 (neon_negl_u32 a) = map uminus (d_unpack32 a)"
  by (intro conjI neon_addl_u16_lanes neon_addl_u32_lanes neon_subl_u16_lanes neon_subl_u32_lanes
    neon_paddl_u16_lanes neon_paddl_u32_lanes negl_lanes)

text \<open>
  C17. The widening absolute difference and the widening multiplication store the exact absolute
  difference and the exact product of the narrow lanes in the wide lanes.
\<close>

theorem neon_long_mul_correct:
  "map uint (d_unpack16 (neon_abdl_u16 a b)) = map2 (\<lambda>x y. \<bar>uint x - uint y\<bar>) (neon_unpack8 a) (neon_unpack8 b) \<and>
   map uint (d_unpack16 (neon_abdl_s16 a b)) = map2 (\<lambda>x y. \<bar>sint x - sint y\<bar>) (neon_unpack8 a) (neon_unpack8 b) \<and>
   map uint (d_unpack32 (neon_abdl_u32 a b)) = map2 (\<lambda>x y. \<bar>uint x - uint y\<bar>) (neon_unpack16 a) (neon_unpack16 b) \<and>
   map uint (d_unpack32 (neon_abdl_s32 a b)) = map2 (\<lambda>x y. \<bar>sint x - sint y\<bar>) (neon_unpack16 a) (neon_unpack16 b) \<and>
   uint (neon_abdl_u64 a b) = \<bar>uint a - uint b\<bar> \<and> uint (neon_abdl_s64 a b) = \<bar>sint a - sint b\<bar> \<and>
   map uint (d_unpack16 (neon_mull_u8 a b)) = map2 (\<lambda>x y. uint x * uint y) (neon_unpack8 a) (neon_unpack8 b) \<and>
   map sint (d_unpack16 (neon_mull_s8 a b)) = map2 (\<lambda>x y. sint x * sint y) (neon_unpack8 a) (neon_unpack8 b) \<and>
   map uint (d_unpack32 (neon_mull_u16 a b)) = map2 (\<lambda>x y. uint x * uint y) (neon_unpack16 a) (neon_unpack16 b) \<and>
   map sint (d_unpack32 (neon_mull_s16 a b)) = map2 (\<lambda>x y. sint x * sint y) (neon_unpack16 a) (neon_unpack16 b)"
proof -
  have u: "uint (word_of_int \<bar>uint x - uint y\<bar> :: u16) = \<bar>uint x - uint y\<bar>" "uint (word_of_int \<bar>sint x - sint y\<bar> :: u16) = \<bar>sint x - sint y\<bar>"
    for x y :: u8 using abs_diff_less [of x y] by (simp_all add: uint_word_of_int)
  have v: "uint (word_of_int \<bar>uint x - uint y\<bar> :: u32) = \<bar>uint x - uint y\<bar>" "uint (word_of_int \<bar>sint x - sint y\<bar> :: u32) = \<bar>sint x - sint y\<bar>"
    for x y :: u16 using abs_diff_less [of x y] by (simp_all add: uint_word_of_int)
  have p8: "uint (word_of_int (uint x * uint y) :: u16) = uint x * uint y" "sint (word_of_int (sint x * sint y) :: u16) = sint x * sint y"
    for x y :: u8
  proof -
    have "0 \<le> uint x * uint y" "uint x * uint y \<le> 65025" "- 16384 \<le> sint x * sint y" "sint x * sint y \<le> 16384"
      using product_bounds [of "uint x" 255 "uint y"] product_bounds [of "sint x" 128 "sint y"] uint_ranges(1) [of x]
        uint_ranges(1) [of y] sint_ranges(1,2) [of x] sint_ranges(1,2) [of y] by simp_all
    note b = this
    show "uint (word_of_int (uint x * uint y) :: u16) = uint x * uint y" by (rule uint_word_of_int) (use b in simp_all)
    show "sint (word_of_int (sint x * sint y) :: u16) = sint x * sint y" by (rule sint_word_of_int) (use b in simp_all)
  qed
  have p16: "uint (word_of_int (uint x * uint y) :: u32) = uint x * uint y" "sint (word_of_int (sint x * sint y) :: u32) = sint x * sint y"
    for x y :: u16
  proof -
    have "0 \<le> uint x * uint y" "uint x * uint y \<le> 4294836225" "- 1073741824 \<le> sint x * sint y" "sint x * sint y \<le> 1073741824"
      using product_bounds [of "uint x" 65535 "uint y"] product_bounds [of "sint x" 32768 "sint y"] uint_ranges(2) [of x]
        uint_ranges(2) [of y] sint_ranges(3,4) [of x] sint_ranges(3,4) [of y] by simp_all
    note b = this
    show "uint (word_of_int (uint x * uint y) :: u32) = uint x * uint y" by (rule uint_word_of_int) (use b in simp_all)
    show "sint (word_of_int (sint x * sint y) :: u32) = sint x * sint y" by (rule sint_word_of_int) (use b in simp_all)
  qed
  show ?thesis
    unfolding long_lanes map_map by (simp add: comp_def case_prod_beta u v p8 [simplified] p16 [simplified] abdl64)
qed

text \<open>
  C18. Saturating long addition, absolute value and negation clamp the exact result of each lane
  to the signed range and raise \<open>QC\<close> exactly when a lane was clamped.
\<close>

theorem neon_qabs_qneg_correct:
  "neon_addl_saturate_s32 env c d = ssat_vop d_unpack32 d_pack32 (\<lambda>x y. sint x + sint y) env c d \<and>
   neon_addl_saturate_s64 env c d = ssat_res (sint c + sint d) env \<and>
   neon_qabs_s8 env a = ssat_lanes (\<lambda>l. \<bar>sint l\<bar>) neon_pack8 (neon_unpack8 a) env \<and>
   neon_qneg_s8 env a = ssat_lanes (\<lambda>l. - sint l) neon_pack8 (neon_unpack8 a) env \<and>
   neon_qabs_s16 env a = ssat_lanes (\<lambda>l. \<bar>sint l\<bar>) neon_pack16 (neon_unpack16 a) env \<and>
   neon_qneg_s16 env a = ssat_lanes (\<lambda>l. - sint l) neon_pack16 (neon_unpack16 a) env \<and>
   neon_qabs_s32 env a = ssat_res \<bar>sint a\<bar> env \<and> neon_qneg_s32 env a = ssat_res (- sint a) env \<and>
   neon_qabs_s64 env c = ssat_res \<bar>sint c\<bar> env \<and> neon_qneg_s64 env c = ssat_res (- sint c) env"
proof -
  have "neon_addl_saturate_s64 env c d = ssat_res (sint c + sint d) env"
    using neon_qadd_s64_sat [of env c d] by (simp add: neon_addl_saturate_s64_def neon_qadd_s64_def)
  then show ?thesis by (intro conjI neon_addl_saturate_s32_sat qneg_sat qneg_sat_wide)
qed

end
