(* ===== verification/Neon_Bits.thy ===== *)
theory Neon_Bits
  imports Neon_Long
begin

text \<open>
  The bit-counting and polynomial helpers of \<^verbatim>\<open>target-arm/neon_helper.c\<close>: leading zeros and sign
  bits (loops), population count and bit reversal (shifts and masks on all lanes at once),
  and multiplication of polynomials over GF(2).
\<close>

section \<open>Leading bits\<close>

lemma drop_bit_1_less: "x \<noteq> 0 \<Longrightarrow> drop_bit (Suc 0) x < x" for x :: "'a::len word"
proof -
  assume "x \<noteq> 0"
  then have "uint x \<noteq> 0" by (simp add: word_uint_eq_iff)
  then have "0 < uint x" using uint_range(1) [of x] by linarith
  then show ?thesis unfolding word_less_def uint_drop_bit by simp
qed

text \<open>The loop \<^verbatim>\<open>for (n = N; x; n--) x >>= 1;\<close> of \<^verbatim>\<open>do_clz8\<close>, \<^verbatim>\<open>do_clz16\<close> and \<^verbatim>\<open>neon_cls_s32\<close>.\<close>

function clz_loop :: "'a::len word \<Rightarrow> int \<Rightarrow> int" where
  "clz_loop x n = (if x = 0 then n else clz_loop (drop_bit 1 x) (n - 1))"
  by pat_completeness auto

termination
  by (relation "measure (\<lambda>(x, n). unat x)") (auto simp: drop_bit_1_less simp flip: word_less_nat_alt)

declare clz_loop.simps [simp del]

definition do_clz8 :: "u8 \<Rightarrow> int" where "do_clz8 x = clz_loop x 8"
definition do_clz16 :: "u16 \<Rightarrow> int" where "do_clz16 x = clz_loop x 16"

definition neon_clz_u8 :: "u32 \<Rightarrow> u32" where
  "neon_clz_u8 = NEON_VOP1 neon_unpack8 neon_pack8 (\<lambda>src. word_of_int (do_clz8 src))"

definition neon_clz_u16 :: "u32 \<Rightarrow> u32" where
  "neon_clz_u16 = NEON_VOP1 neon_unpack16 neon_pack16 (\<lambda>src. word_of_int (do_clz16 src))"

definition neon_cls_s8 :: "u32 \<Rightarrow> u32" where
  "neon_cls_s8 = NEON_VOP1 neon_unpack8 neon_pack8
     (\<lambda>src. word_of_int (do_clz8 (if sint src < 0 then NOT src else src) - 1))"

definition neon_cls_s16 :: "u32 \<Rightarrow> u32" where
  "neon_cls_s16 = NEON_VOP1 neon_unpack16 neon_pack16
     (\<lambda>src. word_of_int (do_clz16 (if sint src < 0 then NOT src else src) - 1))"

definition neon_cls_s32 :: "u32 \<Rightarrow> u32" where
  "neon_cls_s32 x = (let x = (if sint x < 0 then NOT x else x); count = clz_loop x 32 in word_of_int (count - 1))"

section \<open>Bit count and bit reversal\<close>

definition neon_cnt_u8 :: "u32 \<Rightarrow> u32" where
  "neon_cnt_u8 x =
     (let x = (x AND 0x55555555) + (drop_bit 1 x AND 0x55555555);
          x = (x AND 0x33333333) + (drop_bit 2 x AND 0x33333333);
          x = (x AND 0x0f0f0f0f) + (drop_bit 4 x AND 0x0f0f0f0f)
      in x)"

definition neon_rbit_u8 :: "u32 \<Rightarrow> u32" where
  "neon_rbit_u8 x =
     (let x = drop_bit 4 (x AND 0xf0f0f0f0) OR push_bit 4 (x AND 0x0f0f0f0f);
          x = drop_bit 3 (x AND 0x88888888) OR drop_bit 1 (x AND 0x44444444)
              OR push_bit 1 (x AND 0x22222222) OR push_bit 3 (x AND 0x11111111)
      in x)"

section \<open>Polynomial multiplication\<close>

lemma and_le: "x AND y \<le> x" for x y :: "'a::len word"
  by (simp add: word_le_def uint_and AND_upper1)

function mul_p8_loop :: "u32 \<Rightarrow> u32 \<Rightarrow> u32 \<Rightarrow> u32" where
  "mul_p8_loop op1 op2 result =
     (if op1 = 0 then result
      else (let mask = 0;
                mask = (if op1 AND 1 \<noteq> 0 then mask OR 0xff else mask);
                mask = (if op1 AND push_bit 8 1 \<noteq> 0 then mask OR push_bit 8 0xff else mask);
                mask = (if op1 AND push_bit 16 1 \<noteq> 0 then mask OR push_bit 16 0xff else mask);
                mask = (if op1 AND push_bit 24 1 \<noteq> 0 then mask OR push_bit 24 0xff else mask)
            in mul_p8_loop (drop_bit 1 op1 AND 0x7f7f7f7f) (push_bit 1 op2 AND 0xfefefefe) (result XOR (op2 AND mask))))"
  by pat_completeness auto

termination
  by (relation "measure (\<lambda>(op1, op2, result). unat op1)")
    (auto intro: le_less_trans [OF and_le drop_bit_1_less] simp flip: word_less_nat_alt)

declare mul_p8_loop.simps [simp del]

definition neon_mul_p8 :: "u32 \<Rightarrow> u32 \<Rightarrow> u32" where
  "neon_mul_p8 op1 op2 = mul_p8_loop op1 op2 0"

function mull_p8_loop :: "u32 \<Rightarrow> u64 \<Rightarrow> u64 \<Rightarrow> u64" where
  "mull_p8_loop op1 op2ex result =
     (if op1 = 0 then result
      else (let mask = 0;
                mask = (if op1 AND 1 \<noteq> 0 then mask OR 0xffff else mask);
                mask = (if op1 AND push_bit 8 1 \<noteq> 0 then mask OR ucast (push_bit 16 (0xffff :: u32)) else mask);
                mask = (if op1 AND push_bit 16 1 \<noteq> 0 then mask OR push_bit 32 0xffff else mask);
                mask = (if op1 AND push_bit 24 1 \<noteq> 0 then mask OR push_bit 48 0xffff else mask)
            in mull_p8_loop (drop_bit 1 op1 AND 0x7f7f7f7f) (push_bit 1 op2ex) (result XOR (op2ex AND mask))))"
  by pat_completeness auto

termination
  by (relation "measure (\<lambda>(op1, op2ex, result). unat op1)")
    (auto intro: le_less_trans [OF and_le drop_bit_1_less] simp flip: word_less_nat_alt)

declare mull_p8_loop.simps [simp del]

definition neon_mull_p8 :: "u32 \<Rightarrow> u32 \<Rightarrow> u64" where
  "neon_mull_p8 op1 op2 =
     (let op2ex = ucast op2 :: u64;
          op2ex = (op2ex AND 0xff) OR push_bit 8 (op2ex AND 0xff00) OR push_bit 16 (op2ex AND 0xff0000)
                  OR push_bit 24 (op2ex AND 0xff000000)
      in mull_p8_loop op1 op2ex 0)"

definition neon_pmull_64_lo :: "u64 \<Rightarrow> u64 \<Rightarrow> u64" where
  "neon_pmull_64_lo op1 op2 =
     foldl (\<lambda>res bitnum. if op1 AND push_bit bitnum 1 \<noteq> 0 then res XOR push_bit bitnum op2 else res) 0 [0..<64]"

definition neon_pmull_64_hi :: "u64 \<Rightarrow> u64 \<Rightarrow> u64" where
  "neon_pmull_64_hi op1 op2 =
     foldl (\<lambda>res bitnum. if op1 AND push_bit bitnum 1 \<noteq> 0 then res XOR drop_bit (64 - bitnum) op2 else res) 0 [1..<64]"

section \<open>Leading zeros and sign bits\<close>

lemma clz_loop_bits:
  "\<exists>k. clz_loop x n = n - int k \<and> uint x < 2 ^ k \<and> (k = 0 \<or> 2 ^ (k - 1) \<le> uint x)"
proof (induction x n rule: clz_loop.induct)
  case (1 x n)
  show ?case
  proof (cases "x = 0")
    case True
    then show ?thesis by (intro exI [of _ 0]) (simp add: clz_loop.simps)
  next
    case False
    then obtain k where k: "clz_loop (drop_bit 1 x) (n - 1) = n - 1 - int k" "uint x div 2 < 2 ^ k"
      "k = 0 \<or> 2 ^ (k - 1) \<le> uint x div 2"
      using 1 [OF False] uint_drop_bit [of 1 x] by auto
    have "uint x < 2 ^ Suc k" using k(2) by simp
    moreover have "2 ^ k \<le> uint x"
    proof (cases k)
      case 0
      have "uint x \<noteq> 0" using False by (simp add: word_uint_eq_iff)
      then have "1 \<le> uint x" using uint_range(1) [of x] by linarith
      then show ?thesis using 0 by simp
    next
      case (Suc j)
      then show ?thesis using k(3) by simp
    qed
    ultimately show ?thesis
      using False k(1) by (intro exI [of _ "Suc k"]) (simp add: clz_loop.simps [of x])
  qed
qed

text \<open>
  \<open>c\<close> is the number of leading zeros of \<open>v\<close> in \<open>w\<close> bits: \<open>v\<close> fits the remaining bits and does not fit
  one bit less. Likewise for the redundant copies of the sign bit of a signed value.
\<close>

definition is_clz :: "nat \<Rightarrow> int \<Rightarrow> int \<Rightarrow> bool" where
  "is_clz w v c \<longleftrightarrow> 0 \<le> c \<and> c \<le> int w \<and> v < 2 ^ nat (int w - c) \<and> (c < int w \<longrightarrow> 2 ^ nat (int w - c - 1) \<le> v)"

definition is_cls :: "nat \<Rightarrow> int \<Rightarrow> int \<Rightarrow> bool" where
  "is_cls w v c \<longleftrightarrow> 0 \<le> c \<and> c < int w \<and>
     - (2 ^ nat (int w - 1 - c)) \<le> v \<and> v < 2 ^ nat (int w - 1 - c) \<and>
     (c < int w - 1 \<longrightarrow> v < - (2 ^ nat (int w - 2 - c)) \<or> 2 ^ nat (int w - 2 - c) \<le> v)"

lemma clz_loop_spec: "is_clz LENGTH('a) (uint x) (clz_loop x (int LENGTH('a)))" for x :: "'a::len word"
proof -
  obtain k where k: "clz_loop x (int LENGTH('a)) = int LENGTH('a) - int k" "uint x < 2 ^ k" "k = 0 \<or> 2 ^ (k - 1) \<le> uint x"
    using clz_loop_bits [of x "int LENGTH('a)"] by blast
  have "k \<le> LENGTH('a)"
  proof (rule ccontr)
    assume n: "\<not> k \<le> LENGTH('a)"
    then have "(2::int) ^ LENGTH('a) \<le> 2 ^ (k - 1)" by (intro power_increasing) auto
    moreover have "2 ^ (k - 1) \<le> uint x" using k(3) n by (cases k) auto
    ultimately show False using uint_range(2) [of x] by linarith
  qed
  then show ?thesis
    using k by (auto simp: is_clz_def nat_diff_distrib)
qed

lemma sint_not: "sint (NOT x) = - sint x - 1" for x :: "'a::len word"
proof -
  have "NOT x = word_of_int (- sint x - 1)" by (simp add: not_eq_complement)
  moreover have "- (2 ^ (LENGTH('a) - 1)) \<le> - sint x - 1" "- sint x - 1 < 2 ^ (LENGTH('a) - 1)"
    using sint_range [of x] by linarith+
  ultimately show ?thesis by (simp only: sint_word_of_int)
qed

lemma cls_spec:
  "is_cls LENGTH('a) (sint x) (clz_loop (if sint x < 0 then NOT x else x) (int LENGTH('a)) - 1)" for x :: "'a::len word"
proof -
  define y where "y = (if sint x < 0 then NOT x else x)"
  define v where "v = (if sint x < 0 then - sint x - 1 else sint x)"
  define c where "c = clz_loop y (int LENGTH('a))"
  have "\<not> sint y < 0" unfolding y_def by (auto simp: sint_not)
  then have "uint y = v" unfolding v_def y_def by (auto simp: sint_eq_uint_nonneg [symmetric] sint_not)
  then have z: "is_clz LENGTH('a) v c" using clz_loop_spec [of y] unfolding c_def by simp
  have "v < 2 ^ (LENGTH('a) - 1)" unfolding v_def using sint_range [of x] by auto
  then have "c \<noteq> 0"
    using z len_gt_0 [where 'a = 'a] unfolding is_clz_def by (auto simp: nat_int_minus_1 simp del: len_gt_0)
  then have "int LENGTH('a) - 1 - (c - 1) = int LENGTH('a) - c" "int LENGTH('a) - 2 - (c - 1) = int LENGTH('a) - c - 1" "0 \<le> c - 1"
    using z unfolding is_clz_def by auto
  then show ?thesis
    using z unfolding is_cls_def is_clz_def y_def [symmetric] c_def [symmetric] v_def
    by (simp split: if_splits) linarith
qed

text \<open>A count fits the lane it is stored in.\<close>

lemma int_less_exp: "int n < 2 ^ n"
  by (metis less_exp of_nat_less_iff of_nat_numeral of_nat_power)

lemma clz_lane: "is_clz LENGTH('a) (uint x) (uint (word_of_int (clz_loop x (int LENGTH('a))) :: 'a word))"
  for x :: "'a::len word"
proof -
  have "0 \<le> clz_loop x (int LENGTH('a))" "clz_loop x (int LENGTH('a)) < 2 ^ LENGTH('a)"
    using clz_loop_spec [of x] int_less_exp [of "LENGTH('a)"] unfolding is_clz_def by linarith+
  then show ?thesis using clz_loop_spec [of x] by (simp only: uint_word_of_int)
qed

lemma cls_lane:
  "is_cls LENGTH('a) (sint x)
    (uint (word_of_int (clz_loop (if sint x < 0 then NOT x else x) (int LENGTH('a)) - 1) :: 'a word))" for x :: "'a::len word"
proof -
  let ?c = "clz_loop (if sint x < 0 then NOT x else x) (int LENGTH('a)) - 1"
  have "0 \<le> ?c" "?c < 2 ^ LENGTH('a)"
    using cls_spec [of x] int_less_exp [of "LENGTH('a)"] unfolding is_cls_def by linarith+
  then show ?thesis using cls_spec [of x] by (simp only: uint_word_of_int)
qed

section \<open>Population count and bit reversal\<close>

text \<open>Both act on each byte alone; the byte operations are then compared with their specification.\<close>

definition cnt_byte :: "u8 \<Rightarrow> u8" where
  "cnt_byte x =
     (let x = (x AND 0x55) + (drop_bit 1 x AND 0x55);
          x = (x AND 0x33) + (drop_bit 2 x AND 0x33);
          x = (x AND 0x0f) + (drop_bit 4 x AND 0x0f)
      in x)"

definition popcount8 :: "u8 \<Rightarrow> u8" where
  "popcount8 x = (\<Sum>i\<leftarrow>[0..<8]. of_bool (bit x i))"

lemma byte_bits:
  "x = of_bool (bit x 0) + 2 * of_bool (bit x 1) + 4 * of_bool (bit x 2) + 8 * of_bool (bit x 3) +
    16 * of_bool (bit x 4) + 32 * of_bool (bit x 5) + 64 * of_bool (bit x 6) + 128 * of_bool (bit x 7)" (is "_ = ?rhs") for x :: u8
proof -
  have "x = take_bit 8 x" by (simp add: take_bit_word_eq_self)
  also have "\<dots> = horner_sum of_bool 2 (map (bit x) [0..<8])"
    by (simp only: horner_sum_bit_eq_take_bit)
  also have "[0..<8] = [0, 1, 2, 3, 4, 5, 6, 7 :: nat]" by code_simp
  also have "horner_sum of_bool 2 (map (bit x) [0, 1, 2, 3, 4, 5, 6, 7]) = ?rhs"
    unfolding list.map horner_sum_simps distrib_left by (simp add: add.assoc)
  finally show ?thesis .
qed

lemma cnt_byte_bits:
  "cnt_byte (of_bool b0 + 2 * of_bool b1 + 4 * of_bool b2 + 8 * of_bool b3 +
    16 * of_bool b4 + 32 * of_bool b5 + 64 * of_bool b6 + 128 * of_bool b7) =
   of_bool b0 + of_bool b1 + of_bool b2 + of_bool b3 + of_bool b4 + of_bool b5 + of_bool b6 + of_bool b7"
  by (cases b0; cases b1; cases b2; cases b3; cases b4; cases b5; cases b6; cases b7; simp add: cnt_byte_def)

lemma cnt_byte_popcount: "cnt_byte x = popcount8 x"
proof -
  have "[0..<8] = [0, 1, 2, 3, 4, 5, 6, 7 :: nat]" by code_simp
  then have "popcount8 x = of_bool (bit x 0) + of_bool (bit x 1) + of_bool (bit x 2) + of_bool (bit x 3) +
      of_bool (bit x 4) + of_bool (bit x 5) + of_bool (bit x 6) + of_bool (bit x 7)"
    unfolding popcount8_def by (simp add: add.assoc)
  then show ?thesis using cnt_byte_bits [of "bit x 0" "bit x 1" "bit x 2" "bit x 3" "bit x 4" "bit x 5" "bit x 6" "bit x 7"]
    by (simp only: byte_bits [symmetric])
qed

lemma unpack8_drop_bit:
  assumes "neon_unpack8 m = [b, b, b, b]" "\<And>i. bit b i \<Longrightarrow> i + k < 8"
  shows "neon_unpack8 (drop_bit k x AND m) = map (\<lambda>l. drop_bit k l AND b) (neon_unpack8 x)"
proof -
  have m: "ucast (drop_bit n m) = b" if "n \<in> {0, 8, 16, 24}" for n
    using assms(1) that by (auto simp: neon_unpack8_def)
  have "(ucast (drop_bit n (drop_bit k x AND m)) :: u8) = drop_bit k (ucast (drop_bit n x)) AND b"
    if n: "n \<in> {0, 8, 16, 24}" for n
  proof (rule bit_word_eqI)
    fix i assume "i < LENGTH(8)"
    then show "bit (ucast (drop_bit n (drop_bit k x AND m)) :: u8) i \<longleftrightarrow> bit (drop_bit k (ucast (drop_bit n x)) AND b) i"
      using n assms(2) [of i] by (auto simp: m [OF n, symmetric] bit_simps ac_simps)
  qed
  from this [of 0] this [of 8] this [of 16] this [of 24] show ?thesis
    by (simp add: neon_unpack8_def)
qed

lemma unpack8_push_bit:
  assumes "neon_unpack8 m = [b, b, b, b]" "\<And>i. bit b i \<Longrightarrow> k \<le> i"
  shows "neon_unpack8 (push_bit k x AND m) = map (\<lambda>l. push_bit k l AND b) (neon_unpack8 x)"
proof -
  have m: "ucast (drop_bit n m) = b" if "n \<in> {0, 8, 16, 24}" for n
    using assms(1) that by (auto simp: neon_unpack8_def)
  have "(ucast (drop_bit n (push_bit k x AND m)) :: u8) = push_bit k (ucast (drop_bit n x)) AND b"
    if n: "n \<in> {0, 8, 16, 24}" for n
  proof (rule bit_word_eqI)
    fix i assume "i < LENGTH(8)"
    then show "bit (ucast (drop_bit n (push_bit k x AND m)) :: u8) i \<longleftrightarrow> bit (push_bit k (ucast (drop_bit n x)) AND b) i"
      using n assms(2) [of i] by (auto simp: m [OF n, symmetric] bit_simps)
  qed
  from this [of 0] this [of 8] this [of 16] this [of 24] show ?thesis
    by (simp add: neon_unpack8_def)
qed

lemma and_add_less:
  "uint b + uint c < k \<Longrightarrow> uint (x AND b) + uint (y AND c) < k" for b c :: "'a::len word"
  using AND_upper2 [OF uint_range(1) [of b], of "uint x"] AND_upper2 [OF uint_range(1) [of c], of "uint y"]
  unfolding uint_and by linarith

lemma unpack8_add_masked:
  assumes "neon_unpack8 m = [b, b, b, b]" "uint b + uint b < 256" "neon_unpack8 y = map f (neon_unpack8 x)"
    "\<And>l. f l = g l AND b"
  shows "neon_unpack8 ((x AND m) + y) = map (\<lambda>l. (l AND b) + f l) (neon_unpack8 x)"
proof -
  obtain x0 x1 x2 x3 where l: "neon_unpack8 x = [x0, x1, x2, x3]" unfolding neon_unpack8_def by blast
  show ?thesis
    by (subst unpack8_add_nocarry [of _ "x0 AND b" "x1 AND b" "x2 AND b" "x3 AND b" _ "f x0" "f x1" "f x2" "f x3"])
      (use assms(2) in \<open>simp_all add: unpack8_bitwise assms(1,3,4) l and_add_less\<close>)
qed

lemma cnt_step:
  assumes "neon_unpack8 m = [b, b, b, b]" "uint b + uint b < 256" "\<And>i. bit b i \<Longrightarrow> i + k < 8"
  shows "neon_unpack8 ((x AND m) + (drop_bit k x AND m)) = map (\<lambda>l. (l AND b) + (drop_bit k l AND b)) (neon_unpack8 x)"
  by (rule unpack8_add_masked [OF assms(1,2) unpack8_drop_bit [OF assms(1,3)] refl])

lemma mask_bits:
  "bit (0x55 :: u8) i \<Longrightarrow> i + 1 < 8" "bit (0x33 :: u8) i \<Longrightarrow> i + 2 < 8" "bit (0x0f :: u8) i \<Longrightarrow> i + 4 < 8"
  "bit (0x11 :: u8) i \<Longrightarrow> i + 3 < 8" "bit (0x22 :: u8) i \<Longrightarrow> i + 1 < 8"
  "bit (0x44 :: u8) i \<Longrightarrow> 1 \<le> i" "bit (0x88 :: u8) i \<Longrightarrow> 3 \<le> i" "bit (0xf0 :: u8) i \<Longrightarrow> 4 \<le> i"
  "bit (0xfe :: u8) i \<Longrightarrow> 1 \<le> i" "bit (0x7f :: u8) i \<Longrightarrow> i + 1 < 8"
  by (auto dest!: bit_imp_le_length simp: numeral_eq_Suc less_Suc_eq)

lemma mask_lanes:
  "neon_unpack8 0x55555555 = [0x55, 0x55, 0x55, 0x55]" "neon_unpack8 0x33333333 = [0x33, 0x33, 0x33, 0x33]"
  "neon_unpack8 0x0f0f0f0f = [0x0f, 0x0f, 0x0f, 0x0f]" "neon_unpack8 0x11111111 = [0x11, 0x11, 0x11, 0x11]"
  "neon_unpack8 0x22222222 = [0x22, 0x22, 0x22, 0x22]" "neon_unpack8 0x44444444 = [0x44, 0x44, 0x44, 0x44]"
  "neon_unpack8 0x88888888 = [0x88, 0x88, 0x88, 0x88]" "neon_unpack8 0xf0f0f0f0 = [0xf0, 0xf0, 0xf0, 0xf0]"
  "neon_unpack8 0xfefefefe = [0xfe, 0xfe, 0xfe, 0xfe]" "neon_unpack8 0x7f7f7f7f = [0x7f, 0x7f, 0x7f, 0x7f]"
  by (simp_all add: neon_unpack8_def)

lemma cnt_steps:
  "neon_unpack8 ((x AND 0x55555555) + (drop_bit 1 x AND 0x55555555)) =
    map (\<lambda>l. (l AND 0x55) + (drop_bit 1 l AND 0x55)) (neon_unpack8 x)"
  "neon_unpack8 ((x AND 0x33333333) + (drop_bit 2 x AND 0x33333333)) =
    map (\<lambda>l. (l AND 0x33) + (drop_bit 2 l AND 0x33)) (neon_unpack8 x)"
  "neon_unpack8 ((x AND 0x0f0f0f0f) + (drop_bit 4 x AND 0x0f0f0f0f)) =
    map (\<lambda>l. (l AND 0x0f) + (drop_bit 4 l AND 0x0f)) (neon_unpack8 x)"
  by (rule cnt_step; (rule mask_lanes | erule mask_bits | simp))+

lemma neon_cnt_lanes: "neon_unpack8 (neon_cnt_u8 x) = map cnt_byte (neon_unpack8 x)"
  unfolding neon_cnt_u8_def Let_def cnt_steps
  by (simp add: cnt_byte_def Let_def)

definition rbit_byte :: "u8 \<Rightarrow> u8" where
  "rbit_byte x =
     (let x = (drop_bit 4 x AND 0x0f) OR (push_bit 4 x AND 0xf0)
      in (drop_bit 3 x AND 0x11) OR (drop_bit 1 x AND 0x22) OR (push_bit 1 x AND 0x44) OR (push_bit 3 x AND 0x88))"

definition rev8 :: "u8 \<Rightarrow> u8" where
  "rev8 x = horner_sum of_bool 2 (rev (map (bit x) [0..<8]))"

lemma rbit_byte_bits:
  "rbit_byte (of_bool b0 + 2 * of_bool b1 + 4 * of_bool b2 + 8 * of_bool b3 +
    16 * of_bool b4 + 32 * of_bool b5 + 64 * of_bool b6 + 128 * of_bool b7) =
   horner_sum of_bool 2 [b7, b6, b5, b4, b3, b2, b1, b0]"
  by (cases b0; cases b1; cases b2; cases b3; cases b4; cases b5; cases b6; cases b7; simp add: rbit_byte_def)

lemma rbit_byte_rev: "rbit_byte x = rev8 x"
proof -
  have "[0..<8] = [0, 1, 2, 3, 4, 5, 6, 7 :: nat]" by code_simp
  then have "rev8 x = horner_sum of_bool 2 [bit x 7, bit x 6, bit x 5, bit x 4, bit x 3, bit x 2, bit x 1, bit x 0]"
    unfolding rev8_def by (simp only: list.map rev.simps append.simps)
  then show ?thesis using rbit_byte_bits [of "bit x 0" "bit x 1" "bit x 2" "bit x 3" "bit x 4" "bit x 5" "bit x 6" "bit x 7"]
    by (simp only: byte_bits [symmetric])
qed

lemma unpack8_or: "neon_unpack8 (a OR b) = map2 (OR) (neon_unpack8 a) (neon_unpack8 b)"
  by (simp add: neon_unpack8_def ucast_or drop_bit_or)

lemma neon_rbit_lanes: "neon_unpack8 (neon_rbit_u8 x) = map rbit_byte (neon_unpack8 x)"
proof -
  obtain x0 x1 x2 x3 where l: "neon_unpack8 x = [x0, x1, x2, x3]" unfolding neon_unpack8_def by blast
  have masks: "drop_bit 4 (y AND 0xf0f0f0f0) = drop_bit 4 y AND 0x0f0f0f0f"
    "push_bit 4 (y AND 0x0f0f0f0f) = push_bit 4 y AND 0xf0f0f0f0"
    "drop_bit 3 (y AND 0x88888888) = drop_bit 3 y AND 0x11111111"
    "drop_bit 1 (y AND 0x44444444) = drop_bit 1 y AND 0x22222222"
    "push_bit 1 (y AND 0x22222222) = push_bit 1 y AND 0x44444444"
    "push_bit 3 (y AND 0x11111111) = push_bit 3 y AND 0x88888888" for y :: u32
    by (simp_all add: drop_bit_and push_bit_and)
  show ?thesis
    unfolding neon_rbit_u8_def Let_def masks unpack8_or
    by (simp only: unpack8_drop_bit [OF mask_lanes(3) mask_bits(3)] unpack8_push_bit [OF mask_lanes(8) mask_bits(8)]
      unpack8_drop_bit [OF mask_lanes(4) mask_bits(4)] unpack8_drop_bit [OF mask_lanes(5) mask_bits(5)]
      unpack8_push_bit [OF mask_lanes(6) mask_bits(6)] unpack8_push_bit [OF mask_lanes(7) mask_bits(7)]
      unpack8_or l list.map zip_Cons_Cons zip_Nil prod.case rbit_byte_def Let_def)
qed

section \<open>Polynomial products\<close>

text \<open>
  Coefficient \<open>n\<close> of the product of the polynomials whose coefficients are the bits of \<open>a\<close> and \<open>b\<close>: the
  parity of the number of pairs of set coefficients whose degrees add up to \<open>n\<close>.
\<close>

definition clmul_bit :: "'a::len word \<Rightarrow> 'b::len word \<Rightarrow> nat \<Rightarrow> bool" where
  "clmul_bit a b n = odd (length (filter (\<lambda>i. bit a i \<and> bit b (n - i)) [0..<Suc n]))"

definition pmul :: "'a::len word \<Rightarrow> 'a word \<Rightarrow> 'a word" where
  "pmul a b = horner_sum of_bool 2 (map (clmul_bit a b) [0..<LENGTH('a)])"

lemma bit_pmul: "bit (pmul a b) n \<longleftrightarrow> n < LENGTH('a) \<and> clmul_bit a b n" for a b :: "'a::len word"
  unfolding pmul_def by (auto simp: bit_horner_sum_bit_word_iff)

lemma pmul_0 [simp]: "pmul 0 b = 0"
  by (rule bit_word_eqI) (simp add: bit_pmul clmul_bit_def)

lemma clmul_bit_rec:
  "clmul_bit a b n \<longleftrightarrow> ((bit a 0 \<and> bit b n) \<noteq> (0 < n \<and> clmul_bit (drop_bit 1 a) b (n - 1)))"
proof (cases n)
  case 0
  then show ?thesis by (simp add: clmul_bit_def)
next
  case (Suc m)
  have "[0..<Suc n] = 0 # map Suc [0..<Suc m]"
    unfolding Suc map_Suc_upt by (simp add: upt_rec)
  then show ?thesis
    unfolding clmul_bit_def by (auto simp: Suc filter_map comp_def bit_drop_bit_eq simp del: upt_Suc)
qed

lemma clmul_bit_push:
  "n < LENGTH('b) \<Longrightarrow> clmul_bit a (push_bit 1 b) n \<longleftrightarrow> 0 < n \<and> clmul_bit a b (n - 1)" for b :: "'b::len word"
proof -
  assume n: "n < LENGTH('b)"
  define c where "c = push_bit 1 b"
  have c: "bit c k \<longleftrightarrow> 0 < k \<and> bit b (k - 1)" if "k \<le> n" for k
    using that n unfolding c_def bit_push_bit_iff by auto
  show ?thesis unfolding c_def [symmetric]
  proof (cases n)
    case 0
    then show "clmul_bit a c n \<longleftrightarrow> 0 < n \<and> clmul_bit a b (n - 1)" by (simp add: clmul_bit_def c)
  next
    case (Suc m)
    have "filter (\<lambda>i. bit a i \<and> bit c (n - i)) [0..<Suc n] = filter (\<lambda>i. bit a i \<and> bit c (n - i)) [0..<Suc m]"
      by (simp add: Suc c)
    also have "\<dots> = filter (\<lambda>i. bit a i \<and> bit b (m - i)) [0..<Suc m]"
      by (rule filter_cong) (auto simp: Suc c)
    finally show "clmul_bit a c n \<longleftrightarrow> 0 < n \<and> clmul_bit a b (n - 1)" by (simp add: clmul_bit_def Suc)
  qed
qed

lemma pmul_step: "pmul a b = (if odd a then b else 0) XOR pmul (drop_bit 1 a) (push_bit 1 b)"
  for a b :: "'a::len word"
proof (rule bit_word_eqI)
  fix n assume "n < LENGTH('a)"
  then show "bit (pmul a b) n \<longleftrightarrow> bit ((if odd a then b else 0) XOR pmul (drop_bit 1 a) (push_bit 1 b)) n"
    using clmul_bit_rec [of a b n] clmul_bit_push [of n "drop_bit 1 a" b]
    by (auto simp: bit_simps bit_pmul bit_0)
qed

text \<open>The 64-bit products accumulate the partial products of the set bits of the first operand.\<close>

lemma bit_pmull_lo_fold:
  "n < 64 \<Longrightarrow>
    bit (foldl (\<lambda>res k. if op1 AND push_bit k 1 \<noteq> 0 then res XOR push_bit k op2 else res) 0 [0..<m]) n \<longleftrightarrow>
    odd (length (filter (\<lambda>i. i \<le> n \<and> bit op1 i \<and> bit op2 (n - i)) [0..<m]))" for op1 op2 :: u64
proof (induction m)
  case (Suc m)
  have "op1 AND push_bit m 1 \<noteq> 0 \<longleftrightarrow> bit op1 m" by (simp add: and_exp_eq_0_iff_not_bit)
  then show ?case using Suc by (auto simp: bit_simps)
qed simp

lemma bit_pmull_hi_fold:
  "n < 64 \<Longrightarrow> m \<le> 64 \<Longrightarrow>
    bit (foldl (\<lambda>res k. if op1 AND push_bit k 1 \<noteq> 0 then res XOR drop_bit (64 - k) op2 else res) 0 [1..<m]) n \<longleftrightarrow>
    odd (length (filter (\<lambda>i. bit op1 i \<and> bit op2 (n + 64 - i)) [1..<m]))" for op1 op2 :: u64
proof (induction m)
  case (Suc m)
  have "op1 AND push_bit m 1 \<noteq> 0 \<longleftrightarrow> bit op1 m" by (simp add: and_exp_eq_0_iff_not_bit)
  moreover have "64 - m + n = n + 64 - m" using Suc.prems by simp
  ultimately show ?case using Suc by (cases "m = 0") (auto simp: bit_simps)
qed simp

lemma not_bit_64: "64 \<le> i \<Longrightarrow> \<not> bit (x :: u64) i"
  using bit_imp_le_length [of x i] by auto

lemma pmull_64_lo_bit: "n < 64 \<Longrightarrow> bit (neon_pmull_64_lo op1 op2) n \<longleftrightarrow> clmul_bit op1 op2 n"
proof -
  assume n: "n < 64"
  let ?P = "\<lambda>i. i \<le> n \<and> bit op1 i \<and> bit op2 (n - i)"
  have "filter ?P [0..<64] = filter ?P [0..<Suc n] @ filter ?P [Suc n..<64]"
    using n upt_add_eq_append [of 0 "Suc n" "63 - n"] by (simp del: upt_Suc)
  also have "filter ?P [Suc n..<64] = []" by (auto simp: filter_empty_conv)
  also have "filter ?P [0..<Suc n] = filter (\<lambda>i. bit op1 i \<and> bit op2 (n - i)) [0..<Suc n]"
    by (rule filter_cong) auto
  finally show ?thesis
    unfolding neon_pmull_64_lo_def bit_pmull_lo_fold [OF n] clmul_bit_def by simp
qed

lemma pmull_64_hi_bit: "n < 64 \<Longrightarrow> bit (neon_pmull_64_hi op1 op2) n \<longleftrightarrow> clmul_bit op1 op2 (n + 64)"
proof -
  assume n: "n < 64"
  let ?P = "\<lambda>i. bit op1 i \<and> bit op2 (n + 64 - i)"
  have "[0..<Suc (n + 64)] = [0..<1] @ [1..<64] @ [64..<Suc (n + 64)]"
    using upt_add_eq_append [of 0 1 "64 + n"] upt_add_eq_append [of 1 64 "Suc n"] by (simp add: ac_simps del: upt_Suc)
  moreover have "filter ?P [0..<1] = []" "filter ?P [64..<Suc (n + 64)] = []"
    by (auto simp: filter_empty_conv not_bit_64)
  ultimately have "filter ?P [0..<Suc (n + 64)] = filter ?P [1..<64]" by (simp only: filter_append) simp
  then show ?thesis
    unfolding neon_pmull_64_hi_def bit_pmull_hi_fold [OF n order_refl] clmul_bit_def by simp
qed

text \<open>
  The byte products run on all lanes at once. One round of the loop adds, in each lane, the
  shifted second operand when the low bit of the first is set.
\<close>

definition p8_mask :: "u32 \<Rightarrow> u32" where
  "p8_mask op1 =
     (let mask = 0;
          mask = (if op1 AND 1 \<noteq> 0 then mask OR 0xff else mask);
          mask = (if op1 AND push_bit 8 1 \<noteq> 0 then mask OR push_bit 8 0xff else mask);
          mask = (if op1 AND push_bit 16 1 \<noteq> 0 then mask OR push_bit 16 0xff else mask)
      in if op1 AND push_bit 24 1 \<noteq> 0 then mask OR push_bit 24 0xff else mask)"

definition p16_mask :: "u32 \<Rightarrow> u64" where
  "p16_mask op1 =
     (let mask = 0;
          mask = (if op1 AND 1 \<noteq> 0 then mask OR 0xffff else mask);
          mask = (if op1 AND push_bit 8 1 \<noteq> 0 then mask OR ucast (push_bit 16 (0xffff :: u32)) else mask);
          mask = (if op1 AND push_bit 16 1 \<noteq> 0 then mask OR push_bit 32 0xffff else mask)
      in if op1 AND push_bit 24 1 \<noteq> 0 then mask OR push_bit 48 0xffff else mask)"

lemma test_bits:
  "op1 AND 1 \<noteq> 0 \<longleftrightarrow> bit op1 0" "op1 AND push_bit 8 1 \<noteq> 0 \<longleftrightarrow> bit op1 8"
  "op1 AND push_bit 16 1 \<noteq> 0 \<longleftrightarrow> bit op1 16" "op1 AND push_bit 24 1 \<noteq> 0 \<longleftrightarrow> bit op1 24" for op1 :: u32
  using and_exp_eq_0_iff_not_bit [of op1 0] and_exp_eq_0_iff_not_bit [of op1 8]
    and_exp_eq_0_iff_not_bit [of op1 16] and_exp_eq_0_iff_not_bit [of op1 24] by (simp_all add: bit_0)

lemma odd_lanes:
  "map odd (neon_unpack8 op1) = [bit op1 0, bit op1 8, bit op1 16, bit op1 24]"
  unfolding neon_unpack8_def by (simp add: bit_simps flip: bit_0)

lemma p8_mask_lanes: "neon_unpack8 (p8_mask op1) = map (\<lambda>l. if odd l then - 1 else 0) (neon_unpack8 op1)"
proof -
  have "neon_unpack8 (p8_mask op1) = map (\<lambda>c. if c then - 1 else 0) [bit op1 0, bit op1 8, bit op1 16, bit op1 24]"
    unfolding p8_mask_def Let_def test_bits neon_unpack8_def
    by (cases "bit op1 0"; cases "bit op1 8"; cases "bit op1 16"; cases "bit op1 24"; simp)
  then show ?thesis unfolding odd_lanes [symmetric] by simp
qed

lemma p16_mask_lanes: "d_unpack16 (p16_mask op1) = map (\<lambda>l. if odd l then - 1 else 0) (neon_unpack8 op1)"
proof -
  have "d_unpack16 (p16_mask op1) = map (\<lambda>c. if c then - 1 else 0) [bit op1 0, bit op1 8, bit op1 16, bit op1 24]"
    unfolding p16_mask_def Let_def test_bits d_unpack16_def
    by (cases "bit op1 0"; cases "bit op1 8"; cases "bit op1 16"; cases "bit op1 24"; simp)
  then show ?thesis unfolding odd_lanes [symmetric] by simp
qed

lemma bit_push_1: "bit (push_bit 1 x) i \<longleftrightarrow> 0 < i \<and> i < LENGTH('a) \<and> bit x (i - 1)" for x :: "'a::len word"
  unfolding bit_push_bit_iff by (auto dest: bit_imp_le_length)

lemma bit_not_1: "bit (NOT 1 :: u8) i \<longleftrightarrow> 1 \<le> i \<and> i < 8"
  by (auto simp only: bit_not_iff bit_1_iff possible_bit_word) simp_all

lemma byte_shifts: "drop_bit 1 l AND 0x7f = drop_bit 1 l" "push_bit 1 l AND 0xfe = push_bit 1 l" for l :: u8
proof -
  show "drop_bit 1 l AND 0x7f = drop_bit 1 l"
    by (rule bit_word_eqI) (auto simp: bit_simps numeral_eq_Suc less_Suc_eq dest: bit_imp_le_length)
  have "(0xfe :: u8) = NOT 1" by simp
  moreover have "push_bit 1 l AND NOT 1 = push_bit 1 l"
  proof (rule bit_word_eqI)
    fix i assume "i < LENGTH(8)"
    then show "bit (push_bit 1 l AND NOT 1) i \<longleftrightarrow> bit (push_bit 1 l) i"
      unfolding bit_and_iff [of "push_bit 1 l"] bit_not_1 bit_push_1 by (simp; linarith)
  qed
  ultimately show "push_bit 1 l AND 0xfe = push_bit 1 l" by (simp only:)
qed

lemma p8_lanes:
  "neon_unpack8 (drop_bit 1 x AND 0x7f7f7f7f) = map (drop_bit 1) (neon_unpack8 x)"
  "neon_unpack8 (push_bit 1 x AND 0xfefefefe) = map (push_bit 1) (neon_unpack8 x)"
  using unpack8_drop_bit [OF mask_lanes(10) mask_bits(10), of x] unpack8_push_bit [OF mask_lanes(9) mask_bits(9), of x]
  by (simp_all only: byte_shifts)

lemma mask_and: "l AND (if c then - 1 else 0) = (if c then l else 0)" for l :: "'a::len word"
  by simp

lemma mul_p8_loop_lanes:
  "neon_unpack8 (mul_p8_loop op1 op2 r) = map2 (XOR) (neon_unpack8 r) (map2 pmul (neon_unpack8 op1) (neon_unpack8 op2))"
proof (induction op1 op2 r rule: mul_p8_loop.induct)
  case (1 op1 op2 r)
  obtain a0 a1 a2 a3 b0 b1 b2 b3 r0 r1 r2 r3 where l: "neon_unpack8 op1 = [a0, a1, a2, a3]"
    "neon_unpack8 op2 = [b0, b1, b2, b3]" "neon_unpack8 r = [r0, r1, r2, r3]" unfolding neon_unpack8_def by blast
  show ?case
  proof (cases "op1 = 0")
    case True
    then show ?thesis using l by (simp add: mul_p8_loop.simps [of 0] neon_unpack8_def)
  next
    case False
    have "mul_p8_loop op1 op2 r =
        mul_p8_loop (drop_bit 1 op1 AND 0x7f7f7f7f) (push_bit 1 op2 AND 0xfefefefe) (r XOR (op2 AND p8_mask op1))"
      using False unfolding mul_p8_loop.simps [of op1 op2 r] p8_mask_def Let_def by (simp only: if_False)
    moreover note 1 [OF False refl refl refl refl refl, folded p8_mask_def [unfolded Let_def]]
    ultimately show ?thesis unfolding p8_lanes
      by (simp only: unpack8_bitwise p8_mask_lanes l list.map zip_Cons_Cons zip_Nil prod.case mask_and
        pmul_step [of a0] pmul_step [of a1] pmul_step [of a2] pmul_step [of a3] xor.assoc)
  qed
qed

lemma not_bit_small: "uint l < 2 ^ n \<Longrightarrow> \<not> bit l n" for l :: "'a::len word"
proof -
  assume "uint l < 2 ^ n"
  then have "uint (drop_bit n l) = 0" by (simp add: uint_drop_bit div_pos_pos_trivial)
  then show ?thesis by (simp add: bit_iff_odd_drop_bit uint_0_iff)
qed

lemma d_unpack16_push_bit:
  assumes "\<And>l. l \<in> set (d_unpack16 x) \<Longrightarrow> uint l < 2 ^ 15"
  shows "d_unpack16 (push_bit 1 x) = map (push_bit 1) (d_unpack16 x)"
proof -
  have top: "\<not> bit x (n + 15)" if "n \<in> {0, 16, 32, 48}" for n
  proof -
    have "ucast (drop_bit n x) \<in> set (d_unpack16 x)" using that unfolding d_unpack16_def by auto
    from assms [OF this] have "\<not> bit (ucast (drop_bit n x) :: u16) 15" by (rule not_bit_small)
    then show ?thesis by (simp add: bit_simps)
  qed
  have "(ucast (drop_bit n (push_bit 1 x)) :: u16) = push_bit 1 (ucast (drop_bit n x))"
    if n: "n \<in> {0, 16, 32, 48}" for n
  proof (rule bit_word_eqI)
    fix i assume "i < LENGTH(16)"
    moreover have "\<not> bit x (n - 1)" if "n \<noteq> 0"
      using that n top [of "n - 16"] by auto
    ultimately show "bit (ucast (drop_bit n (push_bit 1 x)) :: u16) i \<longleftrightarrow> bit (push_bit 1 (ucast (drop_bit n x)) :: u16) i"
      using n unfolding bit_unsigned_iff bit_drop_bit_eq comp_def bit_push_1 by (cases "i = 0") auto
  qed
  from this [of 0] this [of 16] this [of 32] this [of 48] show ?thesis
    unfolding d_unpack16_def list.map by (simp only: insert_iff simp_thms drop_bit_0 id_apply)
qed

text \<open>
  The long product shifts the second operand in 16-bit lanes without a mask: after \<open>k\<close> rounds the first
  operand's lanes have at most \<open>8 - k\<close> bits and the second's at most \<open>8 + k\<close>, so no bit leaves its lane.
\<close>

definition p8_inv :: "nat \<Rightarrow> u32 \<Rightarrow> u64 \<Rightarrow> bool" where
  "p8_inv k op1 op2ex \<longleftrightarrow> k \<le> 8 \<and> (\<forall>l\<in>set (neon_unpack8 op1). uint l < 2 ^ (8 - k)) \<and>
     (\<forall>l\<in>set (d_unpack16 op2ex). uint l < 2 ^ (8 + k))"

lemma p8_inv_less: "p8_inv k op1 op2ex \<Longrightarrow> op1 \<noteq> 0 \<Longrightarrow> k < 8"
proof (rule ccontr)
  assume *: "p8_inv k op1 op2ex" "op1 \<noteq> 0" "\<not> k < 8"
  have "uint l = 0" if "l \<in> set (neon_unpack8 op1)" for l
  proof -
    have "uint l < 2 ^ (8 - k)" using * that unfolding p8_inv_def by blast
    moreover have "(2 :: int) ^ (8 - k) = 1" using *(3) by simp
    ultimately show ?thesis using uint_range(1) [of l] by linarith
  qed
  then have "neon_unpack8 op1 = neon_unpack8 0" by (simp add: neon_unpack8_def uint_0_iff)
  then show False using *(2) by (simp only: l8.unpack_inject)
qed

lemma uint_push_1: "uint l < 2 ^ n \<Longrightarrow> uint (push_bit 1 l) < 2 ^ Suc n" for l :: "'a::len word"
proof -
  assume "uint l < 2 ^ n"
  moreover have "uint (push_bit 1 l) \<le> 2 * uint l"
    using zmod_le_nonneg_dividend [of "2 * uint l" "2 ^ LENGTH('a)"] uint_range(1) [of l]
    by (simp add: push_bit_eq_mult uint_word_ariths mult.commute)
  ultimately show ?thesis by simp
qed

lemma p8_inv_shift:
  "p8_inv k op1 op2ex \<Longrightarrow> k < 8 \<Longrightarrow> d_unpack16 (push_bit 1 op2ex) = map (push_bit 1) (d_unpack16 op2ex)"
proof (rule d_unpack16_push_bit)
  fix l assume "p8_inv k op1 op2ex" "k < 8" "l \<in> set (d_unpack16 op2ex)"
  then have "uint l < 2 ^ (8 + k)" "8 + k \<le> 15" unfolding p8_inv_def by auto
  then show "uint l < 2 ^ 15" using power_increasing [of "8 + k" 15 "2 :: int"] by linarith
qed

lemma p8_inv_step: "p8_inv k op1 op2ex \<Longrightarrow> k < 8 \<Longrightarrow> p8_inv (Suc k) (drop_bit 1 op1 AND 0x7f7f7f7f) (push_bit 1 op2ex)"
proof -
  assume inv: "p8_inv k op1 op2ex" and k: "k < 8"
  note shift = p8_inv_shift [OF inv k]
  have "(2 :: int) ^ (8 - k) = 2 * 2 ^ (8 - Suc k)" using k by (simp flip: power_Suc add: Suc_diff_Suc)
  then show ?thesis
    using inv k uint_push_1 [of _ "8 + k"] unfolding p8_inv_def p8_lanes shift by (auto simp: uint_drop_bit)
qed

lemma ucast_lane: "drop_bit 1 (ucast l :: u16) = ucast (drop_bit 1 l)" "odd (ucast l :: u16) \<longleftrightarrow> odd l" for l :: u8
proof -
  show "drop_bit 1 (ucast l :: u16) = ucast (drop_bit 1 l)"
    by (rule bit_word_eqI) (auto simp: bit_simps dest: bit_imp_le_length)
  show "odd (ucast l :: u16) \<longleftrightarrow> odd l" using bit_unsigned_iff [of l 0, where 'a = "16 word"] by (simp add: bit_0)
qed

lemma mull_p8_loop_lanes:
  "p8_inv k op1 op2ex \<Longrightarrow> d_unpack16 (mull_p8_loop op1 op2ex r) =
    map2 (XOR) (d_unpack16 r) (map2 pmul (map ucast (neon_unpack8 op1)) (d_unpack16 op2ex))"
proof (induction op1 op2ex r arbitrary: k rule: mull_p8_loop.induct)
  case (1 op1 op2ex r)
  obtain a0 a1 a2 a3 b0 b1 b2 b3 r0 r1 r2 r3 where l: "neon_unpack8 op1 = [a0, a1, a2, a3]"
    "d_unpack16 op2ex = [b0, b1, b2, b3]" "d_unpack16 r = [r0, r1, r2, r3]"
    unfolding neon_unpack8_def d_unpack16_def by blast
  show ?case
  proof (cases "op1 = 0")
    case True
    then show ?thesis using l by (simp add: mull_p8_loop.simps [of 0] neon_unpack8_def)
  next
    case False
    note k = p8_inv_less [OF 1(2) False]
    note shift = p8_inv_shift [OF 1(2) k]
    have "mull_p8_loop op1 op2ex r =
        mull_p8_loop (drop_bit 1 op1 AND 0x7f7f7f7f) (push_bit 1 op2ex) (r XOR (op2ex AND p16_mask op1))"
      using False unfolding mull_p8_loop.simps [of op1 op2ex r] p16_mask_def Let_def by (simp only: if_False)
    moreover note 1(1) [OF False refl refl refl refl refl, folded p16_mask_def [unfolded Let_def],
        OF p8_inv_step [OF 1(2) k]]
    ultimately show ?thesis unfolding p8_lanes shift
      by (simp only: d_unpack16_bitwise p16_mask_lanes l list.map zip_Cons_Cons zip_Nil prod.case mask_and
        pmul_step [of "ucast a0"] pmul_step [of "ucast a1"] pmul_step [of "ucast a2"] pmul_step [of "ucast a3"]
        xor.assoc ucast_lane)
  qed
qed

lemma expand_lanes:
  "d_unpack16 ((ucast op2 AND 0xff) OR push_bit 8 (ucast op2 AND 0xff00) OR push_bit 16 (ucast op2 AND 0xff0000)
     OR push_bit 24 (ucast op2 AND 0xff000000)) = map ucast (neon_unpack8 op2)"
  unfolding mask_numerals d_unpack16_def neon_unpack8_def list.map list.inject
  by (intro conjI bit_word_eqI refl; auto simp: bit_simps)

lemma neon_mull_p8_lanes:
  "d_unpack16 (neon_mull_p8 a b) = map2 pmul (map ucast (neon_unpack8 a)) (map ucast (neon_unpack8 b))"
proof -
  let ?b = "(ucast b AND 0xff) OR push_bit 8 (ucast b AND 0xff00) OR push_bit 16 (ucast b AND 0xff0000)
     OR push_bit 24 (ucast b AND 0xff000000) :: u64"
  have "p8_inv 0 a ?b"
    unfolding p8_inv_def expand_lanes using uint_ranges(1) by (auto simp: uint_up_ucast is_up)
  note mull_p8_loop_lanes [OF this, of 0, unfolded expand_lanes]
  then show ?thesis unfolding neon_mull_p8_def Let_def
    by (simp add: neon_unpack8_def d_unpack16_def)
qed

lemma neon_mul_p8_lanes: "neon_unpack8 (neon_mul_p8 a b) = map2 pmul (neon_unpack8 a) (neon_unpack8 b)"
  unfolding neon_mul_p8_def mul_p8_loop_lanes by (simp add: neon_unpack8_def)

section \<open>Properties\<close>

text \<open>
  C19. Leading zeros and leading sign bits: every lane of \<^verbatim>\<open>neon_clz_u8/u16\<close> and \<^verbatim>\<open>neon_cls_s8/s16/s32\<close> is the number of
  leading zeros of the unsigned lane, respectively of the redundant sign bits of the signed one
  (the loops end on every input).
\<close>

theorem neon_clz_cls_correct:
  "list_all2 (\<lambda>x r. is_clz 8 (uint x) (uint r)) (neon_unpack8 a) (neon_unpack8 (neon_clz_u8 a)) \<and>
   list_all2 (\<lambda>x r. is_clz 16 (uint x) (uint r)) (neon_unpack16 a) (neon_unpack16 (neon_clz_u16 a)) \<and>
   list_all2 (\<lambda>x r. is_cls 8 (sint x) (uint r)) (neon_unpack8 a) (neon_unpack8 (neon_cls_s8 a)) \<and>
   list_all2 (\<lambda>x r. is_cls 16 (sint x) (uint r)) (neon_unpack16 a) (neon_unpack16 (neon_cls_s16 a)) \<and>
   is_cls 32 (sint a) (uint (neon_cls_s32 a))"
  unfolding neon_clz_u8_def neon_clz_u16_def neon_cls_s8_def neon_cls_s16_def neon_cls_s32_def Let_def
    l8.unpack_VOP1 l16.unpack_VOP1 list_all2_map2 do_clz8_def do_clz16_def
  using clz_lane [where 'a = 8] clz_lane [where 'a = 16] cls_lane [where 'a = 8] cls_lane [where 'a = 16]
    cls_lane [where 'a = 32, of a]
  by (simp add: list_all2_same)

text \<open>
  C20. \<^verbatim>\<open>neon_cnt_u8\<close> counts the set bits of each byte and \<^verbatim>\<open>neon_rbit_u8\<close> reverses the bits of each byte, without
  carries or bits crossing a lane.
\<close>

theorem neon_cnt_rbit_correct:
  "neon_unpack8 (neon_cnt_u8 x) = map popcount8 (neon_unpack8 x) \<and>
   neon_unpack8 (neon_rbit_u8 x) = map rev8 (neon_unpack8 x)"
  by (simp add: neon_cnt_lanes neon_rbit_lanes cnt_byte_popcount rbit_byte_rev)

text \<open>
  C21. Polynomial multiplication over GF(2): \<^verbatim>\<open>neon_mul_p8\<close> is the low half of the product of each pair of
  bytes, \<^verbatim>\<open>neon_mull_p8\<close> the full 16-bit product, and \<^verbatim>\<open>neon_pmull_64_lo/hi\<close> together are the
  128 coefficients of the product of two 64-bit polynomials.
\<close>

theorem neon_poly_mul_correct:
  "neon_unpack8 (neon_mul_p8 a b) = map2 pmul (neon_unpack8 a) (neon_unpack8 b) \<and>
   d_unpack16 (neon_mull_p8 a b) = map2 pmul (map ucast (neon_unpack8 a)) (map ucast (neon_unpack8 b)) \<and>
   map (bit (neon_pmull_64_lo c d)) [0..<64] @ map (bit (neon_pmull_64_hi c d)) [0..<64] =
     map (clmul_bit c d) [0..<128]"
proof -
  have "map (bit (neon_pmull_64_hi c d)) [0..<64] = map (clmul_bit c d) (map (\<lambda>n. n + 64) [0..<64])"
    by (simp add: pmull_64_hi_bit)
  also have "map (\<lambda>n. n + 64) [0..<64] = [64..<128]" by (simp add: map_add_upt)
  finally have "map (bit (neon_pmull_64_hi c d)) [0..<64] = map (clmul_bit c d) [64..<128]" .
  moreover have "map (bit (neon_pmull_64_lo c d)) [0..<64] = map (clmul_bit c d) [0..<64]"
    by (simp add: pmull_64_lo_bit)
  moreover have "[0..<64] @ [64..<128] = [0..<128 :: nat]" using upt_add_eq_append [of 0 64 64] by simp
  ultimately show ?thesis
    by (simp only: neon_mul_p8_lanes neon_mull_p8_lanes map_append [symmetric] simp_thms)
qed

end
