(* ===== verification/Neon_Permute.thy ===== *)
theory Neon_Permute
  imports Arm_Env
begin

text \<open>
  The register permutations of \<^verbatim>\<open>target-arm/neon_helper.c\<close>: \<^verbatim>\<open>VZIP\<close> and \<^verbatim>\<open>VUZP\<close> on pairs of 64-bit and
  128-bit registers. The helpers read both operands, assemble the four (or two) results
  with shifts and write them back. A vector is the list of its elements, lowest first.
\<close>

section \<open>Helpers\<close>

definition ELEM :: "u64 \<Rightarrow> nat \<Rightarrow> nat \<Rightarrow> u64" where
  "ELEM V N SIZE = drop_bit (N * SIZE) V AND (push_bit SIZE 1 - 1)"

definition neon_qunzip8 :: "CPUARMState \<Rightarrow> nat \<Rightarrow> nat \<Rightarrow> CPUARMState" where
  "neon_qunzip8 env rd rm =
     (let zm0 = vfp_regs env rm;
          zm1 = vfp_regs env (rm + 1);
          zd0 = vfp_regs env rd;
          zd1 = vfp_regs env (rd + 1);
          d0 = ELEM zd0 0 8 OR push_bit 8 (ELEM zd0 2 8) OR push_bit 16 (ELEM zd0 4 8) OR push_bit 24 (ELEM zd0 6 8)
              OR push_bit 32 (ELEM zd1 0 8) OR push_bit 40 (ELEM zd1 2 8) OR push_bit 48 (ELEM zd1 4 8) OR push_bit 56 (ELEM zd1 6 8);
          d1 = ELEM zm0 0 8 OR push_bit 8 (ELEM zm0 2 8) OR push_bit 16 (ELEM zm0 4 8) OR push_bit 24 (ELEM zm0 6 8)
              OR push_bit 32 (ELEM zm1 0 8) OR push_bit 40 (ELEM zm1 2 8) OR push_bit 48 (ELEM zm1 4 8) OR push_bit 56 (ELEM zm1 6 8);
          m0 = ELEM zd0 1 8 OR push_bit 8 (ELEM zd0 3 8) OR push_bit 16 (ELEM zd0 5 8) OR push_bit 24 (ELEM zd0 7 8)
              OR push_bit 32 (ELEM zd1 1 8) OR push_bit 40 (ELEM zd1 3 8) OR push_bit 48 (ELEM zd1 5 8) OR push_bit 56 (ELEM zd1 7 8);
          m1 = ELEM zm0 1 8 OR push_bit 8 (ELEM zm0 3 8) OR push_bit 16 (ELEM zm0 5 8) OR push_bit 24 (ELEM zm0 7 8)
              OR push_bit 32 (ELEM zm1 1 8) OR push_bit 40 (ELEM zm1 3 8) OR push_bit 48 (ELEM zm1 5 8) OR push_bit 56 (ELEM zm1 7 8)
      in env\<lparr>vfp_regs := (vfp_regs env)(rm := m0, rm + 1 := m1, rd := d0, rd + 1 := d1)\<rparr>)"

definition neon_qunzip16 :: "CPUARMState \<Rightarrow> nat \<Rightarrow> nat \<Rightarrow> CPUARMState" where
  "neon_qunzip16 env rd rm =
     (let zm0 = vfp_regs env rm;
          zm1 = vfp_regs env (rm + 1);
          zd0 = vfp_regs env rd;
          zd1 = vfp_regs env (rd + 1);
          d0 = ELEM zd0 0 16 OR push_bit 16 (ELEM zd0 2 16) OR push_bit 32 (ELEM zd1 0 16) OR push_bit 48 (ELEM zd1 2 16);
          d1 = ELEM zm0 0 16 OR push_bit 16 (ELEM zm0 2 16) OR push_bit 32 (ELEM zm1 0 16) OR push_bit 48 (ELEM zm1 2 16);
          m0 = ELEM zd0 1 16 OR push_bit 16 (ELEM zd0 3 16) OR push_bit 32 (ELEM zd1 1 16) OR push_bit 48 (ELEM zd1 3 16);
          m1 = ELEM zm0 1 16 OR push_bit 16 (ELEM zm0 3 16) OR push_bit 32 (ELEM zm1 1 16) OR push_bit 48 (ELEM zm1 3 16)
      in env\<lparr>vfp_regs := (vfp_regs env)(rm := m0, rm + 1 := m1, rd := d0, rd + 1 := d1)\<rparr>)"

definition neon_qunzip32 :: "CPUARMState \<Rightarrow> nat \<Rightarrow> nat \<Rightarrow> CPUARMState" where
  "neon_qunzip32 env rd rm =
     (let zm0 = vfp_regs env rm;
          zm1 = vfp_regs env (rm + 1);
          zd0 = vfp_regs env rd;
          zd1 = vfp_regs env (rd + 1);
          d0 = ELEM zd0 0 32 OR push_bit 32 (ELEM zd1 0 32);
          d1 = ELEM zm0 0 32 OR push_bit 32 (ELEM zm1 0 32);
          m0 = ELEM zd0 1 32 OR push_bit 32 (ELEM zd1 1 32);
          m1 = ELEM zm0 1 32 OR push_bit 32 (ELEM zm1 1 32)
      in env\<lparr>vfp_regs := (vfp_regs env)(rm := m0, rm + 1 := m1, rd := d0, rd + 1 := d1)\<rparr>)"

definition neon_unzip8 :: "CPUARMState \<Rightarrow> nat \<Rightarrow> nat \<Rightarrow> CPUARMState" where
  "neon_unzip8 env rd rm =
     (let zm = vfp_regs env rm;
          zd = vfp_regs env rd;
          d0 = ELEM zd 0 8 OR push_bit 8 (ELEM zd 2 8) OR push_bit 16 (ELEM zd 4 8) OR push_bit 24 (ELEM zd 6 8)
              OR push_bit 32 (ELEM zm 0 8) OR push_bit 40 (ELEM zm 2 8) OR push_bit 48 (ELEM zm 4 8) OR push_bit 56 (ELEM zm 6 8);
          m0 = ELEM zd 1 8 OR push_bit 8 (ELEM zd 3 8) OR push_bit 16 (ELEM zd 5 8) OR push_bit 24 (ELEM zd 7 8)
              OR push_bit 32 (ELEM zm 1 8) OR push_bit 40 (ELEM zm 3 8) OR push_bit 48 (ELEM zm 5 8) OR push_bit 56 (ELEM zm 7 8)
      in env\<lparr>vfp_regs := (vfp_regs env)(rm := m0, rd := d0)\<rparr>)"

definition neon_unzip16 :: "CPUARMState \<Rightarrow> nat \<Rightarrow> nat \<Rightarrow> CPUARMState" where
  "neon_unzip16 env rd rm =
     (let zm = vfp_regs env rm;
          zd = vfp_regs env rd;
          d0 = ELEM zd 0 16 OR push_bit 16 (ELEM zd 2 16) OR push_bit 32 (ELEM zm 0 16) OR push_bit 48 (ELEM zm 2 16);
          m0 = ELEM zd 1 16 OR push_bit 16 (ELEM zd 3 16) OR push_bit 32 (ELEM zm 1 16) OR push_bit 48 (ELEM zm 3 16)
      in env\<lparr>vfp_regs := (vfp_regs env)(rm := m0, rd := d0)\<rparr>)"

definition neon_qzip8 :: "CPUARMState \<Rightarrow> nat \<Rightarrow> nat \<Rightarrow> CPUARMState" where
  "neon_qzip8 env rd rm =
     (let zm0 = vfp_regs env rm;
          zm1 = vfp_regs env (rm + 1);
          zd0 = vfp_regs env rd;
          zd1 = vfp_regs env (rd + 1);
          d0 = ELEM zd0 0 8 OR push_bit 8 (ELEM zm0 0 8) OR push_bit 16 (ELEM zd0 1 8) OR push_bit 24 (ELEM zm0 1 8)
              OR push_bit 32 (ELEM zd0 2 8) OR push_bit 40 (ELEM zm0 2 8) OR push_bit 48 (ELEM zd0 3 8) OR push_bit 56 (ELEM zm0 3 8);
          d1 = ELEM zd0 4 8 OR push_bit 8 (ELEM zm0 4 8) OR push_bit 16 (ELEM zd0 5 8) OR push_bit 24 (ELEM zm0 5 8)
              OR push_bit 32 (ELEM zd0 6 8) OR push_bit 40 (ELEM zm0 6 8) OR push_bit 48 (ELEM zd0 7 8) OR push_bit 56 (ELEM zm0 7 8);
          m0 = ELEM zd1 0 8 OR push_bit 8 (ELEM zm1 0 8) OR push_bit 16 (ELEM zd1 1 8) OR push_bit 24 (ELEM zm1 1 8)
              OR push_bit 32 (ELEM zd1 2 8) OR push_bit 40 (ELEM zm1 2 8) OR push_bit 48 (ELEM zd1 3 8) OR push_bit 56 (ELEM zm1 3 8);
          m1 = ELEM zd1 4 8 OR push_bit 8 (ELEM zm1 4 8) OR push_bit 16 (ELEM zd1 5 8) OR push_bit 24 (ELEM zm1 5 8)
              OR push_bit 32 (ELEM zd1 6 8) OR push_bit 40 (ELEM zm1 6 8) OR push_bit 48 (ELEM zd1 7 8) OR push_bit 56 (ELEM zm1 7 8)
      in env\<lparr>vfp_regs := (vfp_regs env)(rm := m0, rm + 1 := m1, rd := d0, rd + 1 := d1)\<rparr>)"

definition neon_qzip16 :: "CPUARMState \<Rightarrow> nat \<Rightarrow> nat \<Rightarrow> CPUARMState" where
  "neon_qzip16 env rd rm =
     (let zm0 = vfp_regs env rm;
          zm1 = vfp_regs env (rm + 1);
          zd0 = vfp_regs env rd;
          zd1 = vfp_regs env (rd + 1);
          d0 = ELEM zd0 0 16 OR push_bit 16 (ELEM zm0 0 16) OR push_bit 32 (ELEM zd0 1 16) OR push_bit 48 (ELEM zm0 1 16);
          d1 = ELEM zd0 2 16 OR push_bit 16 (ELEM zm0 2 16) OR push_bit 32 (ELEM zd0 3 16) OR push_bit 48 (ELEM zm0 3 16);
          m0 = ELEM zd1 0 16 OR push_bit 16 (ELEM zm1 0 16) OR push_bit 32 (ELEM zd1 1 16) OR push_bit 48 (ELEM zm1 1 16);
          m1 = ELEM zd1 2 16 OR push_bit 16 (ELEM zm1 2 16) OR push_bit 32 (ELEM zd1 3 16) OR push_bit 48 (ELEM zm1 3 16)
      in env\<lparr>vfp_regs := (vfp_regs env)(rm := m0, rm + 1 := m1, rd := d0, rd + 1 := d1)\<rparr>)"

definition neon_qzip32 :: "CPUARMState \<Rightarrow> nat \<Rightarrow> nat \<Rightarrow> CPUARMState" where
  "neon_qzip32 env rd rm =
     (let zm0 = vfp_regs env rm;
          zm1 = vfp_regs env (rm + 1);
          zd0 = vfp_regs env rd;
          zd1 = vfp_regs env (rd + 1);
          d0 = ELEM zd0 0 32 OR push_bit 32 (ELEM zm0 0 32);
          d1 = ELEM zd0 1 32 OR push_bit 32 (ELEM zm0 1 32);
          m0 = ELEM zd1 0 32 OR push_bit 32 (ELEM zm1 0 32);
          m1 = ELEM zd1 1 32 OR push_bit 32 (ELEM zm1 1 32)
      in env\<lparr>vfp_regs := (vfp_regs env)(rm := m0, rm + 1 := m1, rd := d0, rd + 1 := d1)\<rparr>)"

definition neon_zip8 :: "CPUARMState \<Rightarrow> nat \<Rightarrow> nat \<Rightarrow> CPUARMState" where
  "neon_zip8 env rd rm =
     (let zm = vfp_regs env rm;
          zd = vfp_regs env rd;
          d0 = ELEM zd 0 8 OR push_bit 8 (ELEM zm 0 8) OR push_bit 16 (ELEM zd 1 8) OR push_bit 24 (ELEM zm 1 8)
              OR push_bit 32 (ELEM zd 2 8) OR push_bit 40 (ELEM zm 2 8) OR push_bit 48 (ELEM zd 3 8) OR push_bit 56 (ELEM zm 3 8);
          m0 = ELEM zd 4 8 OR push_bit 8 (ELEM zm 4 8) OR push_bit 16 (ELEM zd 5 8) OR push_bit 24 (ELEM zm 5 8)
              OR push_bit 32 (ELEM zd 6 8) OR push_bit 40 (ELEM zm 6 8) OR push_bit 48 (ELEM zd 7 8) OR push_bit 56 (ELEM zm 7 8)
      in env\<lparr>vfp_regs := (vfp_regs env)(rm := m0, rd := d0)\<rparr>)"

definition neon_zip16 :: "CPUARMState \<Rightarrow> nat \<Rightarrow> nat \<Rightarrow> CPUARMState" where
  "neon_zip16 env rd rm =
     (let zm = vfp_regs env rm;
          zd = vfp_regs env rd;
          d0 = ELEM zd 0 16 OR push_bit 16 (ELEM zm 0 16) OR push_bit 32 (ELEM zd 1 16) OR push_bit 48 (ELEM zm 1 16);
          m0 = ELEM zd 2 16 OR push_bit 16 (ELEM zm 2 16) OR push_bit 32 (ELEM zd 3 16) OR push_bit 48 (ELEM zm 3 16)
      in env\<lparr>vfp_regs := (vfp_regs env)(rm := m0, rd := d0)\<rparr>)"

section \<open>Vectors as lists of elements\<close>

definition elems :: "nat \<Rightarrow> u64 \<Rightarrow> u64 list" where
  "elems s x = map (\<lambda>n. ELEM x n s) [0..<64 div s]"

definition vec :: "nat \<Rightarrow> CPUARMState \<Rightarrow> nat list \<Rightarrow> u64 list" where
  "vec s env rs = concat (map (\<lambda>r. elems s (vfp_regs env r)) rs)"

fun evens :: "'a list \<Rightarrow> 'a list" and odds :: "'a list \<Rightarrow> 'a list" where
  "evens [] = []"
| "evens (x # xs) = x # odds xs"
| "odds [] = []"
| "odds (x # xs) = evens xs"

fun interleave :: "'a list \<Rightarrow> 'a list \<Rightarrow> 'a list" where
  "interleave (x # xs) (y # ys) = x # y # interleave xs ys"
| "interleave _ _ = []"

lemma bit_ELEM: "bit (ELEM x n s) i \<longleftrightarrow> i < s \<and> bit x (n * s + i)"
proof -
  have "push_bit s 1 - 1 = (mask s :: u64)" by (simp add: mask_eq_exp_minus_1)
  then show ?thesis unfolding ELEM_def by (auto simp: bit_simps dest: bit_imp_le_length)
qed

lemma elems_lists:
  "elems 8 x = [ELEM x 0 8, ELEM x 1 8, ELEM x 2 8, ELEM x 3 8, ELEM x 4 8, ELEM x 5 8, ELEM x 6 8, ELEM x 7 8]"
  "elems 16 x = [ELEM x 0 16, ELEM x 1 16, ELEM x 2 16, ELEM x 3 16]"
  "elems 32 x = [ELEM x 0 32, ELEM x 1 32]"
proof -
  have "[0..<8] = [0, 1, 2, 3, 4, 5, 6, 7 :: nat]" "[0..<4] = [0, 1, 2, 3 :: nat]" "[0..<2] = [0, 1 :: nat]" by code_simp+
  then show "elems 8 x = [ELEM x 0 8, ELEM x 1 8, ELEM x 2 8, ELEM x 3 8, ELEM x 4 8, ELEM x 5 8, ELEM x 6 8, ELEM x 7 8]"
    "elems 16 x = [ELEM x 0 16, ELEM x 1 16, ELEM x 2 16, ELEM x 3 16]" "elems 32 x = [ELEM x 0 32, ELEM x 1 32]"
    by (simp_all add: elems_def)
qed

text \<open>Assembling a register from elements with shifts is the nested form \<open>epack\<close>, which \<open>elems\<close> inverts.\<close>

fun epack :: "nat \<Rightarrow> u64 list \<Rightarrow> u64" where
  "epack s [] = 0"
| "epack s (x # xs) = x OR push_bit s (epack s xs)"

lemma bit_epack:
  "\<forall>x\<in>set xs. \<forall>i\<ge>s. \<not> bit x i \<Longrightarrow> n < length xs \<Longrightarrow> length xs * s \<le> 64 \<Longrightarrow> i < s \<Longrightarrow>
    bit (epack s xs) (n * s + i) \<longleftrightarrow> bit (xs ! n) i"
proof (induction xs arbitrary: n)
  case (Cons x xs)
  show ?case
  proof (cases n)
    case 0
    then show ?thesis using Cons.prems by (auto simp: bit_simps)
  next
    case (Suc m)
    have "s + m * s + i < 64"
    proof -
      have "Suc m * s + s \<le> length (x # xs) * s" using Cons.prems(2) Suc
        by (metis add.commute mult_Suc mult_le_mono1 Suc_leI)
      then show ?thesis using Cons.prems(3,4) by simp
    qed
    then show ?thesis using Cons Suc by (auto simp: bit_simps)
  qed
qed simp

lemma elems_epack:
  assumes "\<forall>x\<in>set xs. \<forall>i\<ge>s. \<not> bit x i" "length xs = 64 div s"
  shows "elems s (epack s xs) = xs"
proof (rule nth_equalityI)
  fix n assume "n < length (elems s (epack s xs))"
  then have n: "n < length xs" using assms(2) by (simp add: elems_def)
  moreover have "length xs * s \<le> 64" using assms(2) by (simp add: div_times_less_eq_dividend)
  moreover have "i < s" if "bit (xs ! n) i" for i
    using assms(1) nth_mem [OF n] that by (meson not_le_imp_less)
  ultimately have "ELEM (epack s xs) n s = xs ! n"
    using assms(1) by (intro bit_word_eqI) (auto simp: bit_ELEM bit_epack)
  then show "elems s (epack s xs) ! n = xs ! n" using n assms(2) by (simp add: elems_def)
qed (simp add: elems_def assms(2))

lemma elems_pack:
  "elems 8 (ELEM x0 n0 8 OR push_bit 8 (ELEM x1 n1 8) OR push_bit 16 (ELEM x2 n2 8) OR push_bit 24 (ELEM x3 n3 8) OR
      push_bit 32 (ELEM x4 n4 8) OR push_bit 40 (ELEM x5 n5 8) OR push_bit 48 (ELEM x6 n6 8) OR push_bit 56 (ELEM x7 n7 8)) =
    [ELEM x0 n0 8, ELEM x1 n1 8, ELEM x2 n2 8, ELEM x3 n3 8, ELEM x4 n4 8, ELEM x5 n5 8, ELEM x6 n6 8, ELEM x7 n7 8]"
  "elems 16 (ELEM x0 n0 16 OR push_bit 16 (ELEM x1 n1 16) OR push_bit 32 (ELEM x2 n2 16) OR push_bit 48 (ELEM x3 n3 16)) =
    [ELEM x0 n0 16, ELEM x1 n1 16, ELEM x2 n2 16, ELEM x3 n3 16]"
  "elems 32 (ELEM x0 n0 32 OR push_bit 32 (ELEM x1 n1 32)) = [ELEM x0 n0 32, ELEM x1 n1 32]"
  using elems_epack [of "[ELEM x0 n0 8, ELEM x1 n1 8, ELEM x2 n2 8, ELEM x3 n3 8, ELEM x4 n4 8, ELEM x5 n5 8, ELEM x6 n6 8, ELEM x7 n7 8]" 8]
    elems_epack [of "[ELEM x0 n0 16, ELEM x1 n1 16, ELEM x2 n2 16, ELEM x3 n3 16]" 16]
    elems_epack [of "[ELEM x0 n0 32, ELEM x1 n1 32]" 32]
  by (simp_all add: bit_ELEM push_bit_or or.assoc)

lemma elems_inject: "elems 8 x = elems 8 y \<longleftrightarrow> x = y" "elems 16 x = elems 16 y \<longleftrightarrow> x = y" "elems 32 x = elems 32 y \<longleftrightarrow> x = y"
proof -
  have *: "x = y" if "elems s x = elems s y" "0 < s" "64 mod s = 0" for s
  proof (rule bit_word_eqI)
    fix i assume i: "i < LENGTH(64)"
    then have "i div s < 64 div s" using that(2,3)
      by (intro less_mult_imp_div_less) (auto simp: mod_eq_0_iff_dvd)
    then have "ELEM x (i div s) s = ELEM y (i div s) s" using that(1) by (auto simp: elems_def)
    then have "bit (ELEM x (i div s) s) (i mod s) \<longleftrightarrow> bit (ELEM y (i div s) s) (i mod s)" by simp
    then show "bit x i \<longleftrightarrow> bit y i" using that(2) by (simp add: bit_ELEM)
  qed
  show "elems 8 x = elems 8 y \<longleftrightarrow> x = y" "elems 16 x = elems 16 y \<longleftrightarrow> x = y" "elems 32 x = elems 32 y \<longleftrightarrow> x = y"
    using *[of 8] *[of 16] *[of 32] by auto
qed

text \<open>
  What the two operations promise of the registers \<open>ds\<close> and \<open>ms\<close>: together they hold the de-interleaved
  (interleaved) elements, and nothing else of the state changes.
\<close>

definition only_regs :: "CPUARMState \<Rightarrow> CPUARMState \<Rightarrow> nat list \<Rightarrow> bool" where
  "only_regs env env' rs \<longleftrightarrow> (\<exists>f. env' = env\<lparr>vfp_regs := f\<rparr> \<and> (\<forall>r. r \<notin> set rs \<longrightarrow> f r = vfp_regs env r))"

definition unzipped :: "nat \<Rightarrow> CPUARMState \<Rightarrow> CPUARMState \<Rightarrow> nat list \<Rightarrow> nat list \<Rightarrow> bool" where
  "unzipped s env env' ds ms \<longleftrightarrow> vec s env' ds = evens (vec s env (ds @ ms)) \<and> vec s env' ms = odds (vec s env (ds @ ms)) \<and>
     only_regs env env' (ds @ ms)"

definition zipped :: "nat \<Rightarrow> CPUARMState \<Rightarrow> CPUARMState \<Rightarrow> nat list \<Rightarrow> nat list \<Rightarrow> bool" where
  "zipped s env env' ds ms \<longleftrightarrow> vec s env' (ds @ ms) = interleave (vec s env ds) (vec s env ms) \<and>
     only_regs env env' (ds @ ms)"

lemma vec_upd [simp]: "vec s (env\<lparr>vfp_regs := f\<rparr>) rs = concat (map (\<lambda>r. elems s (f r)) rs)"
  by (simp add: vec_def)

lemma only_regs_upd [simp]: "only_regs env (env\<lparr>vfp_regs := f\<rparr>) rs \<longleftrightarrow> (\<forall>r. r \<notin> set rs \<longrightarrow> f r = vfp_regs env r)"
  unfolding only_regs_def by (auto dest: arg_cong [where f = vfp_regs])

lemma qunzip_unzipped:
  assumes "distinct [rd, rd + 1, rm, rm + 1]"
  shows "unzipped 8 env (neon_qunzip8 env rd rm) [rd, rd + 1] [rm, rm + 1]"
    "unzipped 16 env (neon_qunzip16 env rd rm) [rd, rd + 1] [rm, rm + 1]"
    "unzipped 32 env (neon_qunzip32 env rd rm) [rd, rd + 1] [rm, rm + 1]"
  using assms unfolding unzipped_def neon_qunzip8_def neon_qunzip16_def neon_qunzip32_def Let_def
  by (simp_all add: elems_pack) (simp_all add: elems_lists vec_def)

lemma unzip_unzipped:
  assumes "rd \<noteq> rm"
  shows "unzipped 8 env (neon_unzip8 env rd rm) [rd] [rm]" "unzipped 16 env (neon_unzip16 env rd rm) [rd] [rm]"
  using assms unfolding unzipped_def neon_unzip8_def neon_unzip16_def Let_def
  by (simp_all add: elems_pack) (simp_all add: elems_lists vec_def)

lemma qzip_zipped:
  assumes "distinct [rd, rd + 1, rm, rm + 1]"
  shows "zipped 8 env (neon_qzip8 env rd rm) [rd, rd + 1] [rm, rm + 1]"
    "zipped 16 env (neon_qzip16 env rd rm) [rd, rd + 1] [rm, rm + 1]"
    "zipped 32 env (neon_qzip32 env rd rm) [rd, rd + 1] [rm, rm + 1]"
  using assms unfolding zipped_def neon_qzip8_def neon_qzip16_def neon_qzip32_def Let_def
  by (simp_all add: elems_pack) (simp_all add: elems_lists vec_def)

lemma zip_zipped:
  assumes "rd \<noteq> rm"
  shows "zipped 8 env (neon_zip8 env rd rm) [rd] [rm]" "zipped 16 env (neon_zip16 env rd rm) [rd] [rm]"
  using assms unfolding zipped_def neon_zip8_def neon_zip16_def Let_def
  by (simp_all add: elems_pack) (simp_all add: elems_lists vec_def)

section \<open>Zip and unzip are inverse\<close>

lemma length_elems [simp]: "length (elems s x) = 64 div s"
  by (simp add: elems_def)

lemma length_vec [simp]: "length (vec s env rs) = length rs * (64 div s)"
  by (induction rs) (simp_all add: vec_def)

lemma vec_append: "vec s env (ds @ ms) = vec s env ds @ vec s env ms"
  by (simp add: vec_def)

lemma evens_odds_interleave:
  "length xs = length ys \<Longrightarrow> evens (interleave xs ys) = xs \<and> odds (interleave xs ys) = ys"
  by (induction xs ys rule: list_induct2) auto

lemma interleave_evens_odds: "even (length xs) \<Longrightarrow> interleave (evens xs) (odds xs) = xs"
  by (induction xs rule: induct_list012) auto

lemma vec_inject:
  assumes "s \<in> {8, 16, 32}" "vec s env rs = vec s env' rs" "r \<in> set rs"
  shows "vfp_regs env r = vfp_regs env' r"
  using assms(2,3)
proof (induction rs)
  case (Cons q rs)
  then have "elems s (vfp_regs env q) = elems s (vfp_regs env' q)" "vec s env rs = vec s env' rs"
    by (simp_all add: vec_def append_eq_append_conv)
  then show ?case using Cons assms(1) by (auto simp: elems_inject)
qed simp

lemma only_regs_same:
  assumes "only_regs env env1 rs" "only_regs env1 env2 rs" "\<And>r. r \<in> set rs \<Longrightarrow> vfp_regs env2 r = vfp_regs env r"
  shows "env2 = env"
proof -
  obtain f g where "env1 = env\<lparr>vfp_regs := f\<rparr>" "env2 = env1\<lparr>vfp_regs := g\<rparr>"
    "\<forall>r. r \<notin> set rs \<longrightarrow> f r = vfp_regs env r" "\<forall>r. r \<notin> set rs \<longrightarrow> g r = vfp_regs env1 r"
    using assms(1,2) unfolding only_regs_def by blast
  moreover from this have "g = vfp_regs env" using assms(3) by (intro ext) auto
  ultimately show ?thesis by simp
qed

lemma unzip_zip:
  assumes "s \<in> {8, 16, 32}" "length ds = length ms" "zipped s env env1 ds ms" "unzipped s env1 env2 ds ms"
  shows "env2 = env"
proof (rule only_regs_same [of env env1 "ds @ ms"])
  have "vec s env2 ds = vec s env ds" "vec s env2 ms = vec s env ms"
    using assms evens_odds_interleave [of "vec s env ds" "vec s env ms"] unfolding zipped_def unzipped_def by auto
  then show "vfp_regs env2 r = vfp_regs env r" if "r \<in> set (ds @ ms)" for r
    using that vec_inject [OF assms(1)] by auto
qed (use assms in \<open>simp_all add: zipped_def unzipped_def\<close>)

lemma zip_unzip:
  assumes "s \<in> {8, 16, 32}" "length ds = length ms" "unzipped s env env1 ds ms" "zipped s env1 env2 ds ms"
  shows "env2 = env"
proof (rule only_regs_same [of env env1 "ds @ ms"])
  have "vec s env2 (ds @ ms) = vec s env (ds @ ms)"
    using assms interleave_evens_odds [of "vec s env (ds @ ms)"] unfolding zipped_def unzipped_def by (simp add: mult_2 [symmetric])
  then show "vfp_regs env2 r = vfp_regs env r" if "r \<in> set (ds @ ms)" for r
    using that vec_inject [OF assms(1)] by blast
qed (use assms in \<open>simp_all add: zipped_def unzipped_def\<close>)

section \<open>Properties\<close>

text \<open>
  C22. \<^verbatim>\<open>VUZP\<close> de-interleaves and \<^verbatim>\<open>VZIP\<close> interleaves the elements of two register operands, for
  every element size and for quad and double registers that do not overlap: the destination
  operand receives the even elements (the first half of the interleaving), the other operand the odd ones
  (the second half), and nothing else of the CPU state changes.
\<close>

theorem neon_permute_correct:
  assumes "distinct [rd, rd + 1, rm, rm + 1]" and "vd \<noteq> vm"
  shows "unzipped 8 env (neon_qunzip8 env rd rm) [rd, rd + 1] [rm, rm + 1] \<and>
    unzipped 16 env (neon_qunzip16 env rd rm) [rd, rd + 1] [rm, rm + 1] \<and>
    unzipped 32 env (neon_qunzip32 env rd rm) [rd, rd + 1] [rm, rm + 1] \<and>
    unzipped 8 env (neon_unzip8 env vd vm) [vd] [vm] \<and> unzipped 16 env (neon_unzip16 env vd vm) [vd] [vm] \<and>
    zipped 8 env (neon_qzip8 env rd rm) [rd, rd + 1] [rm, rm + 1] \<and>
    zipped 16 env (neon_qzip16 env rd rm) [rd, rd + 1] [rm, rm + 1] \<and>
    zipped 32 env (neon_qzip32 env rd rm) [rd, rd + 1] [rm, rm + 1] \<and>
    zipped 8 env (neon_zip8 env vd vm) [vd] [vm] \<and> zipped 16 env (neon_zip16 env vd vm) [vd] [vm]"
  using assms by (intro conjI qunzip_unzipped unzip_unzipped qzip_zipped zip_zipped)

definition env_example :: "CPUARMState" where
  "env_example = zero_env\<lparr>vfp_regs := (\<lambda>r. [0x0706050403020100, 0x0f0e0d0c0b0a0908, 0x1716151413121110, 0x1f1e1d1c1b1a1918] ! (r mod 4))\<rparr>"

theorem neon_permute_correct_witness:
  "distinct [0, 0 + 1, 2, 2 + 1 :: nat] \<and> (0 :: nat) \<noteq> 1 \<and>
   unzipped 8 env_example (neon_qunzip8 env_example 0 2) [0, 0 + 1] [2, 2 + 1] \<and>
   zipped 16 env_example (neon_zip16 env_example 0 1) [0] [1]"
  using neon_permute_correct [of 0 2 0 1 env_example] by simp

text \<open>
  C23. Round trip: \<^verbatim>\<open>VUZP\<close> undoes \<^verbatim>\<open>VZIP\<close> and \<^verbatim>\<open>VZIP\<close> undoes \<^verbatim>\<open>VUZP\<close>, at every element size and for both
  register sizes, restoring the whole CPU state.
\<close>

theorem neon_zip_roundtrip:
  assumes "distinct [rd, rd + 1, rm, rm + 1]" and "vd \<noteq> vm"
  shows "neon_qunzip8 (neon_qzip8 env rd rm) rd rm = env \<and> neon_qzip8 (neon_qunzip8 env rd rm) rd rm = env \<and>
    neon_qunzip16 (neon_qzip16 env rd rm) rd rm = env \<and> neon_qzip16 (neon_qunzip16 env rd rm) rd rm = env \<and>
    neon_qunzip32 (neon_qzip32 env rd rm) rd rm = env \<and> neon_qzip32 (neon_qunzip32 env rd rm) rd rm = env \<and>
    neon_unzip8 (neon_zip8 env vd vm) vd vm = env \<and> neon_zip8 (neon_unzip8 env vd vm) vd vm = env \<and>
    neon_unzip16 (neon_zip16 env vd vm) vd vm = env \<and> neon_zip16 (neon_unzip16 env vd vm) vd vm = env"
  by (intro conjI unzip_zip [OF _ _ qzip_zipped(1) [OF assms(1)] qunzip_unzipped(1) [OF assms(1)]]
      zip_unzip [OF _ _ qunzip_unzipped(1) [OF assms(1)] qzip_zipped(1) [OF assms(1)]]
      unzip_zip [OF _ _ qzip_zipped(2) [OF assms(1)] qunzip_unzipped(2) [OF assms(1)]]
      zip_unzip [OF _ _ qunzip_unzipped(2) [OF assms(1)] qzip_zipped(2) [OF assms(1)]]
      unzip_zip [OF _ _ qzip_zipped(3) [OF assms(1)] qunzip_unzipped(3) [OF assms(1)]]
      zip_unzip [OF _ _ qunzip_unzipped(3) [OF assms(1)] qzip_zipped(3) [OF assms(1)]]
      unzip_zip [OF _ _ zip_zipped(1) [OF assms(2)] unzip_unzipped(1) [OF assms(2)]]
      zip_unzip [OF _ _ unzip_unzipped(1) [OF assms(2)] zip_zipped(1) [OF assms(2)]]
      unzip_zip [OF _ _ zip_zipped(2) [OF assms(2)] unzip_unzipped(2) [OF assms(2)]]
      zip_unzip [OF _ _ unzip_unzipped(2) [OF assms(2)] zip_zipped(2) [OF assms(2)]]) simp_all

theorem neon_zip_roundtrip_witness:
  "distinct [0, 0 + 1, 2, 2 + 1 :: nat] \<and> (0 :: nat) \<noteq> 1 \<and>
   neon_qunzip8 (neon_qzip8 env_example 0 2) 0 2 = env_example \<and> neon_zip16 (neon_unzip16 env_example 0 1) 0 1 = env_example"
  using neon_zip_roundtrip [of 0 2 0 1 env_example] by simp

end
