(* ===== verification/Host_Utils.thy ===== *)
theory Host_Utils
  imports Bitops "HOL-Library.Signed_Division"
begin

text \<open>
  The long integer routines of \<^verbatim>\<open>util/host-utils.c\<close> and \<^verbatim>\<open>include/qemu/host-utils.h\<close> as built without 128-bit
  compiler integers (a 32-bit host): 64 by 64 bit multiplication, 128 by 64 bit division and
  \<^verbatim>\<open>muldiv64\<close>. Output pointers become components of the result. The lemmas compare them with
  arithmetic on the integers.
\<close>

section \<open>Multiplication\<close>

text \<open>The halves of the union \<^verbatim>\<open>LL\<close>, on a little-endian host.\<close>

definition ll_low :: "u64 \<Rightarrow> u32" where "ll_low x = ucast x"
definition ll_high :: "u64 \<Rightarrow> u32" where "ll_high x = ucast (drop_bit 32 x)"
definition ll_make :: "u32 \<Rightarrow> u32 \<Rightarrow> u64" where "ll_make low high = ucast low OR push_bit 32 (ucast high)"

definition mul64 :: "u64 \<Rightarrow> u64 \<Rightarrow> u64 \<times> u64" where
  "mul64 a b =
     (let rl = ucast (ll_low a) * ucast (ll_low b);
          rm = ucast (ll_low a) * ucast (ll_high b);
          rn = ucast (ll_high a) * ucast (ll_low b);
          rh = ucast (ll_high a) * ucast (ll_high b);
          c = ucast (ll_high rl) + ucast (ll_low rm) + ucast (ll_low rn) :: u64;
          rl = ll_make (ll_low rl) (ucast c);
          c = drop_bit 32 c;
          c = c + ucast (ll_high rm) + ucast (ll_high rn) + ucast (ll_low rh);
          rh = ll_make (ucast c) (ll_high rh);
          rh = ll_make (ll_low rh) (ll_high rh + ucast (drop_bit 32 c))
      in (rl, rh))"

definition mulu64 :: "u64 \<Rightarrow> u64 \<Rightarrow> u64 \<times> u64" where
  "mulu64 a b = mul64 a b"

definition muls64 :: "u64 \<Rightarrow> u64 \<Rightarrow> u64 \<times> u64" where
  "muls64 a b =
     (let (plow, rh) = mul64 a b;
          rh = (if sint b < 0 then rh - a else rh);
          rh = (if sint a < 0 then rh - b else rh)
      in (plow, rh))"

definition muldiv64 :: "u64 \<Rightarrow> u32 \<Rightarrow> u32 \<Rightarrow> u64" where
  "muldiv64 a b c =
     (let rl = ucast (ll_low a) * ucast b :: u64;
          rh = ucast (ll_high a) * ucast b :: u64;
          rh = rh + drop_bit 32 rl;
          high = ucast (rh div ucast c);
          low = ucast ((push_bit 32 (rh mod ucast c) + (rl AND 0xffffffff)) div ucast c)
      in ll_make low high)"

section \<open>Division\<close>

text \<open>The result is the error indication, the new \<^verbatim>\<open>*plow\<close> and the new \<^verbatim>\<open>*phigh\<close>.\<close>

fun divu128_loop :: "nat \<Rightarrow> u64 \<Rightarrow> u64 \<Rightarrow> u64 \<Rightarrow> u64 \<times> u64" where
  "divu128_loop 0 dhi dlo divisor = (dhi, dlo)"
| "divu128_loop (Suc n) dhi dlo divisor =
     (let carry = drop_bit 63 dhi;
          dhi = push_bit 1 dhi OR drop_bit 63 dlo
      in if carry \<noteq> 0 \<or> divisor \<le> dhi
         then divu128_loop n (dhi - divisor) (push_bit 1 dlo OR 1) divisor
         else divu128_loop n dhi (push_bit 1 dlo OR 0) divisor)"

definition divu128 :: "u64 \<Rightarrow> u64 \<Rightarrow> u64 \<Rightarrow> bool \<times> u64 \<times> u64" where
  "divu128 plow phigh divisor =
     (let dhi = phigh; dlo = plow
      in if divisor = 0 then (True, plow, phigh)
         else if dhi = 0 then (False, dlo div divisor, dlo mod divisor)
         else if divisor < dhi then (True, plow, phigh)
         else let (dhi, dlo) = divu128_loop 64 dhi dlo divisor in (False, dlo, dhi))"

definition divs128 :: "u64 \<Rightarrow> u64 \<Rightarrow> u64 \<Rightarrow> bool \<times> u64 \<times> u64" where
  "divs128 plow phigh divisor =
     (let sgn_dvdnd = sint phigh < 0;
          sgn_divsr = sint divisor < 0;
          (plow, phigh) =
            (if sgn_dvdnd
             then (let plow = NOT plow; phigh = NOT phigh
                   in if plow = - 1 then (0, phigh + 1) else (plow + 1, phigh))
             else (plow, phigh));
          divisor = (if sgn_divsr then 0 - divisor else divisor);
          (overflow, plow, phigh) = divu128 plow phigh divisor;
          plow = (if sgn_dvdnd \<noteq> sgn_divsr then 0 - plow else plow);
          overflow = (if \<not> overflow \<and> ((sint plow < 0) \<noteq> (sgn_dvdnd \<noteq> sgn_divsr)) then True else overflow)
      in (overflow, plow, phigh))"

section \<open>Multiplication is exact\<close>

lemma ll_split: "uint x = uint (ll_low x) + 2 ^ 32 * uint (ll_high x)"
proof -
  have "uint (ll_low x) = uint x mod 2 ^ 32"
    by (simp add: ll_low_def unsigned_ucast_eq take_bit_eq_mod)
  moreover have "uint (ll_high x) = uint x div 2 ^ 32"
  proof -
    have "uint x div 2 ^ 32 < 2 ^ 32" using uint_ranges(4) [of x] by simp
    then have "take_bit 32 (uint x div 2 ^ 32) = uint x div 2 ^ 32"
      using uint_range(1) [of x] by (intro take_bit_int_eq_self) (simp_all add: pos_imp_zdiv_nonneg_iff)
    moreover have "take_bit 64 (uint x) = uint x" using uint_range [of x] by (intro take_bit_int_eq_self) simp_all
    ultimately show ?thesis
      by (simp only: ll_high_def unsigned_ucast_eq unsigned_drop_bit_eq) (simp add: drop_bit_eq_div)
  qed
  ultimately show ?thesis by simp
qed

lemma ll_low_make [simp]: "ll_low (ll_make l h) = l"
  unfolding ll_low_def ll_make_def by (rule bit_word_eqI) (auto simp: bit_simps)

lemma ll_high_make [simp]: "ll_high (ll_make l h) = h"
  unfolding ll_high_def ll_make_def by (rule bit_word_eqI) (auto simp: bit_simps dest: bit_imp_le_length)

lemma uint_ll_make: "uint (ll_make l h) = uint l + 2 ^ 32 * uint h"
  using ll_split [of "ll_make l h"] by simp

lemma uint_ucast32 [simp]: "uint (ucast (x :: u32) :: u64) = uint x"
  by (simp add: uint_up_ucast is_up)

lemma uint_mul32: "uint (ucast (x :: u32) * ucast (y :: u32) :: u64) = uint x * uint y"
proof -
  have "uint x * uint y < 2 ^ 32 * 2 ^ 32"
    using uint_ranges(3) [of x] uint_ranges(3) [of y] uint_range(1) [of x] uint_range(1) [of y]
    by (intro mult_strict_mono) auto
  then show ?thesis using uint_range(1) [of x] uint_range(1) [of y]
    by (simp only: uint_word_ariths uint_ucast32) (simp add: mod_pos_pos_trivial)
qed

lemma uint_add_exact: "uint x + uint y < 2 ^ LENGTH('a) \<Longrightarrow> uint (x + y) = uint x + uint y" for x y :: "'a::len word"
  using uint_range(1) [of x] uint_range(1) [of y] by (simp only: uint_word_ariths) (simp add: mod_pos_pos_trivial)

text \<open>The carries of the column sums, on integers.\<close>

lemma columns:
  fixes a b :: int
  assumes "a = al + B * ah" "b = bl + B * bh"
    and rl: "al * bl = rl0 + B * rl1" and rm: "al * bh = rm0 + B * rm1"
    and rn: "ah * bl = rn0 + B * rn1" and rh: "ah * bh = rh0 + B * rh1"
    and c: "rl1 + rm0 + rn0 = c0 + B * c1" and d: "c1 + rm1 + rn1 + rh0 = d0 + B * d1"
  shows "a * b = rl0 + B * c0 + B * B * (d0 + B * (rh1 + d1))"
proof -
  have "a * b = al * bl + B * (al * bh + ah * bl) + B * B * (ah * bh)"
    unfolding assms(1,2) by (simp add: algebra_simps)
  also have "\<dots> = rl0 + B * (rl1 + rm0 + rn0) + B * B * (rm1 + rn1 + rh0) + B * B * B * rh1"
    unfolding rl rm rn rh by (simp add: algebra_simps)
  also have "\<dots> = rl0 + B * c0 + B * B * (c1 + rm1 + rn1 + rh0) + B * B * B * rh1"
    unfolding c by (simp add: algebra_simps)
  also have "\<dots> = rl0 + B * c0 + B * B * (d0 + B * (rh1 + d1))"
    unfolding d by (simp add: algebra_simps)
  finally show ?thesis .
qed

lemma mul64_exact: "case mul64 a b of (lo, hi) \<Rightarrow> uint lo + 2 ^ 64 * uint hi = uint a * uint b"
proof -
  define rl rm rn rh :: u64 where "rl = ucast (ll_low a) * ucast (ll_low b)" and "rm = ucast (ll_low a) * ucast (ll_high b)"
    and "rn = ucast (ll_high a) * ucast (ll_low b)" and "rh = ucast (ll_high a) * ucast (ll_high b)"
  define c d :: u64 where "c = ucast (ll_high rl) + ucast (ll_low rm) + ucast (ll_low rn)"
    and "d = drop_bit 32 c + ucast (ll_high rm) + ucast (ll_high rn) + ucast (ll_low rh)"
  have m: "mul64 a b = (ll_make (ll_low rl) (ll_low c), ll_make (ll_low d) (ll_high rh + ll_high d))"
    unfolding mul64_def Let_def rl_def [symmetric] rm_def [symmetric] rn_def [symmetric] rh_def [symmetric]
      c_def [symmetric] d_def [symmetric] by (simp add: ll_low_def [symmetric]) (simp add: ll_low_def ll_high_def)
  have c: "uint c = uint (ll_high rl) + uint (ll_low rm) + uint (ll_low rn)"
    using uint_ranges(3) [of "ll_high rl"] uint_ranges(3) [of "ll_low rm"] uint_ranges(3) [of "ll_low rn"]
    unfolding c_def by (simp add: uint_add_exact)
  have "drop_bit 32 c = ucast (ll_high c)"
    unfolding ll_high_def by (rule bit_word_eqI) (auto simp: bit_simps dest: bit_imp_le_length)
  then have d: "uint d = uint (ll_high c) + uint (ll_high rm) + uint (ll_high rn) + uint (ll_low rh)"
    using uint_ranges(3) [of "ll_high c"] uint_ranges(3) [of "ll_high rm"] uint_ranges(3) [of "ll_high rn"]
      uint_ranges(3) [of "ll_low rh"] unfolding d_def by (simp add: uint_add_exact)
  have p: "uint a * uint b = uint (ll_low rl) + 2 ^ 32 * uint (ll_low c) +
      2 ^ 32 * 2 ^ 32 * (uint (ll_low d) + 2 ^ 32 * (uint (ll_high rh) + uint (ll_high d)))"
  proof (rule columns [OF ll_split [of a] ll_split [of b]])
    show "uint (ll_low a) * uint (ll_low b) = uint (ll_low rl) + 2 ^ 32 * uint (ll_high rl)"
      "uint (ll_low a) * uint (ll_high b) = uint (ll_low rm) + 2 ^ 32 * uint (ll_high rm)"
      "uint (ll_high a) * uint (ll_low b) = uint (ll_low rn) + 2 ^ 32 * uint (ll_high rn)"
      "uint (ll_high a) * uint (ll_high b) = uint (ll_low rh) + 2 ^ 32 * uint (ll_high rh)"
      unfolding ll_split [symmetric] unfolding rl_def rm_def rn_def rh_def uint_mul32 by (rule refl)+
    show "uint (ll_high rl) + uint (ll_low rm) + uint (ll_low rn) = uint (ll_low c) + 2 ^ 32 * uint (ll_high c)"
      "uint (ll_high c) + uint (ll_high rm) + uint (ll_high rn) + uint (ll_low rh) = uint (ll_low d) + 2 ^ 32 * uint (ll_high d)"
      by (simp_all only: c [symmetric] d [symmetric] ll_split [symmetric])
  qed
  have "uint a * uint b < 2 ^ 64 * 2 ^ 64"
    using uint_range [of a] uint_range [of b] by (intro mult_strict_mono) auto
  then have "uint (ll_high rh) + uint (ll_high d) < 2 ^ 32"
    using p by (auto simp: algebra_simps)
      (use uint_range(1) [of "ll_low rl"] uint_range(1) [of "ll_low c"] uint_range(1) [of "ll_low d"] in linarith)
  then have "uint (ll_high rh + ll_high d) = uint (ll_high rh) + uint (ll_high d)" by (simp add: uint_add_exact)
  then show ?thesis using p unfolding m by (simp add: uint_ll_make)
qed

lemma mul64_parts: "mul64 a b = (word_of_int (uint a * uint b), word_of_int ((uint a * uint b) div 2 ^ 64))"
proof -
  obtain lo hi where m: "mul64 a b = (lo, hi)" by fastforce
  then have e: "uint a * uint b = uint lo + 2 ^ 64 * uint hi" using mul64_exact [of a b] by simp
  then have "(uint a * uint b) div 2 ^ 64 = uint hi" "(uint a * uint b) mod 2 ^ 64 = uint lo"
    using uint_range [of lo] by (simp_all add: div_pos_pos_trivial mod_pos_pos_trivial)
  then have "word_of_int (uint a * uint b) = lo" "word_of_int ((uint a * uint b) div 2 ^ 64) = hi"
    using uint_range [of hi] unfolding word_uint_eq_iff uint_word_of_int_eq take_bit_eq_mod by (simp_all add: mod_pos_pos_trivial)
  then show ?thesis by (simp only: m)
qed

lemma word_of_int_exp_64: "(word_of_int (2 ^ 64) :: u64) = 0"
  by (simp add: word_uint_eq_iff uint_word_of_int_eq take_bit_eq_mod)

lemma sint_product_range: "- (2 ^ 126) \<le> sint a * sint b" "sint a * sint b \<le> 2 ^ 126" for a b :: u64
proof -
  have "\<bar>sint a\<bar> \<le> 2 ^ 63" "\<bar>sint b\<bar> \<le> 2 ^ 63" using sint_ranges(7,8) [of a] sint_ranges(7,8) [of b] by auto
  then have "\<bar>sint a\<bar> * \<bar>sint b\<bar> \<le> 2 ^ 63 * 2 ^ 63" by (intro mult_mono) auto
  then have "\<bar>sint a * sint b\<bar> \<le> 2 ^ 126" by (simp add: abs_mult)
  then show "- (2 ^ 126) \<le> sint a * sint b" "sint a * sint b \<le> 2 ^ 126" by linarith+
qed

lemma muls64_parts: "muls64 a b = (word_of_int (sint a * sint b), word_of_int ((sint a * sint b) div 2 ^ 64))"
proof -
  define e where "e = (if sint a < 0 \<and> sint b < 0 then 2 ^ 64 else 0)
    - ((if sint a < 0 then uint b else 0) + (if sint b < 0 then uint a else 0))"
  have s: "sint x = (if sint x < 0 then uint x - 2 ^ 64 else uint x)" for x :: u64
    using sint_uint_cases [of x] uint_range [of x] by (auto split: if_splits)
  have p: "sint a * sint b = uint a * uint b + e * 2 ^ 64"
    unfolding e_def by (subst s [of a], subst s [of b]) (simp add: algebra_simps)
  have q: "(sint a * sint b) div 2 ^ 64 = (uint a * uint b) div 2 ^ 64 + e"
    unfolding p by (subst div_mult_self1) simp_all
  have "(word_of_int (sint a * sint b) :: u64) = word_of_int (uint a * uint b)"
    unfolding p by (simp only: of_int_add of_int_mult word_of_int_exp_64 mult_zero_right add_0_right)
  moreover have "(word_of_int e :: u64) = - (if sint a < 0 then b else 0) - (if sint b < 0 then a else 0)"
    unfolding e_def by (simp only: of_int_diff of_int_add word_of_int_exp_64) (auto simp: word_of_int_exp_64)
  then have "(word_of_int ((sint a * sint b) div 2 ^ 64) :: u64) =
      word_of_int ((uint a * uint b) div 2 ^ 64) - (if sint a < 0 then b else 0) - (if sint b < 0 then a else 0)"
    unfolding q of_int_add by simp
  ultimately show ?thesis
    unfolding muls64_def mul64_parts Let_def prod.case by simp
qed

lemma muls64_exact: "case muls64 a b of (lo, hi) \<Rightarrow> uint lo + 2 ^ 64 * sint hi = sint a * sint b"
proof -
  have "- (2 ^ 63) \<le> (sint a * sint b) div 2 ^ 64" "(sint a * sint b) div 2 ^ 64 < 2 ^ 63"
    using sint_product_range [of a b] by simp_all
  then have "sint (word_of_int ((sint a * sint b) div 2 ^ 64) :: u64) = (sint a * sint b) div 2 ^ 64"
    by (simp add: sint_word_of_int)
  then show ?thesis
    unfolding muls64_parts prod.case uint_word_of_int_eq take_bit_eq_mod by simp
qed

section \<open>Division is exact\<close>

text \<open>
  One round shifts the top bit of the low word into the high one and subtracts the divisor when it fits; after \<open>n\<close>
  rounds the quotient of the high word and the \<open>n\<close> bits shifted in stands below the rest of the low word.
\<close>

lemma uint_drop_bit_div: "uint (drop_bit n x) = uint x div 2 ^ n" for x :: u64
proof -
  have "take_bit 64 (uint x) = uint x" using uint_range [of x] by (intro take_bit_int_eq_self) simp_all
  then show ?thesis by (simp only: unsigned_drop_bit_eq) (simp add: drop_bit_eq_div)
qed

lemmas uint_drop_bit_63 = uint_drop_bit_div [of 63]

lemma top_bit_range: "0 \<le> uint x div 2 ^ 63" "uint x div 2 ^ 63 \<le> 1" for x :: u64
  using uint_range [of x] by (simp_all add: pos_imp_zdiv_nonneg_iff)

lemma shift_in: "uint (push_bit 1 dhi OR drop_bit 63 dlo) = (2 * uint dhi + uint dlo div 2 ^ 63) mod 2 ^ 64"
  for dhi dlo :: u64
proof -
  have "\<not> bit (drop_bit 63 dlo) (Suc i)" for i using bit_imp_le_length [of dlo "63 + Suc i"] by (auto simp: bit_drop_bit_eq)
  then have "push_bit 1 dhi OR drop_bit 63 dlo = push_bit 1 dhi + drop_bit 63 dlo"
    by (intro disjunctive_add [symmetric]) (metis bit_push_bit_iff not_one_le_zero old.nat.exhaust)
  also have "uint \<dots> = (uint (push_bit 1 dhi) + uint (drop_bit 63 dlo)) mod 2 ^ 64"
    by (simp only: uint_word_ariths) simp
  also have "uint (push_bit 1 dhi) = 2 * uint dhi mod 2 ^ 64"
    by (simp add: push_bit_eq_mult uint_word_ariths mult.commute)
  finally show ?thesis unfolding uint_drop_bit_63 by (simp add: mod_simps)
qed

lemma divu128_round:
  fixes dhi dlo divisor :: u64
  defines "D \<equiv> 2 * uint dhi + uint dlo div 2 ^ 63"
  shows "drop_bit 63 dhi \<noteq> 0 \<or> divisor \<le> (push_bit 1 dhi OR drop_bit 63 dlo) \<longleftrightarrow> uint divisor \<le> D"
proof -
  have c: "drop_bit 63 dhi \<noteq> 0 \<longleftrightarrow> 2 ^ 63 \<le> uint dhi"
  proof -
    have "drop_bit 63 dhi = 0 \<longleftrightarrow> uint dhi div 2 ^ 63 = 0" by (simp only: word_uint_eq_iff uint_drop_bit_63 uint_0_eq)
    also have "\<dots> \<longleftrightarrow> uint dhi < 2 ^ 63" using uint_range(1) [of dhi] by (auto simp: zdiv_eq_0_iff)
    finally show ?thesis by auto
  qed
  show ?thesis
  proof (cases "2 ^ 63 \<le> uint dhi")
    case True
    then have "uint divisor \<le> D" using uint_range(2) [of divisor] top_bit_range [of dlo] unfolding D_def by simp
    then show ?thesis using True c by blast
  next
    case False
    then have "0 \<le> D" "D < 2 ^ 64" using uint_range(1) [of dhi] top_bit_range [of dlo] unfolding D_def by auto
    then have "uint (push_bit 1 dhi OR drop_bit 63 dlo) = D" unfolding shift_in D_def [symmetric] by (simp add: mod_pos_pos_trivial)
    then show ?thesis using False c by (simp only: word_le_def) blast
  qed
qed

lemma double_mod: "q = 0 \<or> q = 1 \<Longrightarrow> (2 * l + q) mod 2 ^ Suc m = 2 * (l mod 2 ^ m) + q" for l q :: int
  using zmod_zmult2_eq [of "2 ^ m" "2 * l + q" 2] by auto

lemma split_top_bit:
  fixes l q :: int
  assumes "n < 64" "q = 0 \<or> q = 1"
  shows "l div 2 ^ (64 - Suc n) = l div 2 ^ 63 * 2 ^ n + (2 * l + q) mod 2 ^ 64 div 2 ^ (64 - n)"
proof -
  define m where "m = 64 - Suc n"
  have m: "63 = n + m" "64 - n = Suc m" "64 - Suc n = m" using assms(1) unfolding m_def by auto
  have "(2 * l + q) mod 2 ^ 64 = 2 * (l mod 2 ^ 63) + q" using double_mod [OF assms(2), of l 63] by simp
  moreover have "(2 * (l mod 2 ^ 63) + q) div 2 ^ Suc m = l mod 2 ^ 63 div 2 ^ m"
  proof -
    have "(2 * (l mod 2 ^ 63) + q) div 2 = l mod 2 ^ 63" using assms(2) by auto
    then show ?thesis unfolding power_Suc using zdiv_zmult2_eq [of "2 ^ m" "2 * (l mod 2 ^ 63) + q" 2] by simp
  qed
  moreover have "l div 2 ^ m = l div 2 ^ 63 * 2 ^ n + l mod 2 ^ 63 div 2 ^ m"
  proof -
    have p: "(2 :: int) ^ 63 = 2 ^ n * 2 ^ m" by (simp only: m(1) power_add)
    have "l div 2 ^ 63 * 2 ^ n * 2 ^ m = l div 2 ^ 63 * 2 ^ 63" by (simp only: p mult.assoc)
    then have "l = l mod 2 ^ 63 + l div 2 ^ 63 * 2 ^ n * 2 ^ m" using div_mult_mod_eq [of l "2 ^ 63"] by linarith
    then have "l div 2 ^ m = (l mod 2 ^ 63 + l div 2 ^ 63 * 2 ^ n * 2 ^ m) div 2 ^ m" by simp
    then show ?thesis by (subst (asm) div_mult_self1) simp_all
  qed
  ultimately show ?thesis unfolding m by simp
qed

lemma split_low_bits:
  fixes l q :: int
  assumes "n < 64" "q = 0 \<or> q = 1"
  shows "(2 * l + q) mod 2 ^ 64 mod 2 ^ (64 - n) = 2 * (l mod 2 ^ (64 - Suc n)) + q"
proof -
  have "(2 * l + q) mod 2 ^ 64 mod 2 ^ (64 - n) = (2 * l + q) mod 2 ^ (64 - n)"
    by (intro mod_mod_cancel le_imp_power_dvd) simp
  moreover have "64 - n = Suc (64 - Suc n)" using assms(1) by simp
  ultimately show ?thesis using double_mod [OF assms(2), of l "64 - Suc n"] by simp
qed

lemma push_or_bit: "uint (push_bit 1 x OR of_bool b) = (2 * uint x + of_bool b) mod 2 ^ 64" for x :: u64
  using shift_in [of x "push_bit 63 (of_bool b)"] by (cases b) (simp_all add: drop_bit_push_bit)

lemma divu128_loop_exact:
  fixes dhi dlo divisor :: u64
  assumes "dhi < divisor" "n \<le> 64"
  defines "V \<equiv> uint dhi * 2 ^ n + uint dlo div 2 ^ (64 - n)"
  shows "divu128_loop n dhi dlo divisor =
    (word_of_int (V mod uint divisor), word_of_int (uint dlo mod 2 ^ (64 - n) * 2 ^ n + V div uint divisor))"
  using assms(1,2) unfolding V_def
proof (induction n arbitrary: dhi dlo)
  case 0
  then show ?case using uint_range [of dlo] uint_range [of dhi]
    by (simp add: word_less_def div_pos_pos_trivial mod_pos_pos_trivial)
next
  case (Suc n)
  define D where "D = 2 * uint dhi + uint dlo div 2 ^ 63"
  define q :: bool where "q = (uint divisor \<le> D)"
  define dhi' dlo' :: u64 where "dhi' = word_of_int (D - of_bool q * uint divisor)" and "dlo' = push_bit 1 dlo OR of_bool q"
  have "D < 2 * uint divisor" using Suc.prems(1) top_bit_range [of dlo] unfolding D_def word_less_def by linarith
  moreover have "0 \<le> D" using uint_range(1) [of dhi] top_bit_range [of dlo] unfolding D_def by linarith
  ultimately have d: "0 \<le> D - of_bool q * uint divisor" "D - of_bool q * uint divisor < uint divisor"
    unfolding q_def by auto
  then have u: "uint dhi' = D - of_bool q * uint divisor"
    unfolding dhi'_def using uint_range(2) [of divisor] by (intro uint_word_of_int) auto
  have "divu128_loop (Suc n) dhi dlo divisor = divu128_loop n dhi' dlo' divisor"
  proof -
    have "push_bit 1 dhi OR drop_bit 63 dlo = word_of_int D"
      unfolding word_uint_eq_iff shift_in D_def uint_word_of_int_eq take_bit_eq_mod by simp
    then show ?thesis
      unfolding divu128_loop.simps Let_def divu128_round D_def [symmetric] q_def [symmetric] dhi'_def dlo'_def
      by (simp add: of_int_diff)
  qed
  also have "\<dots> = (word_of_int ((uint dhi' * 2 ^ n + uint dlo' div 2 ^ (64 - n)) mod uint divisor),
      word_of_int (uint dlo' mod 2 ^ (64 - n) * 2 ^ n + (uint dhi' * 2 ^ n + uint dlo' div 2 ^ (64 - n)) div uint divisor))"
    using Suc.prems(2) d u by (intro Suc.IH) (simp_all add: word_less_def)
  finally have r: "divu128_loop (Suc n) dhi dlo divisor =
      (word_of_int ((uint dhi' * 2 ^ n + uint dlo' div 2 ^ (64 - n)) mod uint divisor),
       word_of_int (uint dlo' mod 2 ^ (64 - n) * 2 ^ n + (uint dhi' * 2 ^ n + uint dlo' div 2 ^ (64 - n)) div uint divisor))" .
  define V' where "V' = uint dhi' * 2 ^ n + uint dlo' div 2 ^ (64 - n)"
  have n: "n < 64" using Suc.prems(2) by simp
  have q: "(of_bool q :: int) = 0 \<or> (of_bool q :: int) = 1" by simp
  have V: "uint dhi * 2 ^ Suc n + uint dlo div 2 ^ (64 - Suc n) = V' + of_bool q * 2 ^ n * uint divisor"
    unfolding V'_def u D_def split_top_bit [OF n q] dlo'_def push_or_bit by (simp add: algebra_simps)
  have nz: "uint divisor \<noteq> 0" using d by linarith
  have "(V' + of_bool q * 2 ^ n * uint divisor) div uint divisor = of_bool q * 2 ^ n + V' div uint divisor"
    by (rule div_mult_self1) (rule nz)
  moreover have "uint dlo' mod 2 ^ (64 - n) = 2 * (uint dlo mod 2 ^ (64 - Suc n)) + of_bool q"
    unfolding dlo'_def push_or_bit by (rule split_low_bits [OF n q])
  ultimately show ?case unfolding r V V'_def [symmetric] mod_mult_self1 by (simp add: algebra_simps)
qed

text \<open>
  The quotient fits 64 bits exactly when the high word of the dividend is below the divisor; then the
  routine reports success and returns quotient and remainder.
\<close>

lemma divu128_exact:
  assumes "phigh < divisor"
  shows "divu128 plow phigh divisor =
    (False, word_of_int ((uint phigh * 2 ^ 64 + uint plow) div uint divisor),
     word_of_int ((uint phigh * 2 ^ 64 + uint plow) mod uint divisor))"
proof -
  have nz: "divisor \<noteq> 0" using assms word_not_simps(1) by auto
  show ?thesis
  proof (cases "phigh = 0")
    case True
    have "plow div divisor = word_of_int (uint plow div uint divisor)" "plow mod divisor = word_of_int (uint plow mod uint divisor)"
      by (simp_all add: word_div_def word_mod_def)
    then show ?thesis using True nz by (simp add: divu128_def)
  next
    case False
    then show ?thesis using nz assms divu128_loop_exact [OF assms, of 64 plow]
      by (simp add: divu128_def Let_def)
  qed
qed

text \<open>
  When the high word equals the divisor the quotient is at least \<open>2 ^ 64\<close>, but the routine reports success:
  the test is \<^verbatim>\<open>dhi > divisor\<close>. On every other input the report is right.
\<close>

lemma int_div_less: "0 < c \<Longrightarrow> x < k * c \<Longrightarrow> x div c < k" for c k x :: int
  using pos_imp_zdiv_neg_iff [of c "x + (- k) * c"] div_mult_self1 [of c x "- k"] by simp

lemma int_div_less_iff: "0 < c \<Longrightarrow> x div c < k \<longleftrightarrow> x < k * c" for c k x :: int
proof
  assume c: "0 < c" and "x div c < k"
  then have "(x div c + 1) * c \<le> k * c" by (intro mult_right_mono) auto
  moreover have "x < (x div c + 1) * c"
    using div_mult_mod_eq [of x c] pos_mod_bound [OF c, of x] unfolding distrib_right by linarith
  ultimately show "x < k * c" by linarith
qed (rule int_div_less)

lemma less_high_word: "0 \<le> l \<Longrightarrow> l < 18446744073709551616 \<Longrightarrow> h * 18446744073709551616 + l < 18446744073709551616 * d \<longleftrightarrow> h < d" for h l d :: int
  by (intro iffI; linarith)

lemma quotient_fits: "divisor \<noteq> 0 \<Longrightarrow> (uint phigh * 2 ^ 64 + uint plow) div uint divisor < 2 ^ 64 \<longleftrightarrow> phigh < divisor"
  for plow phigh divisor :: u64
proof -
  assume "divisor \<noteq> 0"
  then have "0 < uint divisor" by (simp add: word_neq_0_conv word_less_def)
  then have "(uint phigh * 2 ^ 64 + uint plow) div uint divisor < 2 ^ 64 \<longleftrightarrow> uint phigh * 2 ^ 64 + uint plow < 2 ^ 64 * uint divisor"
    by (rule int_div_less_iff)
  also have "\<dots> \<longleftrightarrow> uint phigh < uint divisor" using less_high_word [OF uint_range(1) uint_ranges(4)] by simp
  finally show ?thesis by (simp add: word_less_def)
qed

lemma divu128_report:
  "fst (divu128 plow phigh divisor) \<longleftrightarrow>
    divisor = 0 \<or> 2 ^ 64 \<le> (uint phigh * 2 ^ 64 + uint plow) div uint divisor \<and> phigh \<noteq> divisor"
proof (cases "divisor = 0")
  case False
  then have "0 < divisor" by (simp add: word_neq_0_conv)
  then show ?thesis using quotient_fits [OF False, of phigh plow] False by (auto simp: divu128_def Let_def case_prod_beta)
qed (simp add: divu128_def)

text \<open>The bits of the low word move up: after \<open>n\<close> rounds they stand above the \<open>n\<close> bits of the quotient.\<close>

lemma divu128_loop_bits: "bit (snd (divu128_loop n dhi dlo divisor)) (n + i) \<longleftrightarrow> n + i < 64 \<and> bit dlo i"
proof (induction n arbitrary: dhi dlo i)
  case 0
  then show ?case using bit_imp_le_length [of dlo i] by auto
next
  case (Suc n)
  have p: "bit (push_bit 1 dlo OR of_bool c) (Suc i) \<longleftrightarrow> bit dlo i" if "Suc i < 64" for c
    using that unfolding bit_or_iff bit_push_bit_iff by (cases c) (auto simp: bit_1_iff)
  show ?case using Suc.IH [of _ _ "Suc i"] p [of False] p [of True]
    by (cases "Suc i < 64") (simp_all only: divu128_loop.simps Let_def if_split add_Suc_right add_Suc of_bool_eq, auto)
qed

lemma sint_negative: "sint x < 0 \<longleftrightarrow> 2 ^ 63 \<le> uint x" for x :: u64
  using sint_uint_cases [of x] sint_ranges(7,8) [of x] uint_ranges(4) [of x] by (auto split: if_splits)

text \<open>For a divisor that is a magnitude of a signed word, the quotient then starts with two ones.\<close>

lemma divu128_loop_equal:
  fixes d l :: u64
  assumes "uint d \<le> 2 ^ 63"
  defines "q \<equiv> snd (divu128_loop 64 d l d)"
  shows "sint q < 0" "\<not> sint (- q) < 0"
proof -
  define x where "x = (push_bit 1 d OR drop_bit 63 l) - d"
  define y where "y = push_bit 1 l OR 1"
  have "push_bit 1 d OR drop_bit 63 l = word_of_int (2 * uint d + uint l div 2 ^ 63)"
    unfolding word_uint_eq_iff shift_in uint_word_of_int_eq take_bit_eq_mod by simp
  then have "x = word_of_int (uint d + uint l div 2 ^ 63)" unfolding x_def by (simp add: algebra_simps)
  moreover have "uint (word_of_int (uint d + uint l div 2 ^ 63) :: u64) = uint d + uint l div 2 ^ 63"
    using assms(1) uint_range(1) [of d] top_bit_range [of l] by (intro uint_word_of_int) simp_all
  ultimately have x: "uint d \<le> uint x" using top_bit_range(1) [of l] by (simp only:)
  have one: "divu128_loop (Suc n) h k d = divu128_loop n ((push_bit 1 h OR drop_bit 63 k) - d) (push_bit 1 k OR 1) d" if "uint d \<le> uint h" for n h k
  proof -
    have "uint d \<le> 2 * uint h + uint k div 2 ^ 63" using that uint_range(1) [of h] top_bit_range [of k] by linarith
    then show ?thesis using divu128_round [of h d k] by (simp add: Let_def)
  qed
  have "divu128_loop 64 d l d = divu128_loop (Suc (Suc 62)) d l d" by simp
  also have "\<dots> = divu128_loop 62 ((push_bit 1 x OR drop_bit 63 y) - d) (push_bit 1 y OR 1) d"
    unfolding x_def y_def by (subst one, simp, subst one, use x in \<open>simp add: x_def\<close>, rule refl)
  finally have "bit q 62" "bit q 63"
    unfolding q_def using divu128_loop_bits [of 62 _ "push_bit 1 y OR 1" d 0] divu128_loop_bits [of 62 _ "push_bit 1 y OR 1" d 1]
    by (simp_all add: y_def bit_simps)
  then have b: "bit q (62 + n) \<longleftrightarrow> n < 2" for n
    using bit_imp_le_length [of q "62 + n"] by (cases "n = 0"; cases "n = 1") auto
  have "drop_bit 62 q = mask 2" by (rule bit_word_eqI) (simp only: bit_drop_bit_eq o_apply b bit_mask_iff, simp)
  then have "drop_bit 62 q = 3" by (simp add: mask_eq_exp_minus_1)
  then have "uint q div 2 ^ 62 = 3" using uint_drop_bit_div [of 62 q] by simp
  then have q: "3 * 2 ^ 62 \<le> uint q" by simp
  then show "sint q < 0" by (simp add: sint_negative)
  have "- q = word_of_int (2 ^ 64 - uint q)" by simp
  moreover have "uint (word_of_int (2 ^ 64 - uint q) :: u64) = 2 ^ 64 - uint q" using q uint_ranges(4) [of q] by (intro uint_word_of_int) simp_all
  ultimately show "\<not> sint (- q) < 0" using q unfolding sint_negative by (simp only:) simp
qed

section \<open>Scaling\<close>

lemma uint_div_exact: "uint (x div y) = uint x div uint y" "uint (x mod y) = uint x mod uint y" for x y :: "'a::len word"
  by (simp_all add: uint_div_distrib uint_mod_distrib)

lemma muldiv64_exact:
  assumes "c \<noteq> 0"
  shows "uint (muldiv64 a b c) = (uint a * uint b div uint c) mod 2 ^ 64"
proof -
  define rl rh :: u64 where "rl = ucast (ll_low a) * ucast b" and "rh = ucast (ll_high a) * ucast b + drop_bit 32 rl"
  have dl: "drop_bit 32 rl = ucast (ll_high rl)"
    unfolding ll_high_def by (rule bit_word_eqI) (auto simp: bit_simps dest: bit_imp_le_length)
  have ml: "rl AND 0xffffffff = ucast (ll_low rl)"
  proof -
    have "(0xffffffff :: u64) = mask 32" by (simp add: mask_eq_exp_minus_1)
    then have "rl AND 0xffffffff = rl AND mask 32" by (simp only:)
    also have "\<dots> = ucast (ll_low rl)" unfolding ll_low_def by (rule bit_word_eqI) (auto simp: bit_simps)
    finally show ?thesis .
  qed
  have "uint c \<noteq> 0" using assms by (simp add: word_uint_eq_iff)
  then have "0 < uint c" using uint_range(1) [of c] by linarith
  moreover have "uint c < 2 ^ 32" using uint_ranges(3) [of c] by simp
  ultimately have c: "0 < uint c" "uint c < 2 ^ 32" .
  have "uint (ll_high a) * uint b \<le> (2 ^ 32 - 1) * (2 ^ 32 - 1)"
    using uint_range [of "ll_high a"] uint_range [of b] by (intro mult_mono) auto
  then have rh: "uint rh = uint (ll_high a) * uint b + uint (ll_high rl)"
    unfolding rh_def dl by (subst uint_add_exact) (use uint_ranges(3) [of "ll_high rl"] in \<open>simp_all add: uint_mul32\<close>)
  have rl: "uint (ll_low a) * uint b = uint (ll_low rl) + 2 ^ 32 * uint (ll_high rl)"
    unfolding ll_split [symmetric] unfolding rl_def uint_mul32 by (rule refl)
  have ab: "uint a * uint b = 2 ^ 32 * uint rh + uint (ll_low rl)"
    by (subst ll_split [of a]) (use rl in \<open>simp add: rh algebra_simps\<close>)
  define r where "r = uint rh mod uint c"
  have r: "0 \<le> r" "r \<le> uint c - 1" unfolding r_def using c by simp_all
  have pr: "uint (push_bit 32 (rh mod ucast c)) = 2 ^ 32 * r"
  proof -
    have "uint (push_bit 32 (rh mod ucast c)) = (2 ^ 32 * r) mod 2 ^ 64"
      unfolding r_def by (simp add: push_bit_eq_mult uint_word_ariths uint_mod_distrib mult.commute)
    then show ?thesis using r c by (simp add: mod_pos_pos_trivial)
  qed
  have low: "uint ((push_bit 32 (rh mod ucast c) + (rl AND 0xffffffff)) div ucast c) = (2 ^ 32 * r + uint (ll_low rl)) div uint c"
    unfolding ml uint_div_exact uint_ucast32
    by (subst uint_add_exact) (use r c uint_ranges(3) [of "ll_low rl"] in \<open>simp_all add: pr\<close>)
  have "(2 ^ 32 * r + uint (ll_low rl)) div uint c < 2 ^ 32"
    using r c uint_ranges(3) [of "ll_low rl"] by (intro int_div_less) auto
  moreover have "0 \<le> (2 ^ 32 * r + uint (ll_low rl)) div uint c" using r c by (simp add: pos_imp_zdiv_nonneg_iff)
  ultimately have L32: "(2 ^ 32 * r + uint (ll_low rl)) div uint c div 2 ^ 32 = 0"
      "(2 ^ 32 * r + uint (ll_low rl)) div uint c mod 2 ^ 32 = (2 ^ 32 * r + uint (ll_low rl)) div uint c"
    by (simp_all add: div_pos_pos_trivial mod_pos_pos_trivial)
  then have low32: "uint (ucast ((push_bit 32 (rh mod ucast c) + (rl AND 0xffffffff)) div ucast c) :: u32) =
      (2 ^ 32 * r + uint (ll_low rl)) div uint c"
    unfolding unsigned_ucast_eq low take_bit_eq_mod by simp
  define q L where "q = uint rh div uint c" and "L = (2 ^ 32 * r + uint (ll_low rl)) div uint c"
  have high: "uint (ucast (rh div ucast c) :: u32) = q mod 2 ^ 32"
    unfolding q_def unsigned_ucast_eq [of "rh div ucast c"] by (simp add: uint_div_exact take_bit_eq_mod)
  have "uint a * uint b div uint c = 2 ^ 32 * q + L"
  proof -
    have "uint rh = q * uint c + r" unfolding q_def r_def by simp
    then have "uint a * uint b = (2 ^ 32 * r + uint (ll_low rl)) + 2 ^ 32 * q * uint c" unfolding ab by (simp add: algebra_simps)
    then show ?thesis unfolding L_def using c by (simp add: div_mult_self1)
  qed
  moreover have "(2 ^ 32 * q + L) mod 2 ^ 64 = 2 ^ 32 * (q mod 2 ^ 32) + L"
    using zmod_zmult2_eq [of "2 ^ 32" "2 ^ 32 * q + L" "2 ^ 32"] L32 [folded L_def] by simp
  ultimately show ?thesis
    unfolding muldiv64_def Let_def rl_def [symmetric] rh_def [symmetric] uint_ll_make high low32 L_def [symmetric] by simp
qed

section \<open>Signed division\<close>

definition dividend :: "u64 \<Rightarrow> u64 \<Rightarrow> int" where "dividend plow phigh = sint phigh * 2 ^ 64 + uint plow"

text \<open>The magnitude of the dividend, as the two's complement negation of its two words computes it.\<close>

lemma uint_not: "uint (NOT x) = 2 ^ LENGTH('a) - 1 - uint x" for x :: "'a::len word"
proof -
  have "NOT x = word_of_int (2 ^ LENGTH('a) - 1 - uint x)"
    by (simp add: not_eq_complement word_of_int_2p)
  moreover have "0 \<le> 2 ^ LENGTH('a) - 1 - uint x" "2 ^ LENGTH('a) - 1 - uint x < 2 ^ LENGTH('a)"
    using uint_range [of x] by linarith+
  ultimately show ?thesis by (simp only: uint_word_of_int)
qed

lemma magnitude:
  fixes plow phigh :: u64
  assumes "sint phigh < 0"
  defines "r \<equiv> (if NOT plow = - 1 then (0, NOT phigh + 1) else (NOT plow + 1, NOT phigh))"
  shows "uint (snd r) * 2 ^ 64 + uint (fst r) = - dividend plow phigh"
proof -
  have h: "uint phigh = sint phigh + 2 ^ 64" using assms(1) sint_uint_cases [of phigh] uint_range(1) [of phigh]
    by (auto split: if_splits)
  have "uint (NOT phigh) + 1 < 2 ^ 64" using uint_not [of phigh] h sint_ranges(7) [of phigh] by simp
  then have h1: "uint (NOT phigh + 1) = - sint phigh" using uint_add_exact [of "NOT phigh" 1] uint_not [of phigh] h by simp
  show ?thesis
  proof (cases "plow = 0")
    case True
    then show ?thesis unfolding r_def dividend_def using h1 by simp
  next
    case False
    then have nz: "uint plow \<noteq> 0" "NOT plow \<noteq> - 1"
      by (simp add: word_uint_eq_iff, metis bit.double_compl bit.compl_one)
    then have "uint (NOT plow + 1) = 2 ^ 64 - uint plow"
      using uint_add_exact [of "NOT plow" 1] uint_not [of plow] uint_range(1) [of plow] by simp
    then show ?thesis unfolding r_def dividend_def using nz(2) uint_not [of phigh] h by simp
  qed
qed

text \<open>The signed routine divides the magnitudes, negates the quotient of operands of different sign and compares signs.\<close>

lemma divs128_magnitudes:
  fixes plow phigh divisor :: u64
  defines "N \<equiv> dividend plow phigh" and "d \<equiv> sint divisor"
  obtains l h m where "uint h * 2 ^ 64 + uint l = \<bar>N\<bar>" "uint m = \<bar>d\<bar>"
    "divs128 plow phigh divisor =
      (let (overflow, q, r) = divu128 l h m; q = (if (N < 0) \<noteq> (d < 0) then - q else q)
       in (overflow \<or> (sint q < 0) \<noteq> ((N < 0) \<noteq> (d < 0)), q, r))"
proof -
  define m where "m = (if sint phigh < 0 then (if NOT plow = - 1 then (0, NOT phigh + 1) else (NOT plow + 1, NOT phigh)) else (plow, phigh))"
  define dm where "dm = (if d < 0 then 0 - divisor else divisor)"
  have neg: "N < 0 \<longleftrightarrow> sint phigh < 0"
    unfolding N_def dividend_def by auto (use uint_range(1) [of plow] uint_ranges(4) [of plow] in linarith)+
  have A: "uint (snd m) * 2 ^ 64 + uint (fst m) = \<bar>N\<bar>"
  proof (cases "sint phigh < 0")
    case True
    then show ?thesis using magnitude [OF True, of plow] neg unfolding m_def N_def by simp
  next
    case False
    then show ?thesis using sint_uint_cases [of phigh] uint_range [of phigh] uint_range(1) [of plow]
      unfolding m_def N_def dividend_def by (auto split: if_splits)
  qed
  have dm: "uint dm = \<bar>d\<bar>"
  proof (cases "d < 0")
    case True
    have "0 - divisor = word_of_int (- d)" unfolding d_def by simp
    moreover have "uint (word_of_int (- d) :: u64) = - d"
      using True sint_ranges(7) [of divisor] unfolding d_def by (intro uint_word_of_int) auto
    ultimately show ?thesis using True by (simp add: dm_def)
  next
    case False
    then show ?thesis using sint_uint_cases [of divisor] uint_range [of divisor] unfolding dm_def d_def by (auto split: if_splits)
  qed
  show thesis
    using that [OF A dm] neg unfolding divs128_def Let_def m_def [symmetric] d_def [symmetric] dm_def [symmetric]
    by (auto simp: case_prod_beta)
qed

lemma sdiv_magnitudes: "N sdiv d = (if (N < 0) \<noteq> (d < 0) then - (\<bar>N\<bar> div \<bar>d\<bar>) else \<bar>N\<bar> div \<bar>d\<bar>)" for N d :: int
  unfolding signed_divide_int_def by (auto simp: sgn_if)

lemma sint_minus_quotient:
  assumes "0 \<le> q" "q < 2 ^ 64"
  shows "sint (word_of_int q :: u64) < 0 \<longleftrightarrow> 2 ^ 63 \<le> q" "sint (- word_of_int q :: u64) < 0 \<longleftrightarrow> 0 < q \<and> q \<le> 2 ^ 63"
proof -
  have u: "uint (word_of_int q :: u64) = q" using assms by (intro uint_word_of_int) simp_all
  then show "sint (word_of_int q :: u64) < 0 \<longleftrightarrow> 2 ^ 63 \<le> q" by (simp add: sint_negative)
  have "uint (- word_of_int q :: u64) = (if q = 0 then 0 else 2 ^ 64 - q)"
  proof (cases "q = 0")
    case False
    have "- word_of_int q = (word_of_int (2 ^ 64 - q) :: u64)" by simp
    moreover have "uint (word_of_int (2 ^ 64 - q) :: u64) = 2 ^ 64 - q" using False assms by (intro uint_word_of_int) simp_all
    ultimately show ?thesis using False by (simp only:) simp
  qed simp
  then show "sint (- word_of_int q :: u64) < 0 \<longleftrightarrow> 0 < q \<and> q \<le> 2 ^ 63" using assms by (auto simp: sint_negative)
qed

lemma divs128_fits:
  fixes plow phigh divisor :: u64
  defines "N \<equiv> dividend plow phigh" and "d \<equiv> sint divisor"
  assumes d0: "d \<noteq> 0" and q64: "\<bar>N\<bar> div \<bar>d\<bar> < 2 ^ 64"
  shows "divs128 plow phigh divisor =
    (N sdiv d < - (2 ^ 63) \<or> 2 ^ 63 \<le> N sdiv d \<or> N sdiv d = 0 \<and> (N < 0) \<noteq> (d < 0), word_of_int (N sdiv d), word_of_int (\<bar>N\<bar> mod \<bar>d\<bar>))"
proof -
  obtain l h m where m: "uint h * 2 ^ 64 + uint l = \<bar>N\<bar>" "uint m = \<bar>d\<bar>"
    "divs128 plow phigh divisor = (let (overflow, q, r) = divu128 l h m; q = (if (N < 0) \<noteq> (d < 0) then - q else q)
       in (overflow \<or> (sint q < 0) \<noteq> ((N < 0) \<noteq> (d < 0)), q, r))"
    unfolding N_def d_def by (rule divs128_magnitudes)
  have "m \<noteq> 0" using m(2) d0 by auto
  then have "h < m" using quotient_fits [of m h l] q64 unfolding m(1,2) by simp
  then have u: "divu128 l h m = (False, word_of_int (\<bar>N\<bar> div \<bar>d\<bar>), word_of_int (\<bar>N\<bar> mod \<bar>d\<bar>))"
    using divu128_exact [of h m l] unfolding m(1,2) by simp
  obtain q where q: "q = \<bar>N\<bar> div \<bar>d\<bar>" by simp
  have "0 \<le> q" unfolding q by (simp add: pos_imp_zdiv_nonneg_iff d0)
  then show ?thesis
    using sint_minus_quotient [of q] q64 unfolding m(3) u sdiv_magnitudes q [symmetric] by auto
qed

lemma divs128_too_large:
  fixes plow phigh divisor :: u64
  defines "N \<equiv> dividend plow phigh" and "d \<equiv> sint divisor"
  assumes q64: "d = 0 \<or> 2 ^ 64 \<le> \<bar>N\<bar> div \<bar>d\<bar>"
  shows "fst (divs128 plow phigh divisor)"
proof -
  obtain l h m where m: "uint h * 2 ^ 64 + uint l = \<bar>N\<bar>" "uint m = \<bar>d\<bar>"
    "divs128 plow phigh divisor = (let (overflow, q, r) = divu128 l h m; q = (if (N < 0) \<noteq> (d < 0) then - q else q)
       in (overflow \<or> (sint q < 0) \<noteq> ((N < 0) \<noteq> (d < 0)), q, r))"
    unfolding N_def d_def by (rule divs128_magnitudes)
  show ?thesis
  proof (cases "fst (divu128 l h m)")
    case False
    have "d = 0 \<Longrightarrow> m = 0" using m(2) by (simp add: word_uint_eq_iff)
    then have "m \<noteq> 0" "h = m" using False divu128_report [of l h m] q64 unfolding m(1,2) by auto
    then have "divu128 l h m = (False, snd (divu128_loop 64 m l m), fst (divu128_loop 64 m l m))"
      by (simp add: divu128_def case_prod_beta)
    moreover have "uint m \<le> 2 ^ 63" using m(2) sint_ranges(7,8) [of divisor] unfolding d_def by simp
    ultimately show ?thesis using divu128_loop_equal [of m l] unfolding m(3) by simp
  qed (simp add: m(3) case_prod_beta Let_def)
qed

lemma divs128_report:
  fixes plow phigh divisor :: u64
  defines "N \<equiv> dividend plow phigh" and "d \<equiv> sint divisor"
  shows "fst (divs128 plow phigh divisor) \<longleftrightarrow>
    d = 0 \<or> N sdiv d < - (2 ^ 63) \<or> 2 ^ 63 \<le> N sdiv d \<or> N sdiv d = 0 \<and> (N < 0) \<noteq> (d < 0)"
proof (cases "d \<noteq> 0 \<and> \<bar>N\<bar> div \<bar>d\<bar> < 2 ^ 64")
  case True
  then show ?thesis using divs128_fits [of divisor plow phigh] unfolding N_def d_def by simp
next
  case False
  then have "fst (divs128 plow phigh divisor)" using divs128_too_large [of divisor plow phigh] unfolding N_def d_def by auto
  then show ?thesis using False sdiv_magnitudes [of N d] by auto
qed

lemma divs128_exact:
  fixes plow phigh divisor :: u64
  defines "N \<equiv> dividend plow phigh" and "d \<equiv> sint divisor"
  assumes d0: "d \<noteq> 0" and fits: "- (2 ^ 63) \<le> N sdiv d" "N sdiv d < 2 ^ 63"
  shows "divs128 plow phigh divisor = (N sdiv d = 0 \<and> (N < 0) \<noteq> (d < 0), word_of_int (N sdiv d), word_of_int (\<bar>N\<bar> mod \<bar>d\<bar>))"
proof -
  have "\<bar>N\<bar> div \<bar>d\<bar> < 2 ^ 64" using fits unfolding sdiv_magnitudes by (auto split: if_splits)
  then show ?thesis using divs128_fits [of divisor plow phigh] d0 fits unfolding N_def d_def by simp
qed

section \<open>Properties\<close>

text \<open>
  C27. The 64 by 64 bit products are exact: \<^verbatim>\<open>mulu64\<close> and \<^verbatim>\<open>muls64\<close> return the low and the high word of the unsigned
  and the signed product, and \<^verbatim>\<open>muldiv64\<close> the quotient of the exact product by a divisor that is not zero, modulo \<open>2 ^ 64\<close>.
\<close>

theorem long_multiplication_exact:
  assumes "c \<noteq> 0"
  shows "(case mulu64 a b of (lo, hi) \<Rightarrow> uint lo + 2 ^ 64 * uint hi = uint a * uint b) \<and>
    (case muls64 a b of (lo, hi) \<Rightarrow> uint lo + 2 ^ 64 * sint hi = sint a * sint b) \<and>
    uint (muldiv64 a e c) = (uint a * uint e div uint c) mod 2 ^ 64"
  using mul64_exact [of a b] muls64_exact [of a b] muldiv64_exact [OF assms, of a e] by (simp add: mulu64_def)

theorem long_multiplication_exact_witness:
  "(3 :: u32) \<noteq> 0 \<and> uint (muldiv64 0x100000000 0x80000001 3) = (uint (0x100000000 :: u64) * uint (0x80000001 :: u32) div uint (3 :: u32)) mod 2 ^ 64"
  using long_multiplication_exact [of 3 "0x100000000" "0" "0x80000001"] by simp

text \<open>
  C28. 128 by 64 bit division: \<^verbatim>\<open>divu128\<close> reports success and returns quotient and remainder whenever the quotient fits 64 bits;
  \<^verbatim>\<open>divs128\<close> returns the quotient rounded towards zero and the magnitude of the remainder whenever the quotient fits a signed
  64-bit word, \<open>- 2 ^ 63\<close> included, and then reports an overflow only for a zero quotient of operands of different sign.
\<close>

theorem long_division_exact:
  assumes "divisor \<noteq> 0" "(uint phigh * 2 ^ 64 + uint plow) div uint divisor < 2 ^ 64"
    and "sint sdivisor \<noteq> 0" "- (2 ^ 63) \<le> dividend slow shigh sdiv sint sdivisor" "dividend slow shigh sdiv sint sdivisor < 2 ^ 63"
  shows "divu128 plow phigh divisor =
      (False, word_of_int ((uint phigh * 2 ^ 64 + uint plow) div uint divisor),
       word_of_int ((uint phigh * 2 ^ 64 + uint plow) mod uint divisor)) \<and>
    divs128 slow shigh sdivisor =
      (dividend slow shigh sdiv sint sdivisor = 0 \<and> (dividend slow shigh < 0) \<noteq> (sint sdivisor < 0),
       word_of_int (dividend slow shigh sdiv sint sdivisor), word_of_int (\<bar>dividend slow shigh\<bar> mod \<bar>sint sdivisor\<bar>))"
  using divu128_exact [of phigh divisor plow] quotient_fits [OF assms(1), of phigh plow] assms(2) divs128_exact [OF assms(3-5)] by simp

text \<open>The signed example has the smallest quotient: \<open>- 2 ^ 64\<close> divided by 2.\<close>

theorem long_division_exact_witness:
  "divu128 5 1 7 = (False, word_of_int ((uint (1 :: u64) * 2 ^ 64 + uint (5 :: u64)) div uint (7 :: u64)),
       word_of_int ((uint (1 :: u64) * 2 ^ 64 + uint (5 :: u64)) mod uint (7 :: u64))) \<and>
   divs128 0 (- 1) 2 = (False, word_of_int (- (2 ^ 63)), 0)"
proof -
  have d: "dividend 0 (- 1) = - (2 ^ 64)" by (simp add: dividend_def)
  have q: "- (2 ^ 64) sdiv sint (2 :: u64) = - (2 ^ 63)" by (simp add: signed_divide_int_def)
  show ?thesis
    using long_division_exact [of 7 1 5 2 0 "- 1"] unfolding d q by simp
qed

text \<open>
  C29. The error reports, on every input. \<^verbatim>\<open>divu128\<close> reports exactly a zero divisor or a quotient of \<open>2 ^ 64\<close> or more, except that it
  misses every dividend whose high word equals the divisor. \<^verbatim>\<open>divs128\<close> reports exactly a zero divisor or a quotient outside the signed
  64-bit range, and besides, without need, every zero quotient of operands of different sign (zero divided by a negative number included).
\<close>

theorem long_division_errors:
  "(fst (divu128 plow phigh divisor) \<longleftrightarrow>
      divisor = 0 \<or> 2 ^ 64 \<le> (uint phigh * 2 ^ 64 + uint plow) div uint divisor \<and> phigh \<noteq> divisor) \<and>
   (fst (divs128 slow shigh sdivisor) \<longleftrightarrow>
      sint sdivisor = 0 \<or> dividend slow shigh sdiv sint sdivisor < - (2 ^ 63) \<or> 2 ^ 63 \<le> dividend slow shigh sdiv sint sdivisor \<or>
      dividend slow shigh sdiv sint sdivisor = 0 \<and> (dividend slow shigh < 0) \<noteq> (sint sdivisor < 0))"
  by (intro conjI divu128_report divs128_report)

end
