(* ===== verification/Tcg_Ir.thy ===== *)
theory Tcg_Ir
  imports Bitops
begin

text \<open>
  The intermediate representation of the code generator: operand types, the opcode table of
  \<^verbatim>\<open>tcg/tcg-opc.h\<close>, comparison conditions and operations of \<^verbatim>\<open>tcg/tcg.h\<close>, as the library is configured:
  a 32-bit ARM host (\<^verbatim>\<open>TCG_TARGET_REG_BITS\<close> = 32) running a 32-bit ARM guest. A \<^verbatim>\<open>TCGArg\<close> and a
  \<^verbatim>\<open>tcg_target_ulong\<close> are then 32-bit words. An opcode that \<^verbatim>\<open>CASE_OP_32_64\<close> treats alike in its \<^verbatim>\<open>_i32\<close> and
  \<^verbatim>\<open>_i64\<close> forms is one constructor with the type as its argument. The arguments of an operation, a slice of
  \<^verbatim>\<open>gen_opparam_buf\<close>, are a list.
\<close>

section \<open>Types and opcodes\<close>

type_synonym TCGArg = u32

datatype TCGType = TCG_TYPE_I32 | TCG_TYPE_I64

definition TCG_TARGET_REG_BITS :: nat where "TCG_TARGET_REG_BITS = 32"

datatype TCGOpcode =
    INDEX_op_discard | INDEX_op_set_label | INDEX_op_call | INDEX_op_br
  | INDEX_op_mov TCGType | INDEX_op_movi TCGType | INDEX_op_setcond TCGType | INDEX_op_movcond TCGType
  | INDEX_op_ld8u TCGType | INDEX_op_ld8s TCGType | INDEX_op_ld16u TCGType | INDEX_op_ld16s TCGType
  | INDEX_op_ld32u_i64 | INDEX_op_ld32s_i64 | INDEX_op_ld TCGType
  | INDEX_op_st8 TCGType | INDEX_op_st16 TCGType | INDEX_op_st32_i64 | INDEX_op_st TCGType
  | INDEX_op_add TCGType | INDEX_op_sub TCGType | INDEX_op_mul TCGType
  | INDEX_op_div TCGType | INDEX_op_divu TCGType | INDEX_op_rem TCGType | INDEX_op_remu TCGType
  | INDEX_op_div2 TCGType | INDEX_op_divu2 TCGType
  | INDEX_op_and TCGType | INDEX_op_or TCGType | INDEX_op_xor TCGType
  | INDEX_op_shl TCGType | INDEX_op_shr TCGType | INDEX_op_sar TCGType
  | INDEX_op_rotl TCGType | INDEX_op_rotr TCGType | INDEX_op_deposit TCGType
  | INDEX_op_brcond TCGType
  | INDEX_op_add2 TCGType | INDEX_op_sub2 TCGType | INDEX_op_mulu2 TCGType | INDEX_op_muls2 TCGType
  | INDEX_op_muluh TCGType | INDEX_op_mulsh TCGType
  | INDEX_op_brcond2_i32 | INDEX_op_setcond2_i32
  | INDEX_op_ext8s TCGType | INDEX_op_ext16s TCGType | INDEX_op_ext8u TCGType | INDEX_op_ext16u TCGType
  | INDEX_op_ext32s_i64 | INDEX_op_ext32u_i64
  | INDEX_op_bswap16 TCGType | INDEX_op_bswap32 TCGType | INDEX_op_bswap64_i64
  | INDEX_op_not TCGType | INDEX_op_neg TCGType | INDEX_op_andc TCGType | INDEX_op_orc TCGType
  | INDEX_op_eqv TCGType | INDEX_op_nand TCGType | INDEX_op_nor TCGType
  | INDEX_op_ext_i32_i64 | INDEX_op_extu_i32_i64 | INDEX_op_extrl_i64_i32 | INDEX_op_extrh_i64_i32
  | INDEX_op_insn_start | INDEX_op_exit_tb | INDEX_op_goto_tb
  | INDEX_op_qemu_ld TCGType | INDEX_op_qemu_st TCGType

section \<open>The opcode table\<close>

definition TCG_OPF_BB_END :: u32 where "TCG_OPF_BB_END = 0x01"
definition TCG_OPF_CALL_CLOBBER :: u32 where "TCG_OPF_CALL_CLOBBER = 0x02"
definition TCG_OPF_SIDE_EFFECTS :: u32 where "TCG_OPF_SIDE_EFFECTS = 0x04"
definition TCG_OPF_64BIT :: u32 where "TCG_OPF_64BIT = 0x08"
definition TCG_OPF_NOT_PRESENT :: u32 where "TCG_OPF_NOT_PRESENT = 0x10"

lemmas TCG_OPF_defs = TCG_OPF_BB_END_def TCG_OPF_CALL_CLOBBER_def TCG_OPF_SIDE_EFFECTS_def
  TCG_OPF_64BIT_def TCG_OPF_NOT_PRESENT_def

record TCGOpDef =
  nb_oargs :: nat
  nb_iargs :: nat
  nb_cargs :: nat
  def_flags :: u32

text \<open>\<^verbatim>\<open>DEF(name, oargs, iargs, cargs, flags)\<close>, \<^verbatim>\<open>IMPL\<close> and \<^verbatim>\<open>IMPL64\<close>.\<close>

definition DEF :: "nat \<Rightarrow> nat \<Rightarrow> nat \<Rightarrow> u32 \<Rightarrow> TCGOpDef" where
  "DEF oargs iargs cargs flags = \<lparr>nb_oargs = oargs, nb_iargs = iargs, nb_cargs = cargs, def_flags = flags\<rparr>"

definition IMPL :: "bool \<Rightarrow> u32" where "IMPL x = (if x then 0 else TCG_OPF_NOT_PRESENT)"

text \<open>
  The flags of the \<^verbatim>\<open>_i32\<close> and \<^verbatim>\<open>_i64\<close> forms of an opcode, given what \<^verbatim>\<open>tcg/arm/tcg-target.h\<close> says of its
  \<^verbatim>\<open>_i32\<close> form; no \<^verbatim>\<open>_i64\<close> form is implemented on this host.
\<close>

definition TCG_IMPL :: "TCGType \<Rightarrow> bool \<Rightarrow> u32" where
  "TCG_IMPL ty has_i32 = (case ty of TCG_TYPE_I32 \<Rightarrow> IMPL has_i32 | TCG_TYPE_I64 \<Rightarrow> TCG_OPF_64BIT OR TCG_OPF_NOT_PRESENT)"

text \<open>\<^verbatim>\<open>muluh_i64\<close> and \<^verbatim>\<open>mulsh_i64\<close> lack the 64-bit flag in the table.\<close>

definition TCG_IMPL_mulh :: "TCGType \<Rightarrow> u32" where "TCG_IMPL_mulh ty = IMPL False"

definition TCG_MOV_FLAGS :: "TCGType \<Rightarrow> u32" where
  "TCG_MOV_FLAGS ty = (case ty of TCG_TYPE_I32 \<Rightarrow> TCG_OPF_NOT_PRESENT | TCG_TYPE_I64 \<Rightarrow> TCG_OPF_64BIT OR TCG_OPF_NOT_PRESENT)"

definition TLADDR_ARGS :: nat where "TLADDR_ARGS = 1"
definition DATA64_ARGS :: nat where "DATA64_ARGS = 2"
definition TARGET_INSN_START_WORDS :: nat where "TARGET_INSN_START_WORDS = 3"

primrec tcg_op_defs :: "TCGOpcode \<Rightarrow> TCGOpDef" where
  "tcg_op_defs INDEX_op_discard = DEF 1 0 0 TCG_OPF_NOT_PRESENT"
| "tcg_op_defs INDEX_op_set_label = DEF 0 0 1 (TCG_OPF_BB_END OR TCG_OPF_NOT_PRESENT)"
| "tcg_op_defs INDEX_op_call = DEF 0 0 3 (TCG_OPF_CALL_CLOBBER OR TCG_OPF_NOT_PRESENT)"
| "tcg_op_defs INDEX_op_br = DEF 0 0 1 TCG_OPF_BB_END"
| "tcg_op_defs (INDEX_op_mov ty) = DEF 1 1 0 (TCG_MOV_FLAGS ty)"
| "tcg_op_defs (INDEX_op_movi ty) = DEF 1 0 1 (TCG_MOV_FLAGS ty)"
| "tcg_op_defs (INDEX_op_setcond ty) = DEF 1 2 1 (TCG_IMPL ty True)"
| "tcg_op_defs (INDEX_op_movcond ty) = DEF 1 4 1 (TCG_IMPL ty True)"
| "tcg_op_defs (INDEX_op_ld8u ty) = DEF 1 1 1 (TCG_IMPL ty True)"
| "tcg_op_defs (INDEX_op_ld8s ty) = DEF 1 1 1 (TCG_IMPL ty True)"
| "tcg_op_defs (INDEX_op_ld16u ty) = DEF 1 1 1 (TCG_IMPL ty True)"
| "tcg_op_defs (INDEX_op_ld16s ty) = DEF 1 1 1 (TCG_IMPL ty True)"
| "tcg_op_defs INDEX_op_ld32u_i64 = DEF 1 1 1 (TCG_IMPL TCG_TYPE_I64 True)"
| "tcg_op_defs INDEX_op_ld32s_i64 = DEF 1 1 1 (TCG_IMPL TCG_TYPE_I64 True)"
| "tcg_op_defs (INDEX_op_ld ty) = DEF 1 1 1 (TCG_IMPL ty True)"
| "tcg_op_defs (INDEX_op_st8 ty) = DEF 0 2 1 (TCG_IMPL ty True)"
| "tcg_op_defs (INDEX_op_st16 ty) = DEF 0 2 1 (TCG_IMPL ty True)"
| "tcg_op_defs INDEX_op_st32_i64 = DEF 0 2 1 (TCG_IMPL TCG_TYPE_I64 True)"
| "tcg_op_defs (INDEX_op_st ty) = DEF 0 2 1 (TCG_IMPL ty True)"
| "tcg_op_defs (INDEX_op_add ty) = DEF 1 2 0 (TCG_IMPL ty True)"
| "tcg_op_defs (INDEX_op_sub ty) = DEF 1 2 0 (TCG_IMPL ty True)"
| "tcg_op_defs (INDEX_op_mul ty) = DEF 1 2 0 (TCG_IMPL ty True)"
| "tcg_op_defs (INDEX_op_div ty) = DEF 1 2 0 (TCG_IMPL ty True)"
| "tcg_op_defs (INDEX_op_divu ty) = DEF 1 2 0 (TCG_IMPL ty True)"
| "tcg_op_defs (INDEX_op_rem ty) = DEF 1 2 0 (TCG_IMPL ty False)"
| "tcg_op_defs (INDEX_op_remu ty) = DEF 1 2 0 (TCG_IMPL ty False)"
| "tcg_op_defs (INDEX_op_div2 ty) = DEF 2 3 0 (TCG_IMPL ty False)"
| "tcg_op_defs (INDEX_op_divu2 ty) = DEF 2 3 0 (TCG_IMPL ty False)"
| "tcg_op_defs (INDEX_op_and ty) = DEF 1 2 0 (TCG_IMPL ty True)"
| "tcg_op_defs (INDEX_op_or ty) = DEF 1 2 0 (TCG_IMPL ty True)"
| "tcg_op_defs (INDEX_op_xor ty) = DEF 1 2 0 (TCG_IMPL ty True)"
| "tcg_op_defs (INDEX_op_shl ty) = DEF 1 2 0 (TCG_IMPL ty True)"
| "tcg_op_defs (INDEX_op_shr ty) = DEF 1 2 0 (TCG_IMPL ty True)"
| "tcg_op_defs (INDEX_op_sar ty) = DEF 1 2 0 (TCG_IMPL ty True)"
| "tcg_op_defs (INDEX_op_rotl ty) = DEF 1 2 0 (TCG_IMPL ty True)"
| "tcg_op_defs (INDEX_op_rotr ty) = DEF 1 2 0 (TCG_IMPL ty True)"
| "tcg_op_defs (INDEX_op_deposit ty) = DEF 1 2 2 (TCG_IMPL ty True)"
| "tcg_op_defs (INDEX_op_brcond ty) = DEF 0 2 2 (TCG_OPF_BB_END OR TCG_IMPL ty True)"
| "tcg_op_defs (INDEX_op_add2 ty) = DEF 2 4 0 (TCG_IMPL ty True)"
| "tcg_op_defs (INDEX_op_sub2 ty) = DEF 2 4 0 (TCG_IMPL ty True)"
| "tcg_op_defs (INDEX_op_mulu2 ty) = DEF 2 2 0 (TCG_IMPL ty True)"
| "tcg_op_defs (INDEX_op_muls2 ty) = DEF 2 2 0 (TCG_IMPL ty True)"
| "tcg_op_defs (INDEX_op_muluh ty) = DEF 1 2 0 (TCG_IMPL_mulh ty)"
| "tcg_op_defs (INDEX_op_mulsh ty) = DEF 1 2 0 (TCG_IMPL_mulh ty)"
| "tcg_op_defs INDEX_op_brcond2_i32 = DEF 0 4 2 (TCG_OPF_BB_END OR IMPL (TCG_TARGET_REG_BITS = 32))"
| "tcg_op_defs INDEX_op_setcond2_i32 = DEF 1 4 1 (IMPL (TCG_TARGET_REG_BITS = 32))"
| "tcg_op_defs (INDEX_op_ext8s ty) = DEF 1 1 0 (TCG_IMPL ty True)"
| "tcg_op_defs (INDEX_op_ext16s ty) = DEF 1 1 0 (TCG_IMPL ty True)"
| "tcg_op_defs (INDEX_op_ext8u ty) = DEF 1 1 0 (TCG_IMPL ty False)"
| "tcg_op_defs (INDEX_op_ext16u ty) = DEF 1 1 0 (TCG_IMPL ty True)"
| "tcg_op_defs INDEX_op_ext32s_i64 = DEF 1 1 0 (TCG_IMPL TCG_TYPE_I64 False)"
| "tcg_op_defs INDEX_op_ext32u_i64 = DEF 1 1 0 (TCG_IMPL TCG_TYPE_I64 False)"
| "tcg_op_defs (INDEX_op_bswap16 ty) = DEF 1 1 0 (TCG_IMPL ty True)"
| "tcg_op_defs (INDEX_op_bswap32 ty) = DEF 1 1 0 (TCG_IMPL ty True)"
| "tcg_op_defs INDEX_op_bswap64_i64 = DEF 1 1 0 (TCG_IMPL TCG_TYPE_I64 False)"
| "tcg_op_defs (INDEX_op_not ty) = DEF 1 1 0 (TCG_IMPL ty True)"
| "tcg_op_defs (INDEX_op_neg ty) = DEF 1 1 0 (TCG_IMPL ty True)"
| "tcg_op_defs (INDEX_op_andc ty) = DEF 1 2 0 (TCG_IMPL ty True)"
| "tcg_op_defs (INDEX_op_orc ty) = DEF 1 2 0 (TCG_IMPL ty False)"
| "tcg_op_defs (INDEX_op_eqv ty) = DEF 1 2 0 (TCG_IMPL ty False)"
| "tcg_op_defs (INDEX_op_nand ty) = DEF 1 2 0 (TCG_IMPL ty False)"
| "tcg_op_defs (INDEX_op_nor ty) = DEF 1 2 0 (TCG_IMPL ty False)"
| "tcg_op_defs INDEX_op_ext_i32_i64 = DEF 1 1 0 (TCG_IMPL TCG_TYPE_I64 True)"
| "tcg_op_defs INDEX_op_extu_i32_i64 = DEF 1 1 0 (TCG_IMPL TCG_TYPE_I64 True)"
| "tcg_op_defs INDEX_op_extrl_i64_i32 = DEF 1 1 0 TCG_OPF_NOT_PRESENT"
| "tcg_op_defs INDEX_op_extrh_i64_i32 = DEF 1 1 0 TCG_OPF_NOT_PRESENT"
| "tcg_op_defs INDEX_op_insn_start = DEF 0 0 (TLADDR_ARGS * TARGET_INSN_START_WORDS) TCG_OPF_NOT_PRESENT"
| "tcg_op_defs INDEX_op_exit_tb = DEF 0 0 1 TCG_OPF_BB_END"
| "tcg_op_defs INDEX_op_goto_tb = DEF 0 0 1 TCG_OPF_BB_END"
| "tcg_op_defs (INDEX_op_qemu_ld ty) = (case ty of
     TCG_TYPE_I32 \<Rightarrow> DEF 1 TLADDR_ARGS 1 (TCG_OPF_CALL_CLOBBER OR TCG_OPF_SIDE_EFFECTS)
   | TCG_TYPE_I64 \<Rightarrow> DEF DATA64_ARGS TLADDR_ARGS 1 (TCG_OPF_CALL_CLOBBER OR TCG_OPF_SIDE_EFFECTS OR TCG_OPF_64BIT))"
| "tcg_op_defs (INDEX_op_qemu_st ty) = (case ty of
     TCG_TYPE_I32 \<Rightarrow> DEF 0 (TLADDR_ARGS + 1) 1 (TCG_OPF_CALL_CLOBBER OR TCG_OPF_SIDE_EFFECTS)
   | TCG_TYPE_I64 \<Rightarrow> DEF 0 (TLADDR_ARGS + DATA64_ARGS) 1 (TCG_OPF_CALL_CLOBBER OR TCG_OPF_SIDE_EFFECTS OR TCG_OPF_64BIT))"

section \<open>Conditions\<close>

definition TCG_COND_NEVER :: TCGArg where "TCG_COND_NEVER = 0"
definition TCG_COND_ALWAYS :: TCGArg where "TCG_COND_ALWAYS = 1"
definition TCG_COND_EQ :: TCGArg where "TCG_COND_EQ = 8"
definition TCG_COND_NE :: TCGArg where "TCG_COND_NE = 8 OR 1"
definition TCG_COND_LT :: TCGArg where "TCG_COND_LT = 2"
definition TCG_COND_GE :: TCGArg where "TCG_COND_GE = 2 OR 1"
definition TCG_COND_LE :: TCGArg where "TCG_COND_LE = 8 OR 2"
definition TCG_COND_GT :: TCGArg where "TCG_COND_GT = 8 OR 2 OR 1"
definition TCG_COND_LTU :: TCGArg where "TCG_COND_LTU = 4"
definition TCG_COND_GEU :: TCGArg where "TCG_COND_GEU = 4 OR 1"
definition TCG_COND_LEU :: TCGArg where "TCG_COND_LEU = 8 OR 4"
definition TCG_COND_GTU :: TCGArg where "TCG_COND_GTU = 8 OR 4 OR 1"

lemmas TCG_COND_defs = TCG_COND_NEVER_def TCG_COND_ALWAYS_def TCG_COND_EQ_def TCG_COND_NE_def TCG_COND_LT_def
  TCG_COND_GE_def TCG_COND_LE_def TCG_COND_GT_def TCG_COND_LTU_def TCG_COND_GEU_def TCG_COND_LEU_def TCG_COND_GTU_def

definition tcg_invert_cond :: "TCGArg \<Rightarrow> TCGArg" where "tcg_invert_cond c = c XOR 1"

definition tcg_swap_cond :: "TCGArg \<Rightarrow> TCGArg" where
  "tcg_swap_cond c = (if c AND 6 \<noteq> 0 then c XOR 9 else c)"

definition tcg_unsigned_cond :: "TCGArg \<Rightarrow> TCGArg" where
  "tcg_unsigned_cond c = (if c AND 2 \<noteq> 0 then c XOR 6 else c)"

definition is_unsigned_cond :: "TCGArg \<Rightarrow> bool" where "is_unsigned_cond c \<longleftrightarrow> c AND 4 \<noteq> 0"

definition tcg_high_cond :: "TCGArg \<Rightarrow> TCGArg" where
  "tcg_high_cond c = (if c = TCG_COND_GE \<or> c = TCG_COND_LE \<or> c = TCG_COND_GEU \<or> c = TCG_COND_LEU then c XOR 8 else c)"

section \<open>Operations and temporaries\<close>

record TCGOp =
  opc :: TCGOpcode
  calli :: nat
  callo :: nat
  args :: "TCGArg list"

record TCGTemp =
  base_type :: TCGType
  type :: TCGType
  temp_local :: bool

record TCGContext =
  nb_globals :: TCGArg
  nb_temps :: TCGArg
  temps :: "TCGArg \<Rightarrow> TCGTemp"

definition TCG_MAX_TEMPS :: nat where "TCG_MAX_TEMPS = 512"
definition TCG_CALL_DUMMY_ARG :: TCGArg where "TCG_CALL_DUMMY_ARG = - 1"
definition TCG_CALL_NO_READ_GLOBALS :: TCGArg where "TCG_CALL_NO_READ_GLOBALS = 0x0010"
definition TCG_CALL_NO_WRITE_GLOBALS :: TCGArg where "TCG_CALL_NO_WRITE_GLOBALS = 0x0020"
definition TCG_CALL_NO_SIDE_EFFECTS :: TCGArg where "TCG_CALL_NO_SIDE_EFFECTS = 0x0040"

definition MO_SIZE :: u32 where "MO_SIZE = 3"
definition MO_SIGN :: u32 where "MO_SIGN = 4"
definition MO_BSWAP :: u32 where "MO_BSWAP = 8"

definition get_memop :: "u32 \<Rightarrow> u32" where "get_memop oi = drop_bit 4 oi"

text \<open>The number of output and input arguments of an operation; a call carries its own.\<close>

definition op_oargs :: "TCGOp \<Rightarrow> nat" where
  "op_oargs op = (if opc op = INDEX_op_call then callo op else nb_oargs (tcg_op_defs (opc op)))"

definition op_iargs :: "TCGOp \<Rightarrow> nat" where
  "op_iargs op = (if opc op = INDEX_op_call then calli op else nb_iargs (tcg_op_defs (opc op)))"

section \<open>What a condition means\<close>

definition tcg_cond_holds :: "TCGArg \<Rightarrow> 'a::len word \<Rightarrow> 'a word \<Rightarrow> bool" where
  "tcg_cond_holds c x y =
     (if c = TCG_COND_ALWAYS then True
      else if c = TCG_COND_EQ then x = y else if c = TCG_COND_NE then x \<noteq> y
      else if c = TCG_COND_LT then sint x < sint y else if c = TCG_COND_GE then sint y \<le> sint x
      else if c = TCG_COND_LE then sint x \<le> sint y else if c = TCG_COND_GT then sint y < sint x
      else if c = TCG_COND_LTU then x < y else if c = TCG_COND_GEU then y \<le> x
      else if c = TCG_COND_LEU then x \<le> y else if c = TCG_COND_GTU then y < x
      else False)"

definition is_comparison :: "TCGArg \<Rightarrow> bool" where
  "is_comparison c \<longleftrightarrow> c \<in> {TCG_COND_EQ, TCG_COND_NE, TCG_COND_LT, TCG_COND_GE, TCG_COND_LE, TCG_COND_GT,
     TCG_COND_LTU, TCG_COND_GEU, TCG_COND_LEU, TCG_COND_GTU}"

lemma is_comparison_cases:
  assumes "is_comparison c"
  obtains "c = TCG_COND_EQ" | "c = TCG_COND_NE" | "c = TCG_COND_LT" | "c = TCG_COND_GE" | "c = TCG_COND_LE"
    | "c = TCG_COND_GT" | "c = TCG_COND_LTU" | "c = TCG_COND_GEU" | "c = TCG_COND_LEU" | "c = TCG_COND_GTU"
  using assms unfolding is_comparison_def by blast

lemma cond_holds_simps [simp]:
  "tcg_cond_holds TCG_COND_EQ x y \<longleftrightarrow> x = y" "tcg_cond_holds TCG_COND_NE x y \<longleftrightarrow> x \<noteq> y"
  "tcg_cond_holds TCG_COND_LT x y \<longleftrightarrow> sint x < sint y" "tcg_cond_holds TCG_COND_GE x y \<longleftrightarrow> sint y \<le> sint x"
  "tcg_cond_holds TCG_COND_LE x y \<longleftrightarrow> sint x \<le> sint y" "tcg_cond_holds TCG_COND_GT x y \<longleftrightarrow> sint y < sint x"
  "tcg_cond_holds TCG_COND_LTU x y \<longleftrightarrow> x < y" "tcg_cond_holds TCG_COND_GEU x y \<longleftrightarrow> y \<le> x"
  "tcg_cond_holds TCG_COND_LEU x y \<longleftrightarrow> x \<le> y" "tcg_cond_holds TCG_COND_GTU x y \<longleftrightarrow> y < x"
  by (simp_all add: tcg_cond_holds_def TCG_COND_defs)

lemma swap_cond_simps [simp]:
  "tcg_swap_cond TCG_COND_EQ = TCG_COND_EQ" "tcg_swap_cond TCG_COND_NE = TCG_COND_NE"
  "tcg_swap_cond TCG_COND_LT = TCG_COND_GT" "tcg_swap_cond TCG_COND_GE = TCG_COND_LE"
  "tcg_swap_cond TCG_COND_LE = TCG_COND_GE" "tcg_swap_cond TCG_COND_GT = TCG_COND_LT"
  "tcg_swap_cond TCG_COND_LTU = TCG_COND_GTU" "tcg_swap_cond TCG_COND_GEU = TCG_COND_LEU"
  "tcg_swap_cond TCG_COND_LEU = TCG_COND_GEU" "tcg_swap_cond TCG_COND_GTU = TCG_COND_LTU"
  by (simp_all add: tcg_swap_cond_def TCG_COND_defs)

lemma invert_cond_simps [simp]:
  "tcg_invert_cond TCG_COND_EQ = TCG_COND_NE" "tcg_invert_cond TCG_COND_NE = TCG_COND_EQ"
  "tcg_invert_cond TCG_COND_LT = TCG_COND_GE" "tcg_invert_cond TCG_COND_GE = TCG_COND_LT"
  "tcg_invert_cond TCG_COND_LE = TCG_COND_GT" "tcg_invert_cond TCG_COND_GT = TCG_COND_LE"
  "tcg_invert_cond TCG_COND_LTU = TCG_COND_GEU" "tcg_invert_cond TCG_COND_GEU = TCG_COND_LTU"
  "tcg_invert_cond TCG_COND_LEU = TCG_COND_GTU" "tcg_invert_cond TCG_COND_GTU = TCG_COND_LEU"
  by (simp_all add: tcg_invert_cond_def TCG_COND_defs)

lemma swap_cond_holds: "is_comparison c \<Longrightarrow> tcg_cond_holds (tcg_swap_cond c) y x \<longleftrightarrow> tcg_cond_holds c x y"
  by (erule is_comparison_cases) auto

lemma invert_cond_holds: "is_comparison c \<Longrightarrow> tcg_cond_holds (tcg_invert_cond c) x y \<longleftrightarrow> \<not> tcg_cond_holds c x y"
  by (erule is_comparison_cases) auto

lemma is_comparison_simps [simp]:
  "is_comparison TCG_COND_EQ" "is_comparison TCG_COND_NE" "is_comparison TCG_COND_LT" "is_comparison TCG_COND_GE"
  "is_comparison TCG_COND_LE" "is_comparison TCG_COND_GT" "is_comparison TCG_COND_LTU" "is_comparison TCG_COND_GEU"
  "is_comparison TCG_COND_LEU" "is_comparison TCG_COND_GTU"
  by (simp_all add: is_comparison_def)

lemma is_comparison_swap [simp]: "is_comparison c \<Longrightarrow> is_comparison (tcg_swap_cond c)"
  by (erule is_comparison_cases) auto

lemma is_comparison_invert [simp]: "is_comparison c \<Longrightarrow> is_comparison (tcg_invert_cond c)"
  by (erule is_comparison_cases) auto

end
