(* ===== verification/Tcg_Optimize.thy ===== *)
theory Tcg_Optimize
  imports Tcg_Ir Host_Utils
begin

text \<open>
  The optimiser of \<^verbatim>\<open>tcg/optimize.c\<close>: constant and copy propagation, constant folding and simplification
  with known-zero bits, one pass over the operations of a translation block. The file's static
  arrays \<^verbatim>\<open>temps\<close> and \<^verbatim>\<open>temps_used\<close> are the state \<open>opt_info\<close>; the operations are a list, \<^verbatim>\<open>tcg_op_remove\<close> drops the
  current one and \<^verbatim>\<open>tcg_op_insert_before\<close> puts one before it. The body of the loop is cut into the
  phases the source separates with comments; a phase that ends in \<^verbatim>\<open>continue\<close> returns what it emits. A call of
  \<^verbatim>\<open>tcg_abort\<close> is the result \<open>None\<close>.
\<close>

section \<open>What is known of a temporary\<close>

text \<open>
  The links are 16-bit in the source; they hold numbers of temporaries, which are below \<^verbatim>\<open>TCG_MAX_TEMPS\<close> = 512, the size of
  the array, so their width is not modelled.
\<close>

record tcg_temp_info =
  is_const :: bool
  prev_copy :: TCGArg
  next_copy :: TCGArg
  val :: u32
  tmask :: u32

record opt_info =
  tinfo :: "TCGArg \<Rightarrow> tcg_temp_info"
  temps_used :: "TCGArg \<Rightarrow> bool"

definition upd_info :: "TCGArg \<Rightarrow> (tcg_temp_info \<Rightarrow> tcg_temp_info) \<Rightarrow> opt_info \<Rightarrow> opt_info" where
  "upd_info t f I = I\<lparr>tinfo := (tinfo I)(t := f (tinfo I t))\<rparr>"

definition temp_is_const :: "opt_info \<Rightarrow> TCGArg \<Rightarrow> bool" where
  "temp_is_const I arg = is_const (tinfo I arg)"

definition temp_is_copy :: "opt_info \<Rightarrow> TCGArg \<Rightarrow> bool" where
  "temp_is_copy I arg \<longleftrightarrow> next_copy (tinfo I arg) \<noteq> arg"

definition reset_temp :: "TCGArg \<Rightarrow> opt_info \<Rightarrow> opt_info" where
  "reset_temp temp I =
     (let I = upd_info (next_copy (tinfo I temp)) (prev_copy_update (\<lambda>_. prev_copy (tinfo I temp))) I;
          I = upd_info (prev_copy (tinfo I temp)) (next_copy_update (\<lambda>_. next_copy (tinfo I temp))) I
      in upd_info temp (\<lambda>i. i\<lparr>next_copy := temp, prev_copy := temp, is_const := False, tmask := - 1\<rparr>) I)"

definition reset_all_temps :: "opt_info \<Rightarrow> opt_info" where
  "reset_all_temps I = I\<lparr>temps_used := (\<lambda>_. False)\<rparr>"

definition init_temp_info :: "TCGArg \<Rightarrow> opt_info \<Rightarrow> opt_info" where
  "init_temp_info temp I =
     (if \<not> temps_used I temp
      then (upd_info temp (\<lambda>i. i\<lparr>next_copy := temp, prev_copy := temp, is_const := False, tmask := - 1\<rparr>) I)
             \<lparr>temps_used := (temps_used I)(temp := True)\<rparr>
      else I)"

definition op_bits :: "TCGOpcode \<Rightarrow> nat" where
  "op_bits oc = (if def_flags (tcg_op_defs oc) AND TCG_OPF_64BIT \<noteq> 0 then 64 else 32)"

definition op_to_mov :: "TCGOpcode \<Rightarrow> TCGOpcode" where
  "op_to_mov oc = (if op_bits oc = 32 then INDEX_op_mov TCG_TYPE_I32 else INDEX_op_mov TCG_TYPE_I64)"

definition op_to_movi :: "TCGOpcode \<Rightarrow> TCGOpcode" where
  "op_to_movi oc = (if op_bits oc = 32 then INDEX_op_movi TCG_TYPE_I32 else INDEX_op_movi TCG_TYPE_I64)"

text \<open>
  The loops \<^verbatim>\<open>for (i = temps[temp].next_copy; i != temp; i = temps[i].next_copy)\<close>: the first copy that satisfies \<open>P\<close>, if
  any; \<open>None\<close> when the bound on the number of steps is exhausted.
\<close>

fun copy_walk :: "nat \<Rightarrow> opt_info \<Rightarrow> (TCGArg \<Rightarrow> bool) \<Rightarrow> TCGArg \<Rightarrow> TCGArg \<Rightarrow> TCGArg option option" where
  "copy_walk n I P temp i =
     (if i = temp then Some None
      else if P i then Some (Some i)
      else case n of 0 \<Rightarrow> None | Suc m \<Rightarrow> copy_walk m I P temp (next_copy (tinfo I i)))"

definition find_copy :: "opt_info \<Rightarrow> (TCGArg \<Rightarrow> bool) \<Rightarrow> TCGArg \<Rightarrow> TCGArg option" where
  "find_copy I P temp = (case copy_walk TCG_MAX_TEMPS I P temp (next_copy (tinfo I temp)) of
     None \<Rightarrow> None | Some r \<Rightarrow> r)"

definition find_better_copy :: "TCGContext \<Rightarrow> opt_info \<Rightarrow> TCGArg \<Rightarrow> TCGArg" where
  "find_better_copy s I temp =
     (if temp < nb_globals s then temp
      else case find_copy I (\<lambda>i. i < nb_globals s) temp of
        Some i \<Rightarrow> i
      | None \<Rightarrow>
          (if \<not> temp_local (temps s temp)
           then (case find_copy I (\<lambda>i. temp_local (temps s i)) temp of Some i \<Rightarrow> i | None \<Rightarrow> temp)
           else temp))"

definition temps_are_copies :: "opt_info \<Rightarrow> TCGArg \<Rightarrow> TCGArg \<Rightarrow> bool" where
  "temps_are_copies I arg1 arg2 =
     (if arg1 = arg2 then True
      else if \<not> temp_is_copy I arg1 \<or> \<not> temp_is_copy I arg2 then False
      else find_copy I (\<lambda>i. i = arg2) arg1 \<noteq> None)"

definition tcg_opt_gen_movi :: "TCGOp \<Rightarrow> TCGArg \<Rightarrow> TCGArg \<Rightarrow> opt_info \<Rightarrow> TCGOp \<times> opt_info" where
  "tcg_opt_gen_movi op dst v I =
     (let new_op = op_to_movi (opc op);
          I = reset_temp dst I;
          msk = (if TCG_TARGET_REG_BITS > 32 \<and> new_op = INDEX_op_movi TCG_TYPE_I32 then v OR NOT 0xffffffff else v);
          I = upd_info dst (\<lambda>i. i\<lparr>is_const := True, val := v, tmask := msk\<rparr>) I
      in (op\<lparr>opc := new_op, args := (args op)[0 := dst, 1 := v]\<rparr>, I))"

text \<open>The move is dropped when both temporaries are copies already.\<close>

definition tcg_opt_gen_mov :: "TCGContext \<Rightarrow> TCGOp \<Rightarrow> TCGArg \<Rightarrow> TCGArg \<Rightarrow> opt_info \<Rightarrow> TCGOp list \<times> opt_info" where
  "tcg_opt_gen_mov s op dst src I =
     (if temps_are_copies I dst src then ([], I)
      else
        (let new_op = op_to_mov (opc op);
             I = reset_temp dst I;
             msk = tmask (tinfo I src);
             msk = (if TCG_TARGET_REG_BITS > 32 \<and> new_op = INDEX_op_mov TCG_TYPE_I32 then msk OR NOT 0xffffffff else msk);
             I = upd_info dst (tmask_update (\<lambda>_. msk)) I;
             I = (if type (temps s src) = type (temps s dst)
                  then (let I = upd_info dst (next_copy_update (\<lambda>_. next_copy (tinfo I src))) I;
                            I = upd_info dst (prev_copy_update (\<lambda>_. src)) I;
                            I = upd_info (next_copy (tinfo I dst)) (prev_copy_update (\<lambda>_. dst)) I;
                            I = upd_info src (next_copy_update (\<lambda>_. dst)) I
                        in upd_info dst (\<lambda>i. i\<lparr>is_const := is_const (tinfo I src), val := val (tinfo I src)\<rparr>) I)
                  else I)
         in ([op\<lparr>opc := new_op, args := (args op)[0 := dst, 1 := src]\<rparr>], I)))"

section \<open>Constant folding\<close>

definition do_constant_folding_2 :: "TCGOpcode \<Rightarrow> TCGArg \<Rightarrow> TCGArg \<Rightarrow> TCGArg option" where
  "do_constant_folding_2 oc x y = (case oc of
     INDEX_op_add _ \<Rightarrow> Some (x + y)
   | INDEX_op_sub _ \<Rightarrow> Some (x - y)
   | INDEX_op_mul _ \<Rightarrow> Some (x * y)
   | INDEX_op_and _ \<Rightarrow> Some (x AND y)
   | INDEX_op_or _ \<Rightarrow> Some (x OR y)
   | INDEX_op_xor _ \<Rightarrow> Some (x XOR y)
   | INDEX_op_shl TCG_TYPE_I32 \<Rightarrow> Some (push_bit (unat (y AND 31)) x)
   | INDEX_op_shl TCG_TYPE_I64 \<Rightarrow> Some (ucast (push_bit (unat (y AND 63)) (ucast x :: u64)))
   | INDEX_op_shr TCG_TYPE_I32 \<Rightarrow> Some (drop_bit (unat (y AND 31)) x)
   | INDEX_op_shr TCG_TYPE_I64 \<Rightarrow> Some (ucast (drop_bit (unat (y AND 63)) (ucast x :: u64)))
   | INDEX_op_sar TCG_TYPE_I32 \<Rightarrow> Some (signed_drop_bit (unat (y AND 31)) x)
   | INDEX_op_sar TCG_TYPE_I64 \<Rightarrow> Some (ucast (signed_drop_bit (unat (y AND 63)) (ucast x :: u64)))
   | INDEX_op_rotr TCG_TYPE_I32 \<Rightarrow> Some (ror32 x (unat (y AND 31)))
   | INDEX_op_rotr TCG_TYPE_I64 \<Rightarrow> Some (ucast (ror64 (ucast x) (unat (y AND 63))))
   | INDEX_op_rotl TCG_TYPE_I32 \<Rightarrow> Some (rol32 x (unat (y AND 31)))
   | INDEX_op_rotl TCG_TYPE_I64 \<Rightarrow> Some (ucast (rol64 (ucast x) (unat (y AND 63))))
   | INDEX_op_not _ \<Rightarrow> Some (NOT x)
   | INDEX_op_neg _ \<Rightarrow> Some (- x)
   | INDEX_op_andc _ \<Rightarrow> Some (x AND NOT y)
   | INDEX_op_orc _ \<Rightarrow> Some (x OR NOT y)
   | INDEX_op_eqv _ \<Rightarrow> Some (NOT (x XOR y))
   | INDEX_op_nand _ \<Rightarrow> Some (NOT (x AND y))
   | INDEX_op_nor _ \<Rightarrow> Some (NOT (x OR y))
   | INDEX_op_ext8s _ \<Rightarrow> Some (scast (ucast x :: u8))
   | INDEX_op_ext16s _ \<Rightarrow> Some (scast (ucast x :: u16))
   | INDEX_op_ext8u _ \<Rightarrow> Some (ucast (ucast x :: u8))
   | INDEX_op_ext16u _ \<Rightarrow> Some (ucast (ucast x :: u16))
   | INDEX_op_ext_i32_i64 \<Rightarrow> Some x
   | INDEX_op_ext32s_i64 \<Rightarrow> Some x
   | INDEX_op_extu_i32_i64 \<Rightarrow> Some x
   | INDEX_op_extrl_i64_i32 \<Rightarrow> Some x
   | INDEX_op_ext32u_i64 \<Rightarrow> Some x
   | INDEX_op_extrh_i64_i32 \<Rightarrow> Some (ucast (drop_bit 32 (ucast x :: u64)))
   | INDEX_op_muluh TCG_TYPE_I32 \<Rightarrow> Some (ucast (drop_bit 32 (ucast x * ucast y :: u64)))
   | INDEX_op_mulsh TCG_TYPE_I32 \<Rightarrow> Some (ucast (signed_drop_bit 32 (scast x * scast y :: u64)))
   | INDEX_op_muluh TCG_TYPE_I64 \<Rightarrow> Some (ucast (snd (mulu64 (ucast x) (ucast y))))
   | INDEX_op_mulsh TCG_TYPE_I64 \<Rightarrow> Some (ucast (snd (muls64 (ucast x) (ucast y))))
   | INDEX_op_div TCG_TYPE_I32 \<Rightarrow> Some (word_of_int (sint x sdiv (if y \<noteq> 0 then sint y else 1)))
   | INDEX_op_divu TCG_TYPE_I32 \<Rightarrow> Some (x div (if y \<noteq> 0 then y else 1))
   | INDEX_op_div TCG_TYPE_I64 \<Rightarrow> Some (word_of_int (uint x sdiv (if y \<noteq> 0 then uint y else 1)))
   | INDEX_op_divu TCG_TYPE_I64 \<Rightarrow> Some (x div (if y \<noteq> 0 then y else 1))
   | INDEX_op_rem TCG_TYPE_I32 \<Rightarrow> Some (word_of_int (sint x smod (if y \<noteq> 0 then sint y else 1)))
   | INDEX_op_remu TCG_TYPE_I32 \<Rightarrow> Some (x mod (if y \<noteq> 0 then y else 1))
   | INDEX_op_rem TCG_TYPE_I64 \<Rightarrow> Some (word_of_int (uint x smod (if y \<noteq> 0 then uint y else 1)))
   | INDEX_op_remu TCG_TYPE_I64 \<Rightarrow> Some (x mod (if y \<noteq> 0 then y else 1))
   | _ \<Rightarrow> None)"

definition do_constant_folding :: "TCGOpcode \<Rightarrow> TCGArg \<Rightarrow> TCGArg \<Rightarrow> TCGArg option" where
  "do_constant_folding oc x y = (case do_constant_folding_2 oc x y of
     None \<Rightarrow> None
   | Some res \<Rightarrow> Some (if op_bits oc = 32 then scast (ucast res :: u32) else res))"

definition do_constant_folding_cond_w :: "'a::len word \<Rightarrow> 'a word \<Rightarrow> TCGArg \<Rightarrow> bool option" where
  "do_constant_folding_cond_w x y c =
     (if c = TCG_COND_EQ then Some (x = y)
      else if c = TCG_COND_NE then Some (x \<noteq> y)
      else if c = TCG_COND_LT then Some (sint x < sint y)
      else if c = TCG_COND_GE then Some (sint x \<ge> sint y)
      else if c = TCG_COND_LE then Some (sint x \<le> sint y)
      else if c = TCG_COND_GT then Some (sint x > sint y)
      else if c = TCG_COND_LTU then Some (x < y)
      else if c = TCG_COND_GEU then Some (x \<ge> y)
      else if c = TCG_COND_LEU then Some (x \<le> y)
      else if c = TCG_COND_GTU then Some (x > y)
      else None)"

definition do_constant_folding_cond_32 :: "u32 \<Rightarrow> u32 \<Rightarrow> TCGArg \<Rightarrow> bool option" where
  "do_constant_folding_cond_32 x y c = do_constant_folding_cond_w x y c"

definition do_constant_folding_cond_64 :: "u64 \<Rightarrow> u64 \<Rightarrow> TCGArg \<Rightarrow> bool option" where
  "do_constant_folding_cond_64 x y c = do_constant_folding_cond_w x y c"

definition do_constant_folding_cond_eq :: "TCGArg \<Rightarrow> bool option" where
  "do_constant_folding_cond_eq c =
     (if c = TCG_COND_GT \<or> c = TCG_COND_LTU \<or> c = TCG_COND_LT \<or> c = TCG_COND_GTU \<or> c = TCG_COND_NE then Some False
      else if c = TCG_COND_GE \<or> c = TCG_COND_GEU \<or> c = TCG_COND_LE \<or> c = TCG_COND_LEU \<or> c = TCG_COND_EQ then Some True
      else None)"

text \<open>The result is 0 or 1, or 2 when the condition cannot be simplified.\<close>

definition do_constant_folding_cond :: "opt_info \<Rightarrow> TCGOpcode \<Rightarrow> TCGArg \<Rightarrow> TCGArg \<Rightarrow> TCGArg \<Rightarrow> nat option" where
  "do_constant_folding_cond I oc x y c =
     (if temp_is_const I x \<and> temp_is_const I y
      then (if op_bits oc = 32
            then map_option of_bool (do_constant_folding_cond_32 (val (tinfo I x)) (val (tinfo I y)) c)
            else map_option of_bool (do_constant_folding_cond_64 (ucast (val (tinfo I x))) (ucast (val (tinfo I y))) c))
      else if temps_are_copies I x y then map_option of_bool (do_constant_folding_cond_eq c)
      else if temp_is_const I y \<and> val (tinfo I y) = 0
      then (if c = TCG_COND_LTU then Some 0 else if c = TCG_COND_GEU then Some 1 else Some 2)
      else Some 2)"

definition do_constant_folding_cond2 ::
    "opt_info \<Rightarrow> TCGArg \<times> TCGArg \<Rightarrow> TCGArg \<times> TCGArg \<Rightarrow> TCGArg \<Rightarrow> nat option" where
  "do_constant_folding_cond2 I p1 p2 c =
     (let (al, ah) = p1; (bl, bh) = p2;
          rest = (if temps_are_copies I al bl \<and> temps_are_copies I ah bh
                  then map_option of_bool (do_constant_folding_cond_eq c) else Some 2)
      in if temp_is_const I bl \<and> temp_is_const I bh
         then (let b = push_bit 32 (ucast (val (tinfo I bh))) OR ucast (val (tinfo I bl)) :: u64
               in if temp_is_const I al \<and> temp_is_const I ah
                  then (let a = push_bit 32 (ucast (val (tinfo I ah))) OR ucast (val (tinfo I al))
                        in map_option of_bool (do_constant_folding_cond_64 a b c))
                  else if b = 0 \<and> c = TCG_COND_LTU then Some 0
                  else if b = 0 \<and> c = TCG_COND_GEU then Some 1
                  else rest)
         else rest)"

text \<open>The result says whether the operands were swapped, and gives the operands.\<close>

definition swap_commutative :: "opt_info \<Rightarrow> TCGArg \<Rightarrow> TCGArg \<Rightarrow> TCGArg \<Rightarrow> bool \<times> TCGArg \<times> TCGArg" where
  "swap_commutative I dest a1 a2 =
     (let sum = of_bool (temp_is_const I a1) - of_bool (temp_is_const I a2) :: int
      in if sum > 0 \<or> (sum = 0 \<and> dest = a2) then (True, a2, a1) else (False, a1, a2))"

definition swap_commutative2 :: "opt_info \<Rightarrow> TCGArg \<times> TCGArg \<Rightarrow> TCGArg \<times> TCGArg \<Rightarrow>
    bool \<times> (TCGArg \<times> TCGArg) \<times> (TCGArg \<times> TCGArg)" where
  "swap_commutative2 I p1 p2 =
     (let sum = of_bool (temp_is_const I (fst p1)) + of_bool (temp_is_const I (snd p1))
                - of_bool (temp_is_const I (fst p2)) - of_bool (temp_is_const I (snd p2)) :: int
      in if sum > 0 then (True, p2, p1) else (False, p1, p2))"

section \<open>The phases of the loop\<close>

text \<open>The arguments are counted and the temporaries among them activated.\<close>

definition opt_init_args :: "TCGOp \<Rightarrow> opt_info \<Rightarrow> opt_info" where
  "opt_init_args op I =
     fold (\<lambda>tmp I. if opc op = INDEX_op_call \<and> tmp = TCG_CALL_DUMMY_ARG then I else init_temp_info tmp I)
       (take (op_oargs op + op_iargs op) (args op)) I"

definition opt_copy_prop :: "TCGContext \<Rightarrow> opt_info \<Rightarrow> TCGOp \<Rightarrow> TCGOp" where
  "opt_copy_prop s I op =
     (let n = op_oargs op; k = op_iargs op; a = args op;
          better = (\<lambda>t. if temp_is_copy I t then find_better_copy s I t else t)
      in op\<lparr>args := take n a @ map better (take k (drop n a)) @ drop (n + k) a\<rparr>)"

text \<open>\<^verbatim>\<open>swap_commutative\<close> on the arguments \<open>i\<close> and \<open>j\<close>; when they are swapped the condition \<open>c\<close> is adjusted by \<open>f\<close>.\<close>

definition swap_args :: "opt_info \<Rightarrow> TCGArg \<Rightarrow> nat \<Rightarrow> nat \<Rightarrow> (TCGArg list \<Rightarrow> TCGArg list) \<Rightarrow> TCGArg list \<Rightarrow> TCGArg list" where
  "swap_args I dest i j f a =
     (let (swapped, a1, a2) = swap_commutative I dest (a ! i) (a ! j); b = a[i := a1, j := a2]
      in if swapped then f b else b)"

definition swap_args2 :: "opt_info \<Rightarrow> nat \<Rightarrow> nat \<Rightarrow> (TCGArg list \<Rightarrow> TCGArg list) \<Rightarrow> TCGArg list \<Rightarrow> TCGArg list" where
  "swap_args2 I i j f a =
     (let (swapped, (l1, h1), (l2, h2)) = swap_commutative2 I (a ! i, a ! (i + 1)) (a ! j, a ! (j + 1));
          b = a[i := l1, i + 1 := h1, j := l2, j + 1 := h2]
      in if swapped then f b else b)"

definition opt_commute :: "opt_info \<Rightarrow> TCGOp \<Rightarrow> TCGOp" where
  "opt_commute I op =
     (let a = args op;
          binary = swap_args I (a ! 0) 1 2 id a;
          swap_cond = (\<lambda>n b. b[n := tcg_swap_cond (b ! n)]);
          invert_cond = (\<lambda>n b. b[n := tcg_invert_cond (b ! n)])
      in op\<lparr>args := (case opc op of
           INDEX_op_add _ \<Rightarrow> binary
         | INDEX_op_mul _ \<Rightarrow> binary
         | INDEX_op_and _ \<Rightarrow> binary
         | INDEX_op_or _ \<Rightarrow> binary
         | INDEX_op_xor _ \<Rightarrow> binary
         | INDEX_op_eqv _ \<Rightarrow> binary
         | INDEX_op_nand _ \<Rightarrow> binary
         | INDEX_op_nor _ \<Rightarrow> binary
         | INDEX_op_muluh _ \<Rightarrow> binary
         | INDEX_op_mulsh _ \<Rightarrow> binary
         | INDEX_op_brcond _ \<Rightarrow> swap_args I (- 1) 0 1 (swap_cond 2) a
         | INDEX_op_setcond _ \<Rightarrow> swap_args I (a ! 0) 1 2 (swap_cond 3) a
         | INDEX_op_movcond _ \<Rightarrow> swap_args I (a ! 0) 4 3 (invert_cond 5) (swap_args I (- 1) 1 2 (swap_cond 5) a)
         | INDEX_op_add2 _ \<Rightarrow> swap_args I (a ! 1) 3 5 id (swap_args I (a ! 0) 2 4 id a)
         | INDEX_op_mulu2 _ \<Rightarrow> swap_args I (a ! 0) 2 3 id a
         | INDEX_op_muls2 _ \<Rightarrow> swap_args I (a ! 0) 2 3 id a
         | INDEX_op_brcond2_i32 \<Rightarrow> swap_args2 I 0 2 (swap_cond 4) a
         | INDEX_op_setcond2_i32 \<Rightarrow> swap_args2 I 1 3 (swap_cond 5) a
         | _ \<Rightarrow> a)\<rparr>)"

text \<open>What the host implements of the operations that the simplifications introduce (\<^verbatim>\<open>tcg/arm/tcg-target.h\<close>).\<close>

definition TCG_TARGET_HAS_neg :: "TCGType \<Rightarrow> bool" where "TCG_TARGET_HAS_neg ty \<longleftrightarrow> ty = TCG_TYPE_I32"
definition TCG_TARGET_HAS_not :: "TCGType \<Rightarrow> bool" where "TCG_TARGET_HAS_not ty \<longleftrightarrow> ty = TCG_TYPE_I32"

text \<open>The first simplifications: a shift of zero, \<open>0 - a\<close>, and the complements, with their label \<^verbatim>\<open>try_not\<close>.\<close>

definition const_is :: "opt_info \<Rightarrow> TCGArg \<Rightarrow> u32 \<Rightarrow> bool" where
  "const_is I t v \<longleftrightarrow> temp_is_const I t \<and> val (tinfo I t) = v"

definition try_not :: "opt_info \<Rightarrow> TCGOp \<Rightarrow> nat \<Rightarrow> (TCGOp list \<times> opt_info) option" where
  "try_not I op i =
     (let a = args op;
          ty = (if def_flags (tcg_op_defs (opc op)) AND TCG_OPF_64BIT \<noteq> 0 then TCG_TYPE_I64 else TCG_TYPE_I32)
      in if \<not> TCG_TARGET_HAS_not ty then None
         else Some ([op\<lparr>opc := INDEX_op_not ty, args := a[1 := a ! i]\<rparr>], reset_temp (a ! 0) I))"

definition opt_sub_neg :: "opt_info \<Rightarrow> TCGOp \<Rightarrow> TCGType \<Rightarrow> (TCGOp list \<times> opt_info) option" where
  "opt_sub_neg I op ty =
     (let a = args op
      in if temp_is_const I (a ! 2) then None
         else if \<not> TCG_TARGET_HAS_neg ty then None
         else if const_is I (a ! 1) 0
         then Some ([op\<lparr>opc := INDEX_op_neg ty, args := a[1 := a ! 2]\<rparr>], reset_temp (a ! 0) I)
         else None)"

definition opt_zero_neg_not :: "opt_info \<Rightarrow> TCGOp \<Rightarrow> (TCGOp list \<times> opt_info) option" where
  "opt_zero_neg_not I op =
     (let a = args op;
          shift = (if const_is I (a ! 1) 0
                   then (let (op, I) = tcg_opt_gen_movi op (a ! 0) 0 I in Some ([op], I)) else None);
          not_1 = (\<lambda>v. if \<not> temp_is_const I (a ! 1) \<and> const_is I (a ! 2) v then try_not I op 1 else None);
          not_2 = (\<lambda>v. if \<not> temp_is_const I (a ! 2) \<and> const_is I (a ! 1) v then try_not I op 2 else None)
      in case opc op of
           INDEX_op_shl _ \<Rightarrow> shift
         | INDEX_op_shr _ \<Rightarrow> shift
         | INDEX_op_sar _ \<Rightarrow> shift
         | INDEX_op_rotl _ \<Rightarrow> shift
         | INDEX_op_rotr _ \<Rightarrow> shift
         | INDEX_op_sub ty \<Rightarrow> opt_sub_neg I op ty
         | INDEX_op_xor _ \<Rightarrow> not_1 (- 1)
         | INDEX_op_nand _ \<Rightarrow> not_1 (- 1)
         | INDEX_op_nor _ \<Rightarrow> not_1 0
         | INDEX_op_andc _ \<Rightarrow> not_2 (- 1)
         | INDEX_op_orc _ \<Rightarrow> not_2 0
         | INDEX_op_eqv _ \<Rightarrow> not_2 0
         | _ \<Rightarrow> None)"

text \<open>\<open>op r, a, const \<Rightarrow> mov r, a\<close>.\<close>

definition opt_mov_const :: "TCGContext \<Rightarrow> opt_info \<Rightarrow> TCGOp \<Rightarrow> (TCGOp list \<times> opt_info) option" where
  "opt_mov_const s I op =
     (let a = args op;
          unit = (\<lambda>v. if \<not> temp_is_const I (a ! 1) \<and> const_is I (a ! 2) v
                      then Some (tcg_opt_gen_mov s op (a ! 0) (a ! 1) I) else None)
      in case opc op of
           INDEX_op_add _ \<Rightarrow> unit 0
         | INDEX_op_sub _ \<Rightarrow> unit 0
         | INDEX_op_shl _ \<Rightarrow> unit 0
         | INDEX_op_shr _ \<Rightarrow> unit 0
         | INDEX_op_sar _ \<Rightarrow> unit 0
         | INDEX_op_rotl _ \<Rightarrow> unit 0
         | INDEX_op_rotr _ \<Rightarrow> unit 0
         | INDEX_op_or _ \<Rightarrow> unit 0
         | INDEX_op_xor _ \<Rightarrow> unit 0
         | INDEX_op_andc _ \<Rightarrow> unit 0
         | INDEX_op_and _ \<Rightarrow> unit (- 1)
         | INDEX_op_orc _ \<Rightarrow> unit (- 1)
         | INDEX_op_eqv _ \<Rightarrow> unit (- 1)
         | _ \<Rightarrow> None)"

text \<open>The bits that the first output may have set, and the bits that the operation may clear.\<close>

definition opt_masks :: "opt_info \<Rightarrow> TCGOp \<Rightarrow> u32 \<times> u32" where
  "opt_masks I op =
     (let a = args op; m = (\<lambda>n. tmask (tinfo I (a ! n))); v = (\<lambda>n. val (tinfo I (a ! n)));
          and_const = (\<lambda>mk. (m 1 AND mk, m 1 AND NOT mk));
          const2 = temp_is_const I (a ! 2)
      in case opc op of
           INDEX_op_ext8s _ \<Rightarrow> (if m 1 AND 0x80 \<noteq> 0 then (- 1, - 1) else and_const 0xff)
         | INDEX_op_ext8u _ \<Rightarrow> and_const 0xff
         | INDEX_op_ext16s _ \<Rightarrow> (if m 1 AND 0x8000 \<noteq> 0 then (- 1, - 1) else and_const 0xffff)
         | INDEX_op_ext16u _ \<Rightarrow> and_const 0xffff
         | INDEX_op_ext32s_i64 \<Rightarrow> (if m 1 AND 0x80000000 \<noteq> 0 then (- 1, - 1) else and_const 0xffffffff)
         | INDEX_op_ext32u_i64 \<Rightarrow> and_const 0xffffffff
         | INDEX_op_and _ \<Rightarrow> (if const2 then and_const (m 2) else (m 1 AND m 2, - 1))
         | INDEX_op_ext_i32_i64 \<Rightarrow> (if m 1 AND 0x80000000 \<noteq> 0 then (- 1, - 1) else (m 1, - 1))
         | INDEX_op_extu_i32_i64 \<Rightarrow> (m 1, - 1)
         | INDEX_op_andc _ \<Rightarrow> (if const2 then and_const (NOT (m 2)) else (m 1, - 1))
         | INDEX_op_sar TCG_TYPE_I32 \<Rightarrow> (if const2 then signed_drop_bit (unat (v 2 AND 31)) (m 1) else - 1, - 1)
         | INDEX_op_sar TCG_TYPE_I64 \<Rightarrow>
             (if const2 then ucast (signed_drop_bit (unat (v 2 AND 63)) (ucast (m 1) :: u64)) else - 1, - 1)
         | INDEX_op_shr TCG_TYPE_I32 \<Rightarrow> (if const2 then drop_bit (unat (v 2 AND 31)) (m 1) else - 1, - 1)
         | INDEX_op_shr TCG_TYPE_I64 \<Rightarrow>
             (if const2 then ucast (drop_bit (unat (v 2 AND 63)) (ucast (m 1) :: u64)) else - 1, - 1)
         | INDEX_op_extrl_i64_i32 \<Rightarrow> (m 1, - 1)
         | INDEX_op_extrh_i64_i32 \<Rightarrow> (ucast (drop_bit 32 (ucast (m 1) :: u64)), - 1)
         | INDEX_op_shl _ \<Rightarrow>
             (if const2 then push_bit (unat (v 2 AND of_nat (TCG_TARGET_REG_BITS - 1))) (m 1) else - 1, - 1)
         | INDEX_op_neg _ \<Rightarrow> (- (m 1 AND - m 1), - 1)
         | INDEX_op_deposit _ \<Rightarrow>
             (ucast (deposit64 (ucast (m 1)) (unat (a ! 3)) (unat (a ! 4)) (ucast (m 2))), - 1)
         | INDEX_op_or _ \<Rightarrow> (m 1 OR m 2, - 1)
         | INDEX_op_xor _ \<Rightarrow> (m 1 OR m 2, - 1)
         | INDEX_op_setcond _ \<Rightarrow> (1, - 1)
         | INDEX_op_setcond2_i32 \<Rightarrow> (1, - 1)
         | INDEX_op_movcond _ \<Rightarrow> (m 3 OR m 4, - 1)
         | INDEX_op_ld8u _ \<Rightarrow> (0xff, - 1)
         | INDEX_op_ld16u _ \<Rightarrow> (0xffff, - 1)
         | INDEX_op_ld32u_i64 \<Rightarrow> (0xffffffff, - 1)
         | INDEX_op_qemu_ld _ \<Rightarrow>
             (let mop = get_memop (a ! (op_oargs op + op_iargs op))
              in (if mop AND MO_SIGN = 0
                  then ucast (push_bit (push_bit (unat (mop AND MO_SIZE)) 8 - 1) (2 :: u64) - 1) else - 1, - 1))
         | _ \<Rightarrow> (- 1, - 1))"

text \<open>The 32-bit operations: the mask to record, the one to test against zero, and the affected bits.\<close>

definition opt_partmasks :: "opt_info \<Rightarrow> TCGOp \<Rightarrow> u32 \<times> u32 \<times> u32" where
  "opt_partmasks I op =
     (let (mk, affected) = opt_masks I op
      in if def_flags (tcg_op_defs (opc op)) AND TCG_OPF_64BIT = 0
         then (mk OR NOT 0xffffffff, mk AND 0xffffffff, affected AND 0xffffffff)
         else (mk, mk, affected))"

definition opt_known_bits :: "TCGContext \<Rightarrow> opt_info \<Rightarrow> TCGOp \<Rightarrow> (TCGOp list \<times> opt_info) option" where
  "opt_known_bits s I op =
     (let a = args op; (mk, partmask, affected) = opt_partmasks I op
      in if partmask = 0 then (let (op, I) = tcg_opt_gen_movi op (a ! 0) 0 I in Some ([op], I))
         else if affected = 0 then Some (tcg_opt_gen_mov s op (a ! 0) (a ! 1) I)
         else None)"

text \<open>\<open>op r, a, 0 \<Rightarrow> movi r, 0\<close>; \<open>op r, a, a \<Rightarrow> mov r, a\<close>; \<open>op r, a, a \<Rightarrow> movi r, 0\<close>.\<close>

definition opt_absorb :: "TCGContext \<Rightarrow> opt_info \<Rightarrow> TCGOp \<Rightarrow> (TCGOp list \<times> opt_info) option" where
  "opt_absorb s I op =
     (let a = args op;
          movi0 = (let (op, I) = tcg_opt_gen_movi op (a ! 0) 0 I in Some ([op], I));
          mov1 = Some (tcg_opt_gen_mov s op (a ! 0) (a ! 1) I);
          zero = const_is I (a ! 2) 0;
          same = temps_are_copies I (a ! 1) (a ! 2)
      in case opc op of
           INDEX_op_and _ \<Rightarrow> (if zero then movi0 else if same then mov1 else None)
         | INDEX_op_mul _ \<Rightarrow> (if zero then movi0 else None)
         | INDEX_op_muluh _ \<Rightarrow> (if zero then movi0 else None)
         | INDEX_op_mulsh _ \<Rightarrow> (if zero then movi0 else None)
         | INDEX_op_or _ \<Rightarrow> (if same then mov1 else None)
         | INDEX_op_andc _ \<Rightarrow> (if same then movi0 else None)
         | INDEX_op_sub _ \<Rightarrow> (if same then movi0 else None)
         | INDEX_op_xor _ \<Rightarrow> (if same then movi0 else None)
         | _ \<Rightarrow> None)"

section \<open>The main switch\<close>

text \<open>
  What the switch leaves: the operations before the next one to visit, and the operations to visit next,
  which is not empty only when a double-word operation has been split.
\<close>

type_synonym opt_result = "(TCGOp list \<times> TCGOp list \<times> opt_info) option"

definition opt_reset_outputs :: "u32 \<Rightarrow> TCGOp \<Rightarrow> opt_info \<Rightarrow> opt_info" where
  "opt_reset_outputs mk op I =
     fold (\<lambda>i I. let t = args op ! i; I = reset_temp t I in if i = 0 then upd_info t (tmask_update (\<lambda>_. mk)) I else I)
       [0..<op_oargs op] I"

text \<open>The label \<^verbatim>\<open>do_default\<close>.\<close>

definition opt_default :: "u32 \<Rightarrow> TCGOp \<Rightarrow> opt_info \<Rightarrow> opt_result" where
  "opt_default mk op I =
     Some ([op], [], if def_flags (tcg_op_defs (opc op)) AND TCG_OPF_BB_END \<noteq> 0 then reset_all_temps I
                     else opt_reset_outputs mk op I)"

definition emit_movi :: "TCGOp \<Rightarrow> u32 \<Rightarrow> opt_info \<Rightarrow> opt_result" where
  "emit_movi op v I = (let (op, I) = tcg_opt_gen_movi op (args op ! 0) v I in Some ([op], [], I))"

definition emit_mov :: "TCGContext \<Rightarrow> TCGOp \<Rightarrow> TCGArg \<Rightarrow> opt_info \<Rightarrow> opt_result" where
  "emit_mov s op src I = (let (ops, I) = tcg_opt_gen_mov s op (args op ! 0) src I in Some (ops, [], I))"

definition opt_unary :: "u32 \<Rightarrow> TCGOp \<Rightarrow> opt_info \<Rightarrow> opt_result" where
  "opt_unary mk op I =
     (if temp_is_const I (args op ! 1)
      then (case do_constant_folding (opc op) (val (tinfo I (args op ! 1))) 0 of
              None \<Rightarrow> None | Some tmp \<Rightarrow> emit_movi op tmp I)
      else opt_default mk op I)"

definition opt_binary :: "u32 \<Rightarrow> TCGOp \<Rightarrow> opt_info \<Rightarrow> opt_result" where
  "opt_binary mk op I =
     (if temp_is_const I (args op ! 1) \<and> temp_is_const I (args op ! 2)
      then (case do_constant_folding (opc op) (val (tinfo I (args op ! 1))) (val (tinfo I (args op ! 2))) of
              None \<Rightarrow> None | Some tmp \<Rightarrow> emit_movi op tmp I)
      else opt_default mk op I)"

definition opt_deposit :: "u32 \<Rightarrow> TCGOp \<Rightarrow> opt_info \<Rightarrow> opt_result" where
  "opt_deposit mk op I =
     (let a = args op
      in if temp_is_const I (a ! 1) \<and> temp_is_const I (a ! 2)
         then emit_movi op (ucast (deposit64 (ucast (val (tinfo I (a ! 1)))) (unat (a ! 3)) (unat (a ! 4))
                                     (ucast (val (tinfo I (a ! 2)))))) I
         else opt_default mk op I)"

definition opt_setcond :: "u32 \<Rightarrow> TCGOp \<Rightarrow> opt_info \<Rightarrow> opt_result" where
  "opt_setcond mk op I =
     (let a = args op
      in case do_constant_folding_cond I (opc op) (a ! 1) (a ! 2) (a ! 3) of
           None \<Rightarrow> None
         | Some tmp \<Rightarrow> (if tmp \<noteq> 2 then emit_movi op (of_nat tmp) I else opt_default mk op I))"

definition opt_brcond :: "u32 \<Rightarrow> TCGOp \<Rightarrow> opt_info \<Rightarrow> opt_result" where
  "opt_brcond mk op I =
     (let a = args op
      in case do_constant_folding_cond I (opc op) (a ! 0) (a ! 1) (a ! 2) of
           None \<Rightarrow> None
         | Some tmp \<Rightarrow>
             (if tmp \<noteq> 2
              then (if tmp \<noteq> 0 then Some ([op\<lparr>opc := INDEX_op_br, args := a[0 := a ! 3]\<rparr>], [], reset_all_temps I)
                    else Some ([], [], I))
              else opt_default mk op I))"

definition opt_movcond :: "TCGContext \<Rightarrow> u32 \<Rightarrow> TCGOp \<Rightarrow> opt_info \<Rightarrow> opt_result" where
  "opt_movcond s mk op I =
     (let a = args op
      in case do_constant_folding_cond I (opc op) (a ! 1) (a ! 2) (a ! 5) of
           None \<Rightarrow> None
         | Some tmp \<Rightarrow> (if tmp \<noteq> 2 then emit_mov s op (a ! (4 - tmp)) I else opt_default mk op I))"

text \<open>
  A double-word result that is constant: a \<^verbatim>\<open>movi\<close> of the high word is inserted before the operation, which
  becomes the \<^verbatim>\<open>movi\<close> of the low word. The loop goes on at \<^verbatim>\<open>op2->next\<close>, which is the operation itself.
\<close>

definition emit_movi2 :: "TCGOp \<Rightarrow> u64 \<Rightarrow> opt_info \<Rightarrow> opt_result" where
  "emit_movi2 op r I =
     (let rl = args op ! 0; rh = args op ! 1;
          op2 = \<lparr>opc = INDEX_op_movi TCG_TYPE_I32, calli = 0, callo = 0, args = [0, 0]\<rparr>;
          (op, I) = tcg_opt_gen_movi op rl (ucast r) I;
          (op2, I) = tcg_opt_gen_movi op2 rh (ucast (drop_bit 32 r)) I
      in Some ([op2], [op], I))"

definition opt_add2 :: "u32 \<Rightarrow> TCGOp \<Rightarrow> opt_info \<Rightarrow> opt_result" where
  "opt_add2 mk op I =
     (let a = args op; v = (\<lambda>n. val (tinfo I (a ! n)))
      in if temp_is_const I (a ! 2) \<and> temp_is_const I (a ! 3) \<and> temp_is_const I (a ! 4) \<and> temp_is_const I (a ! 5)
         then (let x = push_bit 32 (ucast (v 3)) OR ucast (v 2) :: u64;
                   y = push_bit 32 (ucast (v 5)) OR ucast (v 4)
               in emit_movi2 op (if opc op = INDEX_op_add2 TCG_TYPE_I32 then x + y else x - y) I)
         else opt_default mk op I)"

definition opt_mulu2 :: "u32 \<Rightarrow> TCGOp \<Rightarrow> opt_info \<Rightarrow> opt_result" where
  "opt_mulu2 mk op I =
     (let a = args op; v = (\<lambda>n. val (tinfo I (a ! n)))
      in if temp_is_const I (a ! 2) \<and> temp_is_const I (a ! 3)
         then emit_movi2 op (ucast (v 2) * ucast (v 3)) I
         else opt_default mk op I)"

text \<open>A double-word comparison; the labels of the source are the local names.\<close>

definition opt_brcond2 :: "u32 \<Rightarrow> TCGOp \<Rightarrow> opt_info \<Rightarrow> opt_result" where
  "opt_brcond2 mk op I =
     (let a = args op;
          do_brcond_true = Some ([op\<lparr>opc := INDEX_op_br, args := a[0 := a ! 5]\<rparr>], [], reset_all_temps I);
          do_brcond_false = Some ([], [], I);
          do_brcond_high = Some ([op\<lparr>opc := INDEX_op_brcond TCG_TYPE_I32,
                                      args := a[0 := a ! 1, 1 := a ! 3, 2 := a ! 4, 3 := a ! 5]\<rparr>], [], reset_all_temps I);
          do_brcond_low = Some ([op\<lparr>opc := INDEX_op_brcond TCG_TYPE_I32,
                                     args := a[1 := a ! 2, 2 := a ! 4, 3 := a ! 5]\<rparr>], [], reset_all_temps I);
          do_default = opt_default mk op I;
          fold_cond = do_constant_folding_cond I (INDEX_op_brcond TCG_TYPE_I32)
      in case do_constant_folding_cond2 I (a ! 0, a ! 1) (a ! 2, a ! 3) (a ! 4) of
           None \<Rightarrow> None
         | Some tmp \<Rightarrow>
             if tmp \<noteq> 2 then (if tmp \<noteq> 0 then do_brcond_true else do_brcond_false)
             else if (a ! 4 = TCG_COND_LT \<or> a ! 4 = TCG_COND_GE) \<and> const_is I (a ! 2) 0 \<and> const_is I (a ! 3) 0
             then do_brcond_high
             else if a ! 4 = TCG_COND_EQ
             then (case fold_cond (a ! 0) (a ! 2) TCG_COND_EQ of
                     None \<Rightarrow> None
                   | Some tmp \<Rightarrow>
                       if tmp = 0 then do_brcond_false else if tmp = 1 then do_brcond_high
                       else (case fold_cond (a ! 1) (a ! 3) TCG_COND_EQ of
                               None \<Rightarrow> None
                             | Some tmp \<Rightarrow> if tmp = 0 then do_brcond_false else if tmp \<noteq> 1 then do_default
                                           else do_brcond_low))
             else if a ! 4 = TCG_COND_NE
             then (case fold_cond (a ! 0) (a ! 2) TCG_COND_NE of
                     None \<Rightarrow> None
                   | Some tmp \<Rightarrow>
                       if tmp = 0 then do_brcond_high else if tmp = 1 then do_brcond_true
                       else (case fold_cond (a ! 1) (a ! 3) TCG_COND_NE of
                               None \<Rightarrow> None
                             | Some tmp \<Rightarrow> if tmp = 0 then do_brcond_low else if tmp = 1 then do_brcond_true
                                           else do_default))
             else do_default)"

definition opt_setcond2 :: "u32 \<Rightarrow> TCGOp \<Rightarrow> opt_info \<Rightarrow> opt_result" where
  "opt_setcond2 mk op I =
     (let a = args op;
          do_setcond_const = (\<lambda>tmp. emit_movi op (of_nat tmp) I);
          I1 = upd_info (a ! 0) (tmask_update (\<lambda>_. 1)) (reset_temp (a ! 0) I);
          do_setcond_high = Some ([op\<lparr>opc := INDEX_op_setcond TCG_TYPE_I32,
                                       args := a[1 := a ! 2, 2 := a ! 4, 3 := a ! 5]\<rparr>], [], I1);
          do_setcond_low = Some ([op\<lparr>opc := INDEX_op_setcond TCG_TYPE_I32,
                                      args := a[2 := a ! 3, 3 := a ! 5]\<rparr>], [], I1);
          do_default = opt_default mk op I;
          fold_cond = do_constant_folding_cond I (INDEX_op_setcond TCG_TYPE_I32)
      in case do_constant_folding_cond2 I (a ! 1, a ! 2) (a ! 3, a ! 4) (a ! 5) of
           None \<Rightarrow> None
         | Some tmp \<Rightarrow>
             if tmp \<noteq> 2 then do_setcond_const tmp
             else if (a ! 5 = TCG_COND_LT \<or> a ! 5 = TCG_COND_GE) \<and> const_is I (a ! 3) 0 \<and> const_is I (a ! 4) 0
             then do_setcond_high
             else if a ! 5 = TCG_COND_EQ
             then (case fold_cond (a ! 1) (a ! 3) TCG_COND_EQ of
                     None \<Rightarrow> None
                   | Some tmp \<Rightarrow>
                       if tmp = 0 then do_setcond_const tmp else if tmp = 1 then do_setcond_high
                       else (case fold_cond (a ! 2) (a ! 4) TCG_COND_EQ of
                               None \<Rightarrow> None
                             | Some tmp \<Rightarrow> if tmp = 0 then do_setcond_high else if tmp \<noteq> 1 then do_default
                                           else do_setcond_low))
             else if a ! 5 = TCG_COND_NE
             then (case fold_cond (a ! 1) (a ! 3) TCG_COND_NE of
                     None \<Rightarrow> None
                   | Some tmp \<Rightarrow>
                       if tmp = 0 then do_setcond_high else if tmp = 1 then do_setcond_const tmp
                       else (case fold_cond (a ! 2) (a ! 4) TCG_COND_NE of
                               None \<Rightarrow> None
                             | Some tmp \<Rightarrow> if tmp = 0 then do_setcond_low else if tmp = 1 then do_setcond_const tmp
                                           else do_default))
             else do_default)"

text \<open>A call forgets the globals it may write, then its outputs.\<close>

definition opt_call :: "TCGContext \<Rightarrow> u32 \<Rightarrow> TCGOp \<Rightarrow> opt_info \<Rightarrow> opt_result" where
  "opt_call s mk op I =
     (let flags = args op ! (op_oargs op + op_iargs op + 1);
          I = (if flags AND (TCG_CALL_NO_READ_GLOBALS OR TCG_CALL_NO_WRITE_GLOBALS) = 0
               then fold (\<lambda>i I. if temps_used I (of_nat i) then reset_temp (of_nat i) I else I) [0..<unat (nb_globals s)] I
               else I)
      in Some ([op], [], opt_reset_outputs mk op I))"

definition opt_fold :: "TCGContext \<Rightarrow> u32 \<Rightarrow> TCGOp \<Rightarrow> opt_info \<Rightarrow> opt_result" where
  "opt_fold s mk op I =
     (let unary = opt_unary mk op I; binary = opt_binary mk op I
      in case opc op of
           INDEX_op_mov _ \<Rightarrow> emit_mov s op (args op ! 1) I
         | INDEX_op_movi _ \<Rightarrow> emit_movi op (args op ! 1) I
         | INDEX_op_not _ \<Rightarrow> unary
         | INDEX_op_neg _ \<Rightarrow> unary
         | INDEX_op_ext8s _ \<Rightarrow> unary
         | INDEX_op_ext8u _ \<Rightarrow> unary
         | INDEX_op_ext16s _ \<Rightarrow> unary
         | INDEX_op_ext16u _ \<Rightarrow> unary
         | INDEX_op_ext32s_i64 \<Rightarrow> unary
         | INDEX_op_ext32u_i64 \<Rightarrow> unary
         | INDEX_op_ext_i32_i64 \<Rightarrow> unary
         | INDEX_op_extu_i32_i64 \<Rightarrow> unary
         | INDEX_op_extrl_i64_i32 \<Rightarrow> unary
         | INDEX_op_extrh_i64_i32 \<Rightarrow> unary
         | INDEX_op_add _ \<Rightarrow> binary
         | INDEX_op_sub _ \<Rightarrow> binary
         | INDEX_op_mul _ \<Rightarrow> binary
         | INDEX_op_or _ \<Rightarrow> binary
         | INDEX_op_and _ \<Rightarrow> binary
         | INDEX_op_xor _ \<Rightarrow> binary
         | INDEX_op_shl _ \<Rightarrow> binary
         | INDEX_op_shr _ \<Rightarrow> binary
         | INDEX_op_sar _ \<Rightarrow> binary
         | INDEX_op_rotl _ \<Rightarrow> binary
         | INDEX_op_rotr _ \<Rightarrow> binary
         | INDEX_op_andc _ \<Rightarrow> binary
         | INDEX_op_orc _ \<Rightarrow> binary
         | INDEX_op_eqv _ \<Rightarrow> binary
         | INDEX_op_nand _ \<Rightarrow> binary
         | INDEX_op_nor _ \<Rightarrow> binary
         | INDEX_op_muluh _ \<Rightarrow> binary
         | INDEX_op_mulsh _ \<Rightarrow> binary
         | INDEX_op_div _ \<Rightarrow> binary
         | INDEX_op_divu _ \<Rightarrow> binary
         | INDEX_op_rem _ \<Rightarrow> binary
         | INDEX_op_remu _ \<Rightarrow> binary
         | INDEX_op_deposit _ \<Rightarrow> opt_deposit mk op I
         | INDEX_op_setcond _ \<Rightarrow> opt_setcond mk op I
         | INDEX_op_brcond _ \<Rightarrow> opt_brcond mk op I
         | INDEX_op_movcond _ \<Rightarrow> opt_movcond s mk op I
         | INDEX_op_add2 TCG_TYPE_I32 \<Rightarrow> opt_add2 mk op I
         | INDEX_op_sub2 TCG_TYPE_I32 \<Rightarrow> opt_add2 mk op I
         | INDEX_op_mulu2 TCG_TYPE_I32 \<Rightarrow> opt_mulu2 mk op I
         | INDEX_op_brcond2_i32 \<Rightarrow> opt_brcond2 mk op I
         | INDEX_op_setcond2_i32 \<Rightarrow> opt_setcond2 mk op I
         | INDEX_op_call \<Rightarrow> opt_call s mk op I
         | _ \<Rightarrow> opt_default mk op I)"

text \<open>One iteration: the simplifications in order, each of which ends the iteration when it applies.\<close>

definition opt_simplify :: "TCGContext \<Rightarrow> opt_info \<Rightarrow> TCGOp \<Rightarrow> opt_result" where
  "opt_simplify s I op =
     (case opt_zero_neg_not I op of
        Some (ops, I) \<Rightarrow> Some (ops, [], I)
      | None \<Rightarrow> (case opt_mov_const s I op of
          Some (ops, I) \<Rightarrow> Some (ops, [], I)
        | None \<Rightarrow> (case opt_known_bits s I op of
            Some (ops, I) \<Rightarrow> Some (ops, [], I)
          | None \<Rightarrow> (case opt_absorb s I op of
              Some (ops, I) \<Rightarrow> Some (ops, [], I)
            | None \<Rightarrow> opt_fold s (fst (opt_partmasks I op)) op I))))"

definition opt_op :: "TCGContext \<Rightarrow> opt_info \<Rightarrow> TCGOp \<Rightarrow> opt_result" where
  "opt_op s I op =
     (let I = opt_init_args op I; op = opt_commute I (opt_copy_prop s I op)
      in opt_simplify s I op)"

text \<open>
  An operation visited again is a \<^verbatim>\<open>movi\<close>, which is never visited a third time: the loop ends.
\<close>

definition op_weight :: "TCGOp \<Rightarrow> nat" where
  "op_weight op = (case opc op of INDEX_op_add2 _ \<Rightarrow> 2 | INDEX_op_sub2 _ \<Rightarrow> 2 | INDEX_op_mulu2 _ \<Rightarrow> 2 | _ \<Rightarrow> 1)"

lemma opt_commute_opc [simp]: "opc (opt_commute I op) = opc op" "calli (opt_commute I op) = calli op"
  "callo (opt_commute I op) = callo op"
  by (simp_all add: opt_commute_def Let_def)

lemma opt_copy_prop_opc [simp]: "opc (opt_copy_prop s I op) = opc op" "calli (opt_copy_prop s I op) = calli op"
  "callo (opt_copy_prop s I op) = callo op"
  by (simp_all add: opt_copy_prop_def Let_def)

text \<open>The results that end the iteration.\<close>

definition done_with :: "opt_result \<Rightarrow> bool" where
  "done_with r \<longleftrightarrow> (case r of None \<Rightarrow> True | Some (ops, again, I) \<Rightarrow> again = [])"

lemma done_with_simps [simp]: "done_with None" "done_with (Some (ops, [], I))"
  by (simp_all add: done_with_def)

lemma done_with_emit [simp]: "done_with (emit_movi op v I)" "done_with (emit_mov s op src I)" "done_with (opt_default mk op I)"
  by (simp_all add: emit_movi_def emit_mov_def opt_default_def split: prod.split)

lemma done_with_unary [simp]: "done_with (opt_unary mk op I)" "done_with (opt_binary mk op I)" "done_with (opt_deposit mk op I)"
  by (simp_all add: opt_unary_def opt_binary_def opt_deposit_def Let_def split: option.split)

lemma done_with_cond [simp]: "done_with (opt_setcond mk op I)" "done_with (opt_brcond mk op I)" "done_with (opt_movcond s mk op I)"
  by (simp_all add: opt_setcond_def opt_brcond_def opt_movcond_def Let_def split: option.split)

lemma done_with_cond2 [simp]: "done_with (opt_brcond2 mk op I)" "done_with (opt_setcond2 mk op I)" "done_with (opt_call s mk op I)"
  unfolding opt_brcond2_def opt_setcond2_def opt_call_def Let_def by (simp_all split: option.split)

definition splits_word :: "TCGOpcode \<Rightarrow> bool" where
  "splits_word oc \<longleftrightarrow> oc = INDEX_op_add2 TCG_TYPE_I32 \<or> oc = INDEX_op_sub2 TCG_TYPE_I32 \<or> oc = INDEX_op_mulu2 TCG_TYPE_I32"

lemma done_with_fold: "\<not> splits_word (opc op) \<Longrightarrow> done_with (opt_fold s mk op I)"
  unfolding opt_fold_def Let_def splits_word_def by (cases "opc op") (simp_all split: TCGType.split)

lemma opt_simplify_done:
  "opt_simplify s I op = Some (ops, again, I') \<Longrightarrow> \<not> splits_word (opc op) \<Longrightarrow> again = []"
  using done_with_fold[of op s "fst (opt_partmasks I op)" I]
  by (auto simp: opt_simplify_def done_with_def split: option.splits)

lemma movi2_again: "emit_movi2 op r I = Some (ops, again, I') \<Longrightarrow> (\<exists>op'. again = [op'] \<and> op_weight op' = 1)"
  by (auto simp: emit_movi2_def tcg_opt_gen_movi_def op_to_movi_def op_weight_def Let_def)

lemma fold_again:
  "opt_fold s mk op I = Some (ops, again, I') \<Longrightarrow> splits_word (opc op) \<Longrightarrow>
   again = [] \<or> (\<exists>op'. again = [op'] \<and> op_weight op' = 1)"
  by (auto simp: splits_word_def opt_fold_def opt_add2_def opt_mulu2_def opt_default_def Let_def
      dest!: movi2_again split: if_splits)

lemma simplify_again:
  "opt_simplify s I op = Some (ops, again, I') \<Longrightarrow> splits_word (opc op) \<Longrightarrow>
   again = [] \<or> (\<exists>op'. again = [op'] \<and> op_weight op' = 1)"
  using fold_again[of s "fst (opt_partmasks I op)" op I ops again I']
  by (auto simp: opt_simplify_def split: option.splits)

lemma opt_op_weight: "opt_op s I op = Some (ops, again, I') \<Longrightarrow> sum_list (map op_weight again) < op_weight op"
proof -
  assume "opt_op s I op = Some (ops, again, I')"
  then obtain J op1 where e: "opt_simplify s J op1 = Some (ops, again, I')" and o1: "opc op1 = opc op"
    by (auto simp: opt_op_def Let_def)
  show ?thesis
  proof (cases "splits_word (opc op)")
    case False
    then show ?thesis using opt_simplify_done[OF e] o1 by (simp add: op_weight_def split: TCGOpcode.split)
  next
    case True
    then have "op_weight op = 2" by (auto simp: splits_word_def op_weight_def)
    moreover have "sum_list (map op_weight again) \<le> 1"
      using simplify_again[OF e] True o1 by auto
    ultimately show ?thesis by simp
  qed
qed

section \<open>The pass\<close>

function opt_loop :: "TCGContext \<Rightarrow> opt_info \<Rightarrow> TCGOp list \<Rightarrow> TCGOp list option" where
  "opt_loop s I [] = Some []"
| "opt_loop s I (op # ops) = (case opt_op s I op of
     None \<Rightarrow> None
   | Some (before, again, I') \<Rightarrow> map_option (\<lambda>out. before @ out) (opt_loop s I' (again @ ops)))"
  by pat_completeness auto
termination
  by (relation "measure (\<lambda>(s, I, ops). sum_list (map op_weight ops))") (auto dest: opt_op_weight)

text \<open>\<^verbatim>\<open>temps\<close> keeps what an earlier block left in it; only the activated entries are read.\<close>

definition tcg_optimize :: "TCGContext \<Rightarrow> (TCGArg \<Rightarrow> tcg_temp_info) \<Rightarrow> TCGOp list \<Rightarrow> TCGOp list option" where
  "tcg_optimize s stale ops = opt_loop s (reset_all_temps \<lparr>tinfo = stale, temps_used = (\<lambda>_. False)\<rparr>) ops"

end
