(* ===== verification/Tcg_Copies.thy ===== *)
theory Tcg_Copies
  imports Tcg_Optimize
begin

text \<open>
  The invariant of the optimiser's table: the activated temporaries form circular doubly linked
  lists, and what the table says of a temporary is true of its value. Every update of the table keeps it,
  and the loops over a list of copies end within the bound used by the model and decide whether two temporaries
  are on the same list.
\<close>

section \<open>The invariant\<close>

definition linked :: "opt_info \<Rightarrow> bool" where
  "linked I \<longleftrightarrow> (\<forall>t. temps_used I t \<longrightarrow>
     temps_used I (next_copy (tinfo I t)) \<and> temps_used I (prev_copy (tinfo I t)) \<and>
     prev_copy (tinfo I (next_copy (tinfo I t))) = t \<and> next_copy (tinfo I (prev_copy (tinfo I t))) = t)"

definition within :: "'a::len word \<Rightarrow> 'a word \<Rightarrow> bool" where "within v m \<longleftrightarrow> v AND NOT m = 0"

definition known :: "opt_info \<Rightarrow> (TCGArg \<Rightarrow> u32) \<Rightarrow> bool" where
  "known I T \<longleftrightarrow> (\<forall>t. temps_used I t \<longrightarrow>
     (is_const (tinfo I t) \<longrightarrow> T t = val (tinfo I t) \<and> tmask (tinfo I t) = val (tinfo I t)) \<and> within (T t) (tmask (tinfo I t)) \<and>
     T (next_copy (tinfo I t)) = T t)"

definition in_range :: "TCGContext \<Rightarrow> opt_info \<Rightarrow> bool" where
  "in_range s I \<longleftrightarrow> (\<forall>t. temps_used I t \<longrightarrow> t < nb_temps s)"

definition valid :: "TCGContext \<Rightarrow> opt_info \<Rightarrow> (TCGArg \<Rightarrow> u32) \<Rightarrow> bool" where
  "valid s I T \<longleftrightarrow> linked I \<and> in_range s I \<and> known I T"

lemma within_iff: "within v m \<longleftrightarrow> (\<forall>n. bit v n \<longrightarrow> bit m n)"
  unfolding within_def by (auto simp: bit_eq_iff bit_simps dest: bit_imp_le_length)

lemma within_refl [simp]: "within v v" and within_all [simp]: "within v (- 1)" and within_zero [simp]: "within v 0 \<longleftrightarrow> v = 0"
  by (simp_all add: within_def)

section \<open>Forgetting a temporary\<close>

lemma upd_info_sel [simp]:
  "tinfo (upd_info t f I) u = (if u = t then f (tinfo I t) else tinfo I u)" "temps_used (upd_info t f I) = temps_used I"
  by (simp_all add: upd_info_def)

lemma reset_temp_used [simp]: "temps_used (reset_temp t I) = temps_used I"
  by (simp add: reset_temp_def Let_def)

lemma reset_temp_sel:
  "next_copy (tinfo (reset_temp t I) u) =
     (if u = t then t else if u = prev_copy (tinfo I t) then next_copy (tinfo I t) else next_copy (tinfo I u))"
  "prev_copy (tinfo (reset_temp t I) u) =
     (if u = t then t else if u = next_copy (tinfo I t) then prev_copy (tinfo I t) else prev_copy (tinfo I u))"
  "is_const (tinfo (reset_temp t I) u) \<longleftrightarrow> u \<noteq> t \<and> is_const (tinfo I u)"
  "tmask (tinfo (reset_temp t I) u) = (if u = t then - 1 else tmask (tinfo I u))"
  "val (tinfo (reset_temp t I) u) = val (tinfo I u)"
  by (auto simp: reset_temp_def Let_def)

lemma linkedD:
  assumes "linked I" "temps_used I t"
  shows "temps_used I (next_copy (tinfo I t))" "temps_used I (prev_copy (tinfo I t))"
    "prev_copy (tinfo I (next_copy (tinfo I t))) = t" "next_copy (tinfo I (prev_copy (tinfo I t))) = t"
  using assms by (auto simp: linked_def)

lemma linked_reset:
  assumes l: "linked I" and u: "temps_used I t"
  shows "linked (reset_temp t I)"
proof -
  have alone: "next_copy (tinfo I t) = t \<longleftrightarrow> prev_copy (tinfo I t) = t" using linkedD(3,4)[OF l u] by auto
  have inj: "next_copy (tinfo I x) = t \<longleftrightarrow> x = prev_copy (tinfo I t)" "prev_copy (tinfo I x) = t \<longleftrightarrow> x = next_copy (tinfo I t)"
    "next_copy (tinfo I x) = next_copy (tinfo I t) \<longleftrightarrow> x = t" "prev_copy (tinfo I x) = prev_copy (tinfo I t) \<longleftrightarrow> x = t"
    if "temps_used I x" for x
    using linkedD[OF l that] linkedD[OF l u] by metis+
  show ?thesis
    unfolding linked_def reset_temp_used
  proof (intro allI impI)
    fix x
    assume x: "temps_used I x"
    let ?J = "reset_temp t I" and ?n = "next_copy (tinfo I x)" and ?p = "prev_copy (tinfo I x)"
    note links = linkedD[OF l x] linkedD[OF l u] inj[OF x] inj[OF linkedD(1)[OF l x]] inj[OF linkedD(2)[OF l x]]
    have "temps_used I (next_copy (tinfo ?J x))" "temps_used I (prev_copy (tinfo ?J x))"
      using links u by (simp_all add: reset_temp_sel)
    moreover have "prev_copy (tinfo ?J (next_copy (tinfo ?J x))) = x"
      using links alone by (cases "x = t"; cases "x = prev_copy (tinfo I t)") (auto simp: reset_temp_sel)
    moreover have "next_copy (tinfo ?J (prev_copy (tinfo ?J x))) = x"
      using links alone by (cases "x = t"; cases "x = next_copy (tinfo I t)") (auto simp: reset_temp_sel)
    ultimately show "temps_used I (next_copy (tinfo ?J x)) \<and> temps_used I (prev_copy (tinfo ?J x)) \<and>
      prev_copy (tinfo ?J (next_copy (tinfo ?J x))) = x \<and> next_copy (tinfo ?J (prev_copy (tinfo ?J x))) = x" by blast
  qed
qed

lemma known_next: "known I T \<Longrightarrow> temps_used I t \<Longrightarrow> T (next_copy (tinfo I t)) = T t"
  by (simp add: known_def)

lemma known_prev: "linked I \<Longrightarrow> known I T \<Longrightarrow> temps_used I t \<Longrightarrow> T (prev_copy (tinfo I t)) = T t"
  using known_next[of I T "prev_copy (tinfo I t)"] linkedD[of I t] by simp

lemma known_reset:
  assumes "linked I" "known I T" "temps_used I t"
  shows "known (reset_temp t I) (T(t := v))"
  unfolding known_def
proof (intro allI impI)
  fix u
  assume u: "temps_used (reset_temp t I) u"
  have k: "(is_const (tinfo I u) \<longrightarrow> T u = val (tinfo I u) \<and> tmask (tinfo I u) = val (tinfo I u)) \<and> within (T u) (tmask (tinfo I u)) \<and> T (next_copy (tinfo I u)) = T u"
    using assms(2) u by (simp add: known_def)
  have "next_copy (tinfo I u) \<noteq> t" if "u \<noteq> prev_copy (tinfo I t)"
    using linkedD(3)[OF assms(1), of u] u that by auto
  moreover have "next_copy (tinfo I t) \<noteq> t" if "u = prev_copy (tinfo I t)" "u \<noteq> t"
    using linkedD(3)[OF assms(1,3)] that by auto
  ultimately show "(is_const (tinfo (reset_temp t I) u) \<longrightarrow>
        (T(t := v)) u = val (tinfo (reset_temp t I) u) \<and> tmask (tinfo (reset_temp t I) u) = val (tinfo (reset_temp t I) u)) \<and>
      within ((T(t := v)) u) (tmask (tinfo (reset_temp t I) u)) \<and> (T(t := v)) (next_copy (tinfo (reset_temp t I) u)) = (T(t := v)) u"
    using k known_prev[OF assms] known_next[OF assms(2,3)] by (auto simp: reset_temp_sel)
qed

lemma valid_reset: "valid s I T \<Longrightarrow> temps_used I t \<Longrightarrow> valid s (reset_temp t I) (T(t := v))"
  by (simp add: valid_def in_range_def linked_reset known_reset)

text \<open>Recording something true of a temporary.\<close>

lemma valid_record:
  assumes "valid s I T" and "\<And>i. next_copy (f i) = next_copy i" "\<And>i. prev_copy (f i) = prev_copy i"
    and "is_const (f (tinfo I t)) \<Longrightarrow> T t = val (f (tinfo I t)) \<and> tmask (f (tinfo I t)) = val (f (tinfo I t))" "within (T t) (tmask (f (tinfo I t)))"
  shows "valid s (upd_info t f I) T"
  using assms by (auto simp: valid_def linked_def in_range_def known_def)

lemma valid_reset_mask:
  "valid s I T \<Longrightarrow> temps_used I t \<Longrightarrow> within v m \<Longrightarrow>
   valid s (upd_info t (tmask_update (\<lambda>_. m)) (reset_temp t I)) (T(t := v))"
  by (rule valid_record) (auto simp: valid_reset reset_temp_sel)

lemma valid_all: "valid s (reset_all_temps I) T"
  by (simp add: valid_def linked_def in_range_def known_def reset_all_temps_def)

section \<open>Activating temporaries\<close>

lemma init_temp_info_used [simp]: "temps_used (init_temp_info t I) u \<longleftrightarrow> u = t \<or> temps_used I u"
  by (auto simp: init_temp_info_def)

lemma valid_init: "valid s I T \<Longrightarrow> t < nb_temps s \<Longrightarrow> valid s (init_temp_info t I) T"
  by (auto simp: valid_def linked_def in_range_def known_def init_temp_info_def)

lemma valid_init_fold:
  "valid s I T \<Longrightarrow> \<forall>t \<in> set ts. t < nb_temps s \<Longrightarrow> \<forall>t \<in> set ts. \<not> P t \<Longrightarrow>
   valid s (fold (\<lambda>t I. if P t then I else init_temp_info t I) ts I) T"
  by (induction ts arbitrary: I) (auto simp: valid_init)

lemma used_init_fold:
  "\<forall>t \<in> set ts. \<not> P t \<Longrightarrow>
   temps_used (fold (\<lambda>t I. if P t then I else init_temp_info t I) ts I) u \<longleftrightarrow> u \<in> set ts \<or> temps_used I u"
  by (induction ts arbitrary: I) auto

section \<open>Constants and copies\<close>

lemma valid_movi:
  "valid s I T \<Longrightarrow> temps_used I t \<Longrightarrow> tcg_opt_gen_movi op t v I = (op', I') \<Longrightarrow> valid s I' (T(t := v))"
  by (auto simp: tcg_opt_gen_movi_def TCG_TARGET_REG_BITS_def Let_def reset_temp_sel intro!: valid_record valid_reset)

text \<open>Putting \<open>d\<close> after \<open>t\<close> on its list.\<close>

definition insert_copy :: "TCGArg \<Rightarrow> TCGArg \<Rightarrow> opt_info \<Rightarrow> opt_info" where
  "insert_copy d t I =
     (let I = upd_info d (next_copy_update (\<lambda>_. next_copy (tinfo I t))) I;
          I = upd_info d (prev_copy_update (\<lambda>_. t)) I;
          I = upd_info (next_copy (tinfo I d)) (prev_copy_update (\<lambda>_. d)) I
      in upd_info t (next_copy_update (\<lambda>_. d)) I)"

lemma insert_copy_used [simp]: "temps_used (insert_copy d t I) = temps_used I"
  by (simp add: insert_copy_def Let_def)

lemma insert_copy_sel:
  assumes "d \<noteq> t" "next_copy (tinfo I t) \<noteq> d"
  shows "next_copy (tinfo (insert_copy d t I) u) = (if u = t then d else if u = d then next_copy (tinfo I t) else next_copy (tinfo I u))"
    "prev_copy (tinfo (insert_copy d t I) u) =
       (if u = next_copy (tinfo I t) then d else if u = d then t else prev_copy (tinfo I u))"
    "is_const (tinfo (insert_copy d t I) u) = is_const (tinfo I u)" "val (tinfo (insert_copy d t I) u) = val (tinfo I u)"
    "tmask (tinfo (insert_copy d t I) u) = tmask (tinfo I u)"
  using assms by (auto simp: insert_copy_def Let_def)

lemma valid_insert:
  assumes v: "valid s I T" and u: "temps_used I t" "temps_used I d" and e: "T d = T t" and n: "d \<noteq> t"
    and alone: "next_copy (tinfo I d) = d" "prev_copy (tinfo I d) = d"
  shows "valid s (insert_copy d t I) T"
proof -
  have l: "linked I" and k: "known I T" using v by (simp_all add: valid_def)
  have m: "next_copy (tinfo I t) \<noteq> d" using linkedD(3)[OF l u(1)] alone n by auto
  have other: "next_copy (tinfo I x) \<noteq> d" "prev_copy (tinfo I x) \<noteq> d" if "temps_used I x" "x \<noteq> d" for x
    using linkedD(3,4)[OF l that(1)] alone that(2) by auto
  have inj: "next_copy (tinfo I x) = next_copy (tinfo I t) \<longleftrightarrow> x = t" if "temps_used I x" for x
    using linkedD(3)[OF l that] linkedD(3)[OF l u(1)] by metis
  have "linked (insert_copy d t I)"
    unfolding linked_def insert_copy_used
  proof (intro allI impI)
    fix x
    assume x: "temps_used I x"
    let ?J = "insert_copy d t I"
    have "temps_used I (next_copy (tinfo ?J x))" "temps_used I (prev_copy (tinfo ?J x))"
      using linkedD[OF l x] linkedD[OF l u(1)] u by (simp_all add: insert_copy_sel[OF n m])
    moreover have "prev_copy (tinfo ?J (next_copy (tinfo ?J x))) = x"
    proof (cases "x = t \<or> x = d")
      case True
      then show ?thesis using n m by (auto simp: insert_copy_sel[OF n m])
    next
      case False
      then show ?thesis using inj[OF x] other[OF x] linkedD(3)[OF l x] by (simp add: insert_copy_sel[OF n m])
    qed
    moreover have "next_copy (tinfo ?J (prev_copy (tinfo ?J x))) = x"
    proof (cases "x = next_copy (tinfo I t) \<or> x = d")
      case True
      then show ?thesis using n m by (auto simp: insert_copy_sel[OF n m])
    next
      case False
      then have "prev_copy (tinfo I x) \<noteq> t" using linkedD(4)[OF l x] by metis
      then show ?thesis using False other[OF x] linkedD(4)[OF l x] by (simp add: insert_copy_sel[OF n m])
    qed
    ultimately show "temps_used I (next_copy (tinfo ?J x)) \<and> temps_used I (prev_copy (tinfo ?J x)) \<and>
      prev_copy (tinfo ?J (next_copy (tinfo ?J x))) = x \<and> next_copy (tinfo ?J (prev_copy (tinfo ?J x))) = x" by blast
  qed
  moreover have "known (insert_copy d t I) T"
    unfolding known_def insert_copy_sel[OF n m] insert_copy_used using k u e by (auto simp: known_def)
  ultimately show ?thesis using v by (simp add: valid_def in_range_def)
qed

lemma gen_mov_eq:
  "tcg_opt_gen_mov s op d t I = (if temps_are_copies I d t then ([], I) else
     ([op\<lparr>opc := op_to_mov (opc op), args := (args op)[0 := d, 1 := t]\<rparr>],
      let J = upd_info d (tmask_update (\<lambda>_. tmask (tinfo (reset_temp d I) t))) (reset_temp d I)
      in if type (temps s t) = type (temps s d)
         then let J = insert_copy d t J
              in upd_info d (\<lambda>i. i\<lparr>is_const := is_const (tinfo J t), val := val (tinfo J t)\<rparr>) J
         else J))"
  by (simp add: tcg_opt_gen_mov_def insert_copy_def TCG_TARGET_REG_BITS_def Let_def)

lemma valid_mov:
  assumes v: "valid s I T" and u: "temps_used I t" "temps_used I d" and n: "d \<noteq> t"
    and g: "\<not> temps_are_copies I d t" "tcg_opt_gen_mov s op d t I = (ops, I')"
  shows "valid s I' (T(d := T t))"
proof -
  let ?T = "T(d := T t)"
  define J where "J = upd_info d (tmask_update (\<lambda>_. tmask (tinfo (reset_temp d I) t))) (reset_temp d I)"
  have w: "within (T t) (tmask (tinfo I t))" using v u by (simp add: valid_def known_def)
  have J: "valid s J ?T" unfolding J_def using v u n w by (intro valid_reset_mask) (simp_all add: reset_temp_sel)
  have K: "valid s (insert_copy d t J) ?T"
    using J u n by (intro valid_insert) (simp_all add: J_def reset_temp_sel)
  have "known (insert_copy d t J) ?T" using K by (simp add: valid_def)
  then have "is_const (tinfo (insert_copy d t J) t) \<Longrightarrow>
      ?T t = val (tinfo (insert_copy d t J) t) \<and> tmask (tinfo (insert_copy d t J) t) = val (tinfo (insert_copy d t J) t)"
    "within (?T d) (tmask (tinfo (insert_copy d t J) d))"
    using u by (simp_all add: known_def J_def del: fun_upd_apply)
  moreover have "tmask (tinfo (insert_copy d t J) d) = tmask (tinfo (insert_copy d t J) t)"
    using n by (simp add: insert_copy_def J_def Let_def)
  ultimately have "valid s (upd_info d (\<lambda>i. i\<lparr>is_const := is_const (tinfo (insert_copy d t J) t),
      val := val (tinfo (insert_copy d t J) t)\<rparr>) (insert_copy d t J)) ?T"
    using n by (intro valid_record[OF K]) simp_all
  then show ?thesis using g J by (auto simp: gen_mov_eq J_def[symmetric] Let_def split: if_splits)
qed

section \<open>Walking over the copies\<close>

abbreviation nextc :: "opt_info \<Rightarrow> TCGArg \<Rightarrow> TCGArg" where "nextc I t \<equiv> next_copy (tinfo I t)"

lemmas next_swap = funpow_swap1[of "\<lambda>t. next_copy (tinfo I t)" for I]
lemmas prev_swap = funpow_swap1[of "\<lambda>t. prev_copy (tinfo I t)" for I]

lemma used_iter: "linked I \<Longrightarrow> temps_used I t \<Longrightarrow> temps_used I ((nextc I ^^ k) t)"
  by (induction k) (auto simp: linkedD)

lemma known_iter: "linked I \<Longrightarrow> known I T \<Longrightarrow> temps_used I t \<Longrightarrow> T ((nextc I ^^ k) t) = T t"
  by (induction k) (auto simp: known_next used_iter)

lemma prev_iter: "linked I \<Longrightarrow> temps_used I t \<Longrightarrow> ((\<lambda>u. prev_copy (tinfo I u)) ^^ k) ((nextc I ^^ k) t) = t"
proof (induction k)
  case (Suc k)
  let ?p = "\<lambda>u. prev_copy (tinfo I u)"
  have "(?p ^^ Suc k) ((nextc I ^^ Suc k) t) = (?p ^^ k) (?p (nextc I ((nextc I ^^ k) t)))" by (simp add: prev_swap)
  then show ?case using Suc by (simp add: linkedD used_iter)
qed simp

text \<open>The list of an activated temporary comes back to it after at most as many steps as there are temporaries.\<close>

lemma returns:
  assumes l: "linked I" and u: "temps_used I t" and b: "finite {t. temps_used I t}" "card {t. temps_used I t} \<le> n"
  shows "\<exists>k. 0 < k \<and> k \<le> n \<and> (nextc I ^^ k) t = t"
proof -
  let ?f = "\<lambda>k. (nextc I ^^ k) t"
  have "card (?f ` {0..n}) \<le> n"
    using card_mono[OF b(1), of "?f ` {0..n}"] used_iter[OF l u] b(2) by fastforce
  then have "\<not> inj_on ?f {0..n}" using card_image[of ?f "{0..n}"] by auto
  then obtain i j where "i \<le> n" "j \<le> n" "i \<noteq> j" "?f i = ?f j" by (auto simp: inj_on_def)
  then obtain i j where ij: "i < j" "j \<le> n" "?f i = ?f j" by (metis linorder_neqE_nat)
  have "?f (i + (j - i)) = (nextc I ^^ i) (?f (j - i))" by (simp only: funpow_add comp_apply)
  then have "?f j = (nextc I ^^ i) (?f (j - i))" using ij(1) by simp
  then have "?f (j - i) = t"
    using prev_iter[OF l u, of i] prev_iter[OF l used_iter[OF l u, of "j - i"], of i] ij(3) by metis
  then show ?thesis using ij by (intro exI[of _ "j - i"]) auto
qed

declare copy_walk.simps [simp del]

lemma copy_walk_step [simp]:
  "copy_walk 0 I P temp i = (if i = temp then Some None else if P i then Some (Some i) else None)"
  "copy_walk (Suc m) I P temp i =
     (if i = temp then Some None else if P i then Some (Some i) else copy_walk m I P temp (nextc I i))"
  "copy_walk n I P temp temp = Some None"
  by (simp_all add: copy_walk.simps)

lemma copy_walk_returns: "(nextc I ^^ k) i = temp \<Longrightarrow> k \<le> n \<Longrightarrow> copy_walk n I P temp i \<noteq> None"
proof (induction k arbitrary: n i)
  case (Suc k)
  then obtain m where "n = Suc m" by (cases n) auto
  then show ?case using Suc.IH[of "nextc I i" m] Suc.prems by (simp add: next_swap)
qed simp

lemma copy_walk_finds:
  "copy_walk n I P temp i = Some (Some j) \<Longrightarrow> P j \<and> (\<exists>k. j = (nextc I ^^ k) i)"
proof (induction n arbitrary: i)
  case 0
  then show ?case by (auto split: if_splits intro: exI[of _ 0])
next
  case (Suc n)
  show ?case
  proof (cases "i = temp \<or> P i")
    case True
    then show ?thesis using Suc.prems by (auto split: if_splits intro: exI[of _ 0])
  next
    case False
    then obtain k where "P j" "j = (nextc I ^^ k) (nextc I i)" using Suc by (auto split: if_splits)
    then show ?thesis by (auto intro!: exI[of _ "Suc k"] simp: next_swap)
  qed
qed

lemma copy_walk_misses:
  "copy_walk n I P temp i = Some None \<Longrightarrow> \<exists>m. (nextc I ^^ m) i = temp \<and> (\<forall>k < m. \<not> P ((nextc I ^^ k) i))"
proof (induction n arbitrary: i)
  case 0
  then show ?case by (auto split: if_splits intro: exI[of _ 0])
next
  case (Suc n)
  show ?case
  proof (cases "i = temp")
    case True
    then show ?thesis by (auto intro: exI[of _ 0])
  next
    case False
    then obtain m where m: "(nextc I ^^ m) (nextc I i) = temp" "\<forall>k < m. \<not> P ((nextc I ^^ k) (nextc I i))" and "\<not> P i"
      using Suc by (auto split: if_splits)
    have "\<not> P ((nextc I ^^ k) i)" if "k < Suc m" for k
      using that m(2) \<open>\<not> P i\<close> by (cases k) (auto simp: next_swap)
    then show ?thesis using m(1) by (intro exI[of _ "Suc m"]) (simp add: next_swap)
  qed
qed

text \<open>The bound of the model is enough for every context that the allocator of temporaries can build.\<close>

lemma used_card:
  assumes "in_range s I" "unat (nb_temps s) \<le> TCG_MAX_TEMPS"
  shows "finite {t. temps_used I t}" "card {t. temps_used I t} \<le> TCG_MAX_TEMPS"
proof -
  have sub: "unat ` {t. temps_used I t} \<subseteq> {..<unat (nb_temps s)}"
    using assms(1) by (auto simp: in_range_def word_less_nat_alt)
  show "finite {t. temps_used I t}" by simp
  have "card (unat ` {t. temps_used I t}) \<le> unat (nb_temps s)" using card_mono[OF _ sub] by simp
  moreover have "card (unat ` {t. temps_used I t}) = card {t. temps_used I t}" by (rule card_image) (auto intro: inj_onI simp: word_unat_eq_iff)
  ultimately show "card {t. temps_used I t} \<le> TCG_MAX_TEMPS" using assms(2) by simp
qed

lemma copy_walk_enough:
  assumes "linked I" "in_range s I" "unat (nb_temps s) \<le> TCG_MAX_TEMPS" "temps_used I t"
  shows "copy_walk TCG_MAX_TEMPS I P t (nextc I t) \<noteq> None"
proof -
  obtain k where "0 < k" "k \<le> TCG_MAX_TEMPS" "(nextc I ^^ k) t = t"
    using returns[OF assms(1,4) used_card[OF assms(2,3)]] by blast
  then show ?thesis by (intro copy_walk_returns[of "k - 1"]) (auto simp: next_swap gr0_conv_Suc)
qed

lemma find_copy_Some:
  "find_copy I P t = Some j \<Longrightarrow> P j \<and> (\<exists>k. j = (nextc I ^^ k) t)"
  using copy_walk_finds[of TCG_MAX_TEMPS I P t "nextc I t" j]
  by (auto simp: find_copy_def split: option.splits intro: exI[of _ "Suc k" for k] simp: next_swap)

lemma find_copy_None:
  assumes "linked I" "in_range s I" "unat (nb_temps s) \<le> TCG_MAX_TEMPS" "temps_used I t" "find_copy I P t = None"
  shows "(nextc I ^^ k) t = t \<or> \<not> P ((nextc I ^^ k) t)"
proof -
  obtain m where m: "(nextc I ^^ m) (nextc I t) = t" "\<forall>k < m. \<not> P ((nextc I ^^ k) (nextc I t))"
    using copy_walk_enough[OF assms(1-4), of P] copy_walk_misses[of TCG_MAX_TEMPS I P t "nextc I t"] assms(5)
    by (auto simp: find_copy_def split: option.splits)
  have "(nextc I ^^ k) t = (nextc I ^^ (k mod Suc m)) t" by (rule funpow_mod_eq[symmetric]) (use m(1) in \<open>simp add: next_swap\<close>)
  moreover have "k mod Suc m < Suc m" by simp
  ultimately show ?thesis using m(2) by (cases "k mod Suc m") (auto simp: next_swap)
qed

lemma find_copy_value:
  "linked I \<Longrightarrow> known I T \<Longrightarrow> temps_used I t \<Longrightarrow> find_copy I P t = Some j \<Longrightarrow> temps_used I j \<and> T j = T t \<and> P j"
  using find_copy_Some[of I P t j] by (auto simp: used_iter known_iter)

lemma better_copy_value:
  "valid s I T \<Longrightarrow> temps_used I t \<Longrightarrow> temps_used I (find_better_copy c I t) \<and> T (find_better_copy c I t) = T t"
  by (auto simp: find_better_copy_def valid_def split: option.split dest: find_copy_value)

lemma copies_value:
  assumes "valid s I T" "temps_used I x" "temps_are_copies I x y"
  shows "T x = T y"
proof (cases "x = y")
  case False
  then obtain j where "find_copy I (\<lambda>i. i = y) x = Some j"
    using assms(3) by (auto simp: temps_are_copies_def split: if_splits)
  then show ?thesis using find_copy_value[of I T x _ j] assms(1,2) by (fastforce simp: valid_def)
qed simp

lemma valid_gen_mov:
  assumes "valid s I T" "temps_used I t" "temps_used I d" "tcg_opt_gen_mov s op d t I = (ops, I')"
  shows "valid s I' (T(d := T t))"
proof (cases "temps_are_copies I d t")
  case True
  then have "T(d := T t) = T" using copies_value[OF assms(1,3)] by auto
  then show ?thesis using assms True by (simp add: gen_mov_eq)
next
  case False
  then have "d \<noteq> t" by (auto simp: temps_are_copies_def)
  then show ?thesis using valid_mov[OF assms(1-3) _ False assms(4)] by simp
qed

lemma orbit_alone: "linked I \<Longrightarrow> temps_used I t \<Longrightarrow> nextc I t = t \<Longrightarrow> (nextc I ^^ k) t = t"
  by (induction k) auto

lemma orbit_alone_back:
  assumes "linked I" "temps_used I t" "nextc I ((nextc I ^^ k) t) = (nextc I ^^ k) t"
  shows "(nextc I ^^ k) t = t"
proof -
  let ?y = "(nextc I ^^ k) t"
  have "(nextc I ^^ k) ?y = ?y" using orbit_alone[OF assms(1) used_iter[OF assms(1,2)] assms(3)] .
  then show ?thesis using prev_iter[OF assms(1,2), of k] prev_iter[OF assms(1) used_iter[OF assms(1,2)], of k k] by metis
qed

section \<open>What the table is for\<close>

text \<open>
  C24. Every update of the optimiser's table keeps its invariant: when the lists of copies are linked both ways and
  every activated temporary has the value, the possible bits and the copies that the table records, the same holds after a temporary is
  activated, forgotten because it got any value, made a constant, or made a copy of another one.
\<close>

theorem copy_table_invariant:
  assumes "valid s I T" "temps_used I d" "temps_used I t" "u < nb_temps s"
  shows "valid s (init_temp_info u I) T \<and> valid s (reset_temp d I) (T(d := v)) \<and>
    valid s (snd (tcg_opt_gen_movi op d v I)) (T(d := v)) \<and>
    valid s (snd (tcg_opt_gen_mov s op d t I)) (T(d := T t)) \<and>
    valid s (reset_all_temps I) T'"
  using valid_movi[OF assms(1,2), of op v] valid_gen_mov[OF assms(1,3,2), of op]
  by (simp add: valid_init valid_reset valid_all assms prod_eq_iff)

text \<open>A table in which the temporaries 1 and 2 are copies and 3 is the constant 7.\<close>

definition sample_info :: opt_info where
  "sample_info =
     \<lparr>tinfo = (\<lambda>t. if t = 1 then \<lparr>is_const = False, prev_copy = 2, next_copy = 2, val = 0, tmask = 0xff\<rparr>
                   else if t = 2 then \<lparr>is_const = False, prev_copy = 1, next_copy = 1, val = 0, tmask = 0xff\<rparr>
                   else \<lparr>is_const = True, prev_copy = t, next_copy = t, val = 7, tmask = 7\<rparr>),
      temps_used = (\<lambda>t. t = 1 \<or> t = 2 \<or> t = 3)\<rparr>"

definition sample_ctx :: TCGContext where
  "sample_ctx = \<lparr>nb_globals = 2, nb_temps = 6, temps = (\<lambda>_. \<lparr>base_type = TCG_TYPE_I32, type = TCG_TYPE_I32, temp_local = False\<rparr>)\<rparr>"

definition sample_values :: "TCGArg \<Rightarrow> u32" where "sample_values t = (if t = 3 then 7 else 5)"

lemma sample_valid: "valid sample_ctx sample_info sample_values"
  by (auto simp: valid_def linked_def in_range_def known_def within_def sample_ctx_def sample_info_def sample_values_def)

theorem copy_table_invariant_witness:
  "valid sample_ctx (snd (tcg_opt_gen_mov sample_ctx
     \<lparr>opc = INDEX_op_mov TCG_TYPE_I32, calli = 0, callo = 0, args = [3, 1]\<rparr> 3 1 sample_info)) (sample_values(3 := 5))"
  using copy_table_invariant[OF sample_valid, of 3 1 4 0 "\<lparr>opc = INDEX_op_mov TCG_TYPE_I32, calli = 0, callo = 0, args = [3, 1]\<rparr>" sample_values]
  by (simp add: sample_info_def sample_ctx_def) (simp add: sample_values_def)

text \<open>
  C25. The loops over a list of copies end, and \<^verbatim>\<open>temps_are_copies\<close> decides whether two activated temporaries are on the same
  list: for every table with linked lists over at most \<^verbatim>\<open>TCG_MAX_TEMPS\<close> temporaries, a walk from any activated temporary, looking for
  anything, returns within \<^verbatim>\<open>TCG_MAX_TEMPS\<close> steps, and the test is true exactly when the second temporary is reached from
  the first by following \<^verbatim>\<open>next_copy\<close>.
\<close>

theorem copies_decided:
  assumes "linked I" "in_range s I" "unat (nb_temps s) \<le> TCG_MAX_TEMPS" "temps_used I x"
  shows "copy_walk TCG_MAX_TEMPS I P x (next_copy (tinfo I x)) \<noteq> None \<and>
    (temps_are_copies I x y \<longleftrightarrow> (\<exists>k. ((\<lambda>t. next_copy (tinfo I t)) ^^ k) x = y))"
proof (intro conjI iffI)
  show "copy_walk TCG_MAX_TEMPS I P x (nextc I x) \<noteq> None" by (rule copy_walk_enough[OF assms])
next
  assume c: "temps_are_copies I x y"
  show "\<exists>k. (nextc I ^^ k) x = y"
  proof (cases "x = y")
    case False
    then obtain j where "find_copy I (\<lambda>i. i = y) x = Some j" using c by (auto simp: temps_are_copies_def split: if_splits)
    from find_copy_Some[OF this] show ?thesis by blast
  qed (auto intro: exI[of _ 0])
next
  assume "\<exists>k. (nextc I ^^ k) x = y"
  then obtain k where k: "(nextc I ^^ k) x = y" ..
  show "temps_are_copies I x y"
  proof (cases "x = y")
    case False
    have "temp_is_copy I x" "temp_is_copy I y"
      using orbit_alone[OF assms(1,4), of k] orbit_alone_back[OF assms(1,4), of k] k False by (auto simp: temp_is_copy_def)
    moreover have "find_copy I (\<lambda>i. i = y) x \<noteq> None" using find_copy_None[OF assms, of "\<lambda>i. i = y" k] k False by auto
    ultimately show ?thesis by (simp add: temps_are_copies_def)
  qed (simp add: temps_are_copies_def)
qed

theorem copies_decided_witness:
  "temps_are_copies sample_info 1 2 \<and> \<not> temps_are_copies sample_info 3 1 \<and>
   (\<exists>k. ((\<lambda>t. next_copy (tinfo sample_info t)) ^^ k) 1 = 2)"
proof -
  have v: "linked sample_info" "in_range sample_ctx sample_info" "unat (nb_temps sample_ctx) \<le> TCG_MAX_TEMPS"
    "temps_used sample_info 1"
    using sample_valid by (simp_all add: valid_def sample_ctx_def TCG_MAX_TEMPS_def sample_info_def)
  have n: "((\<lambda>t. next_copy (tinfo sample_info t)) ^^ 1) 1 = 2" by (simp add: sample_info_def)
  then have "\<exists>k. ((\<lambda>t. next_copy (tinfo sample_info t)) ^^ k) 1 = 2" by blast
  then have "temps_are_copies sample_info 1 2" using copies_decided[OF v, of "\<lambda>_. False" 2] by blast
  moreover have "\<not> temps_are_copies sample_info 3 1" by (simp add: temps_are_copies_def temp_is_copy_def sample_info_def)
  ultimately show ?thesis using n by blast
qed

end
