(* ===== verification/Tcg_Sem.thy ===== *)
theory Tcg_Sem
  imports Tcg_Ir "HOL-Library.Signed_Division"
begin

text \<open>
  What a list of operations does (\<^verbatim>\<open>tcg/README\<close>): the reference semantics that the passes over the
  operations are proved to preserve. A state gives the value of every temporary and the bytes of memory.
  What the operations call outside the generator is a parameter: the helper functions, which guest
  accesses fault, and which exits of a translation block have been chained to another one.

  Only the \<^verbatim>\<open>_i32\<close> operations and the 64-bit guest accesses have a meaning: the others are not
  present on a 32-bit host. Temporaries keep their values across basic blocks; a shift takes its
  amount modulo 32 and a division by zero divides by one, where the documentation leaves the
  result open.
\<close>

section \<open>States and outcomes\<close>

record tstate =
  tv :: "TCGArg \<Rightarrow> u32"
  mem :: "u32 \<Rightarrow> u8"

record host =
  helper :: "u32 \<Rightarrow> u32 \<Rightarrow> u32 list \<Rightarrow> (TCGArg \<Rightarrow> u32) \<Rightarrow> (u32 \<Rightarrow> u8) \<Rightarrow>
    ((nat \<Rightarrow> u32) \<times> (TCGArg \<Rightarrow> u32) \<times> (u32 \<Rightarrow> u8)) option"
  faults :: "u32 \<Rightarrow> u32 \<Rightarrow> bool"
  chained :: "u32 \<Rightarrow> bool"

datatype outcome = Fell tstate | Exit u32 tstate | Chain u32 tstate | Raised tstate | No_Label | No_Fuel | Bad_Op

datatype result = Next tstate | Jump TCGArg tstate | Stop outcome

definition set_temp :: "TCGArg \<Rightarrow> u32 \<Rightarrow> tstate \<Rightarrow> tstate" where
  "set_temp t v s = s\<lparr>tv := (tv s)(t := v)\<rparr>"

section \<open>Values\<close>

definition u64_of :: "u32 \<Rightarrow> u32 \<Rightarrow> u64" where "u64_of lo hi = push_bit 32 (ucast hi) OR ucast lo"

definition tcg_unary :: "TCGOpcode \<Rightarrow> u32 \<Rightarrow> u32 option" where
  "tcg_unary oc x = (case oc of
     INDEX_op_mov TCG_TYPE_I32 \<Rightarrow> Some x
   | INDEX_op_not TCG_TYPE_I32 \<Rightarrow> Some (NOT x)
   | INDEX_op_neg TCG_TYPE_I32 \<Rightarrow> Some (- x)
   | INDEX_op_ext8s TCG_TYPE_I32 \<Rightarrow> Some (scast (ucast x :: u8))
   | INDEX_op_ext16s TCG_TYPE_I32 \<Rightarrow> Some (scast (ucast x :: u16))
   | INDEX_op_ext8u TCG_TYPE_I32 \<Rightarrow> Some (ucast (ucast x :: u8))
   | INDEX_op_ext16u TCG_TYPE_I32 \<Rightarrow> Some (ucast (ucast x :: u16))
   | INDEX_op_bswap16 TCG_TYPE_I32 \<Rightarrow> Some (push_bit 8 (x AND 0xff) OR (drop_bit 8 x AND 0xff))
   | INDEX_op_bswap32 TCG_TYPE_I32 \<Rightarrow>
       Some (push_bit 24 x OR (push_bit 8 x AND 0xff0000) OR (drop_bit 8 x AND 0xff00) OR drop_bit 24 x)
   | _ \<Rightarrow> None)"

definition tcg_binary :: "TCGOpcode \<Rightarrow> u32 \<Rightarrow> u32 \<Rightarrow> u32 option" where
  "tcg_binary oc x y = (case oc of
     INDEX_op_add TCG_TYPE_I32 \<Rightarrow> Some (x + y)
   | INDEX_op_sub TCG_TYPE_I32 \<Rightarrow> Some (x - y)
   | INDEX_op_mul TCG_TYPE_I32 \<Rightarrow> Some (x * y)
   | INDEX_op_and TCG_TYPE_I32 \<Rightarrow> Some (x AND y)
   | INDEX_op_or TCG_TYPE_I32 \<Rightarrow> Some (x OR y)
   | INDEX_op_xor TCG_TYPE_I32 \<Rightarrow> Some (x XOR y)
   | INDEX_op_shl TCG_TYPE_I32 \<Rightarrow> Some (push_bit (unat y mod 32) x)
   | INDEX_op_shr TCG_TYPE_I32 \<Rightarrow> Some (drop_bit (unat y mod 32) x)
   | INDEX_op_sar TCG_TYPE_I32 \<Rightarrow> Some (signed_drop_bit (unat y mod 32) x)
   | INDEX_op_rotl TCG_TYPE_I32 \<Rightarrow> Some (word_rotl (unat y mod 32) x)
   | INDEX_op_rotr TCG_TYPE_I32 \<Rightarrow> Some (word_rotr (unat y mod 32) x)
   | INDEX_op_andc TCG_TYPE_I32 \<Rightarrow> Some (x AND NOT y)
   | INDEX_op_orc TCG_TYPE_I32 \<Rightarrow> Some (x OR NOT y)
   | INDEX_op_eqv TCG_TYPE_I32 \<Rightarrow> Some (NOT (x XOR y))
   | INDEX_op_nand TCG_TYPE_I32 \<Rightarrow> Some (NOT (x AND y))
   | INDEX_op_nor TCG_TYPE_I32 \<Rightarrow> Some (NOT (x OR y))
   | INDEX_op_muluh TCG_TYPE_I32 \<Rightarrow> Some (word_of_int ((uint x * uint y) div 2 ^ 32))
   | INDEX_op_mulsh TCG_TYPE_I32 \<Rightarrow> Some (word_of_int ((sint x * sint y) div 2 ^ 32))
   | INDEX_op_div TCG_TYPE_I32 \<Rightarrow> Some (if y = 0 then x else word_of_int (sint x sdiv sint y))
   | INDEX_op_divu TCG_TYPE_I32 \<Rightarrow> Some (if y = 0 then x else x div y)
   | INDEX_op_rem TCG_TYPE_I32 \<Rightarrow> Some (if y = 0 then 0 else word_of_int (sint x smod sint y))
   | INDEX_op_remu TCG_TYPE_I32 \<Rightarrow> Some (if y = 0 then 0 else x mod y)
   | _ \<Rightarrow> None)"

text \<open>The value an operation with one output writes to it, computed from temporaries only.\<close>

definition op_value :: "TCGOp \<Rightarrow> (TCGArg \<Rightarrow> u32) \<Rightarrow> u32 option" where
  "op_value op T = (let a = args op; v = (\<lambda>n. T (a ! n)) in
     case opc op of
       INDEX_op_movi TCG_TYPE_I32 \<Rightarrow> Some (a ! 1)
     | INDEX_op_setcond TCG_TYPE_I32 \<Rightarrow> Some (of_bool (tcg_cond_holds (a ! 3) (v 1) (v 2)))
     | INDEX_op_movcond TCG_TYPE_I32 \<Rightarrow> Some (if tcg_cond_holds (a ! 5) (v 1) (v 2) then v 3 else v 4)
     | INDEX_op_setcond2_i32 \<Rightarrow>
         Some (of_bool (tcg_cond_holds (a ! 5) (u64_of (v 1) (v 2)) (u64_of (v 3) (v 4))))
     | INDEX_op_deposit TCG_TYPE_I32 \<Rightarrow> Some (deposit32 (v 1) (unat (a ! 3)) (unat (a ! 4)) (v 2))
     | _ \<Rightarrow> (case tcg_unary (opc op) (v 1) of Some r \<Rightarrow> Some r | None \<Rightarrow> tcg_binary (opc op) (v 1) (v 2)))"

text \<open>The double-word results, low word first.\<close>

definition op_value2 :: "TCGOp \<Rightarrow> (TCGArg \<Rightarrow> u32) \<Rightarrow> u64 option" where
  "op_value2 op T = (let a = args op; v = (\<lambda>n. T (a ! n)) in
     case opc op of
       INDEX_op_add2 TCG_TYPE_I32 \<Rightarrow> Some (u64_of (v 2) (v 3) + u64_of (v 4) (v 5))
     | INDEX_op_sub2 TCG_TYPE_I32 \<Rightarrow> Some (u64_of (v 2) (v 3) - u64_of (v 4) (v 5))
     | INDEX_op_mulu2 TCG_TYPE_I32 \<Rightarrow> Some (ucast (v 2) * ucast (v 3))
     | INDEX_op_muls2 TCG_TYPE_I32 \<Rightarrow> Some (scast (v 2) * scast (v 3))
     | _ \<Rightarrow> None)"

section \<open>Memory\<close>

definition load_bytes :: "nat \<Rightarrow> (u32 \<Rightarrow> u8) \<Rightarrow> u32 \<Rightarrow> u8 list" where
  "load_bytes n m a = map (\<lambda>i. m (a + of_nat i)) [0..<n]"

fun le_value :: "u8 list \<Rightarrow> u64" where
  "le_value [] = 0"
| "le_value (b # bs) = ucast b OR push_bit 8 (le_value bs)"

definition store_bytes :: "nat \<Rightarrow> (u32 \<Rightarrow> u8) \<Rightarrow> u32 \<Rightarrow> u64 \<Rightarrow> (u32 \<Rightarrow> u8)" where
  "store_bytes n m a v = fold (\<lambda>i m. m(a + of_nat i := ucast (drop_bit (8 * i) v))) [0..<n] m"

text \<open>The loads and stores of the host: \<open>base + offset\<close>.\<close>

definition op_load :: "TCGOpcode \<Rightarrow> (u32 \<Rightarrow> u8) \<Rightarrow> u32 \<Rightarrow> u32 option" where
  "op_load oc m a = (case oc of
     INDEX_op_ld8u TCG_TYPE_I32 \<Rightarrow> Some (ucast (m a))
   | INDEX_op_ld8s TCG_TYPE_I32 \<Rightarrow> Some (scast (m a))
   | INDEX_op_ld16u TCG_TYPE_I32 \<Rightarrow> Some (ucast (ucast (le_value (load_bytes 2 m a)) :: u16))
   | INDEX_op_ld16s TCG_TYPE_I32 \<Rightarrow> Some (scast (ucast (le_value (load_bytes 2 m a)) :: u16))
   | INDEX_op_ld TCG_TYPE_I32 \<Rightarrow> Some (ucast (le_value (load_bytes 4 m a)))
   | _ \<Rightarrow> None)"

definition op_store_size :: "TCGOpcode \<Rightarrow> nat option" where
  "op_store_size oc = (case oc of
     INDEX_op_st8 TCG_TYPE_I32 \<Rightarrow> Some 1
   | INDEX_op_st16 TCG_TYPE_I32 \<Rightarrow> Some 2
   | INDEX_op_st TCG_TYPE_I32 \<Rightarrow> Some 4
   | _ \<Rightarrow> None)"

text \<open>A guest access: its size, sign extension and byte order are in the memory operation.\<close>

definition memop_bytes :: "u32 \<Rightarrow> nat" where "memop_bytes mop = 2 ^ unat (mop AND MO_SIZE)"

definition guest_load :: "u32 \<Rightarrow> (u32 \<Rightarrow> u8) \<Rightarrow> u32 \<Rightarrow> u64" where
  "guest_load mop m a =
     (let n = memop_bytes mop; bs = load_bytes n m a;
          v = le_value (if mop AND MO_BSWAP \<noteq> 0 then rev bs else bs)
      in if mop AND MO_SIGN \<noteq> 0 then signed_drop_bit (64 - 8 * n) (push_bit (64 - 8 * n) v) else v)"

definition guest_store :: "u32 \<Rightarrow> (u32 \<Rightarrow> u8) \<Rightarrow> u32 \<Rightarrow> u64 \<Rightarrow> (u32 \<Rightarrow> u8)" where
  "guest_store mop m a v =
     (let n = memop_bytes mop
      in if mop AND MO_BSWAP \<noteq> 0
         then fold (\<lambda>i m. m(a + of_nat i := ucast (drop_bit (8 * (n - 1 - i)) v))) [0..<n] m
         else store_bytes n m a v)"

section \<open>One operation\<close>

definition exec_call :: "host \<Rightarrow> TCGContext \<Rightarrow> TCGOp \<Rightarrow> tstate \<Rightarrow> result" where
  "exec_call H ctx op s =
     (let outs = take (callo op) (args op);
          ins = take (calli op) (drop (callo op) (args op));
          func = args op ! (callo op + calli op);
          flags = args op ! (callo op + calli op + 1);
          globals = (\<lambda>t. if flags AND TCG_CALL_NO_READ_GLOBALS = 0 \<and> t < nb_globals ctx then tv s t else 0)
      in case helper H func flags (map (tv s) ins) globals (mem s) of
           None \<Rightarrow> Stop (Raised s)
         | Some (rets, g, m) \<Rightarrow>
             (let T = (\<lambda>t. if flags AND (TCG_CALL_NO_READ_GLOBALS OR TCG_CALL_NO_WRITE_GLOBALS) = 0 \<and> t < nb_globals ctx
                           then g t else tv s t)
              in Next \<lparr>tv = fold (\<lambda>(t, r) T. T(t := r)) (zip outs (map rets [0..<length outs])) T, mem = m\<rparr>))"

definition exec_guest :: "host \<Rightarrow> TCGOp \<Rightarrow> tstate \<Rightarrow> result" where
  "exec_guest H op s = (let a = args op; v = (\<lambda>n. tv s (a ! n)) in
     case opc op of
       INDEX_op_qemu_ld TCG_TYPE_I32 \<Rightarrow>
         (if faults H (a ! 2) (v 1) then Stop (Raised s)
          else Next (set_temp (a ! 0) (ucast (guest_load (get_memop (a ! 2)) (mem s) (v 1))) s))
     | INDEX_op_qemu_ld TCG_TYPE_I64 \<Rightarrow>
         (if faults H (a ! 3) (v 2) then Stop (Raised s)
          else let r = guest_load (get_memop (a ! 3)) (mem s) (v 2)
               in Next (set_temp (a ! 1) (ucast (drop_bit 32 r)) (set_temp (a ! 0) (ucast r) s)))
     | INDEX_op_qemu_st TCG_TYPE_I32 \<Rightarrow>
         (if faults H (a ! 2) (v 1) then Stop (Raised s)
          else Next (s\<lparr>mem := guest_store (get_memop (a ! 2)) (mem s) (v 1) (ucast (v 0))\<rparr>))
     | INDEX_op_qemu_st TCG_TYPE_I64 \<Rightarrow>
         (if faults H (a ! 3) (v 2) then Stop (Raised s)
          else Next (s\<lparr>mem := guest_store (get_memop (a ! 3)) (mem s) (v 2) (u64_of (v 0) (v 1))\<rparr>))
     | _ \<Rightarrow> Stop Bad_Op)"

definition exec_plain :: "TCGOp \<Rightarrow> tstate \<Rightarrow> result" where
  "exec_plain op s = (let a = args op; v = (\<lambda>n. tv s (a ! n)) in
     case op_value op (tv s) of
       Some r \<Rightarrow> Next (set_temp (a ! 0) r s)
     | None \<Rightarrow> (case op_value2 op (tv s) of
         Some r \<Rightarrow> Next (set_temp (a ! 1) (ucast (drop_bit 32 r)) (set_temp (a ! 0) (ucast r) s))
       | None \<Rightarrow> (case op_load (opc op) (mem s) (v 1 + a ! 2) of
           Some r \<Rightarrow> Next (set_temp (a ! 0) r s)
         | None \<Rightarrow> (case op_store_size (opc op) of
             Some n \<Rightarrow> Next (s\<lparr>mem := store_bytes n (mem s) (v 1 + a ! 2) (ucast (v 0))\<rparr>)
           | None \<Rightarrow> Stop Bad_Op))))"

definition exec_op :: "host \<Rightarrow> TCGContext \<Rightarrow> TCGOp \<Rightarrow> tstate \<Rightarrow> result" where
  "exec_op H ctx op s = (let a = args op; v = (\<lambda>n. tv s (a ! n)) in
     case opc op of
       INDEX_op_discard \<Rightarrow> Next s
     | INDEX_op_insn_start \<Rightarrow> Next s
     | INDEX_op_set_label \<Rightarrow> Next s
     | INDEX_op_br \<Rightarrow> Jump (a ! 0) s
     | INDEX_op_brcond TCG_TYPE_I32 \<Rightarrow> (if tcg_cond_holds (a ! 2) (v 0) (v 1) then Jump (a ! 3) s else Next s)
     | INDEX_op_brcond2_i32 \<Rightarrow>
         (if tcg_cond_holds (a ! 4) (u64_of (v 0) (v 1)) (u64_of (v 2) (v 3)) then Jump (a ! 5) s else Next s)
     | INDEX_op_exit_tb \<Rightarrow> Stop (Exit (a ! 0) s)
     | INDEX_op_goto_tb \<Rightarrow> (if chained H (a ! 0) then Stop (Chain (a ! 0) s) else Next s)
     | INDEX_op_call \<Rightarrow> exec_call H ctx op s
     | INDEX_op_qemu_ld _ \<Rightarrow> exec_guest H op s
     | INDEX_op_qemu_st _ \<Rightarrow> exec_guest H op s
     | _ \<Rightarrow> exec_plain op s)"

section \<open>A list of operations\<close>

fun find_label :: "TCGArg \<Rightarrow> TCGOp list \<Rightarrow> TCGOp list option" where
  "find_label l [] = None"
| "find_label l (op # ops) = (if opc op = INDEX_op_set_label \<and> args op ! 0 = l then Some ops else find_label l ops)"

text \<open>\<open>n\<close> bounds the number of jumps taken.\<close>

fun exec :: "host \<Rightarrow> TCGContext \<Rightarrow> nat \<Rightarrow> TCGOp list \<Rightarrow> TCGOp list \<Rightarrow> tstate \<Rightarrow> outcome" where
  "exec H ctx n prog [] s = Fell s"
| "exec H ctx n prog (op # ops) s = (case exec_op H ctx op s of
     Next s' \<Rightarrow> exec H ctx n prog ops s'
   | Stop r \<Rightarrow> r
   | Jump l s' \<Rightarrow> (case n of
       0 \<Rightarrow> No_Fuel
     | Suc m \<Rightarrow> (case find_label l prog of None \<Rightarrow> No_Label | Some rest \<Rightarrow> exec H ctx m prog rest s')))"

definition run_block :: "host \<Rightarrow> TCGContext \<Rightarrow> nat \<Rightarrow> TCGOp list \<Rightarrow> tstate \<Rightarrow> outcome" where
  "run_block H ctx n prog s = exec H ctx n prog prog s"

end
