(* ===== verification/Tcg_Fold.thy ===== *)
theory Tcg_Fold
  imports Tcg_Optimize Tcg_Sem
begin

text \<open>
  What the optimiser computes at translation time is what the operations compute: constant
  folding of values and of conditions.
\<close>

section \<open>Values\<close>

lemma and_31 [simp]: "unat ((y :: u32) AND 31) = unat y mod 32"
proof -
  have "(y :: u32) AND 31 = take_bit 5 y" by (simp add: take_bit_eq_mask mask_eq_exp_minus_1)
  then show ?thesis by (simp add: take_bit_eq_mod unat_mod_distrib)
qed

lemma op_bits_i32 [simp]: "def_flags (tcg_op_defs oc) AND TCG_OPF_64BIT = 0 \<Longrightarrow> op_bits oc = 32"
  by (simp add: op_bits_def)

lemma mul_high_unsigned:
  "(ucast (drop_bit 32 (ucast x * ucast y :: u64)) :: u32) = word_of_int ((uint x * uint y) div 2 ^ 32)" for x y :: u32
proof -
  have p: "0 \<le> uint x * uint y" "uint x * uint y < 2 ^ 32 * 2 ^ 32"
    using uint_range[of x] uint_range[of y] mult_strict_mono[of "uint x" "2 ^ 32" "uint y" "2 ^ 32"] by auto
  have "(ucast x * ucast y :: u64) = word_of_int (uint x * uint y)" by (simp only: ucast_eq_word_of_int of_int_mult)
  then have "uint (ucast x * ucast y :: u64) = uint x * uint y" 
    using uint_word_of_int[of "uint x * uint y", where 'a = 64] p by simp
  then have "uint (drop_bit 32 (ucast x * ucast y :: u64)) = (uint x * uint y) div 2 ^ 32"
    by (simp add: drop_bit_eq_div uint_div_distrib)
  then show ?thesis by (metis ucast_eq_word_of_int)
qed

lemma ucast_sint: "(ucast w :: u32) = word_of_int (sint w)" for w :: u64
  by (rule bit_word_eqI) (simp add: bit_simps bit_sint_iff)

lemma mul_high_signed:
  "(ucast (signed_drop_bit 32 (scast x * scast y :: u64)) :: u32) = word_of_int ((sint x * sint y) div 2 ^ 32)" for x y :: u32
proof -
  have "\<bar>sint x\<bar> \<le> 2 ^ 31" "\<bar>sint y\<bar> \<le> 2 ^ 31" using sint_range[of x] sint_range[of y] by auto
  then have "\<bar>sint x * sint y\<bar> \<le> 2 ^ 31 * 2 ^ 31" unfolding abs_mult by (intro mult_mono) auto
  moreover have "(scast x * scast y :: u64) = word_of_int (sint x * sint y)" by (simp only: scast_eq_word_of_int of_int_mult)
  ultimately have "sint (scast x * scast y :: u64) = sint x * sint y" by (simp add: sint_word_of_int del: of_int_mult)
  then have "sint (signed_drop_bit 32 (scast x * scast y :: u64)) = (sint x * sint y) div 2 ^ 32"
    by (simp add: sint_signed_drop_bit_eq drop_bit_eq_div)
  then show ?thesis by (simp add: ucast_sint)
qed

lemma smod_1 [simp]: "x smod (1 :: int) = 0" and sdiv_1 [simp]: "x sdiv (1 :: int) = x"
  by (simp_all add: signed_modulo_int_def signed_divide_int_def sgn_mult_abs)

lemma sint_zero_iff: "sint (y :: u32) = 0 \<longleftrightarrow> y = 0"
  by (metis signed_eq_0_iff)

lemma fold_binary:
  assumes "tcg_binary oc x y = Some v"
  shows "do_constant_folding oc x y = Some v"
  using assms
  by (cases oc) (auto simp: tcg_binary_def do_constant_folding_def do_constant_folding_2_def TCG_IMPL_def IMPL_def
      TCG_IMPL_mulh_def DEF_def TCG_OPF_defs ror32_eq rol32_eq mul_high_unsigned mul_high_signed
      split: TCGType.splits if_splits)

definition folds_unary :: "TCGOpcode \<Rightarrow> bool" where
  "folds_unary oc \<longleftrightarrow> oc \<in> {INDEX_op_not TCG_TYPE_I32, INDEX_op_neg TCG_TYPE_I32, INDEX_op_ext8s TCG_TYPE_I32,
     INDEX_op_ext8u TCG_TYPE_I32, INDEX_op_ext16s TCG_TYPE_I32, INDEX_op_ext16u TCG_TYPE_I32}"

lemma fold_unary:
  assumes "folds_unary oc"
  shows "do_constant_folding oc x y = tcg_unary oc x"
  using assms
  by (auto simp: folds_unary_def tcg_unary_def do_constant_folding_def do_constant_folding_2_def)

section \<open>Conditions\<close>

lemma fold_cond_w: "is_comparison c \<Longrightarrow> do_constant_folding_cond_w x y c = Some (tcg_cond_holds c x y)"
  by (erule is_comparison_cases) (simp_all add: do_constant_folding_cond_w_def TCG_COND_defs tcg_cond_holds_def)

lemma fold_cond_eq: "is_comparison c \<Longrightarrow> do_constant_folding_cond_eq c = Some (tcg_cond_holds c x x)"
  by (erule is_comparison_cases) (simp_all add: do_constant_folding_cond_eq_def TCG_COND_defs tcg_cond_holds_def)

text \<open>
  C26. Constant folding computes what the operation computes: for every 32-bit operation with a value of one or two
  operands that the pass folds, and for every comparison, on 32 and on 64 bits, the folded result is the operation's
  result on those operands, and \<^verbatim>\<open>tcg_abort\<close> is not reached.
\<close>

theorem constant_folding_correct:
  "(tcg_binary oc x y = Some v \<longrightarrow> do_constant_folding oc x y = Some v) \<and>
   (folds_unary oc \<longrightarrow> do_constant_folding oc x y = tcg_unary oc x \<and> tcg_unary oc x \<noteq> None) \<and>
   (is_comparison c \<longrightarrow>
      do_constant_folding_cond_32 x y c = Some (tcg_cond_holds c x y) \<and>
      do_constant_folding_cond_64 z w c = Some (tcg_cond_holds c z w) \<and>
      do_constant_folding_cond_eq c = Some (tcg_cond_holds c x x))"
  using fold_binary fold_unary fold_cond_eq[of c x]
  by (auto simp: do_constant_folding_cond_32_def do_constant_folding_cond_64_def fold_cond_w folds_unary_def tcg_unary_def)

theorem constant_folding_correct_witness:
  "do_constant_folding (INDEX_op_sar TCG_TYPE_I32) 0x80000000 4 = Some 0xf8000000 \<and>
   do_constant_folding (INDEX_op_ext8s TCG_TYPE_I32) 0x80 0 = Some 0xffffff80 \<and>
   do_constant_folding_cond_32 0xffffffff 1 TCG_COND_LT = Some True"
proof -
  have "tcg_binary (INDEX_op_sar TCG_TYPE_I32) 0x80000000 4 = Some 0xf8000000"
    unfolding tcg_binary_def by code_simp
  from constant_folding_correct[THEN conjunct1, rule_format, OF this] have 1: "do_constant_folding (INDEX_op_sar TCG_TYPE_I32) 0x80000000 4 = Some 0xf8000000" .
  have "tcg_unary (INDEX_op_ext8s TCG_TYPE_I32) 0x80 = Some 0xffffff80" unfolding tcg_unary_def by code_simp
  then have 2: "do_constant_folding (INDEX_op_ext8s TCG_TYPE_I32) 0x80 0 = Some 0xffffff80"
    using constant_folding_correct[where oc = "INDEX_op_ext8s TCG_TYPE_I32" and x = "0x80" and y = "0"] by (simp add: folds_unary_def)
  have "do_constant_folding_cond_32 0xffffffff 1 TCG_COND_LT = Some True"
    using constant_folding_correct[where c = TCG_COND_LT and x = "0xffffffff" and y = "1"] by simp
  with 1 2 show ?thesis by simp
qed

end
