(* ===== verification/Tcg_Known_Bits.thy ===== *)
theory Tcg_Known_Bits
  imports Tcg_Copies Tcg_Fold
begin

text \<open>
  The masks of possibly set bits that the optimiser computes for the result of an operation from the masks of its operands.
\<close>

section \<open>One operation on words\<close>

lemma within_and: "within x m \<Longrightarrow> within y k \<Longrightarrow> within (x AND y) (m AND k)"
  and within_and_left: "within x m \<Longrightarrow> within (x AND y) m"
  and within_and_const: "within x m \<Longrightarrow> within (x AND k) (m AND k)"
  and within_or: "within x m \<Longrightarrow> within y k \<Longrightarrow> within (x OR y) (m OR k)"
  and within_xor: "within x m \<Longrightarrow> within y k \<Longrightarrow> within (x XOR y) (m OR k)"
  and within_or_left: "within x m \<Longrightarrow> within x (m OR k)"
  and within_or_right: "within x m \<Longrightarrow> within x (k OR m)"
  by (auto simp: within_iff bit_simps)

lemma within_0_left [simp]: "within 0 m"
  by (simp add: within_def)

lemma within_unaffected: "within x m \<Longrightarrow> m AND NOT k = 0 \<Longrightarrow> x AND k = x"
  by (auto simp: within_iff bit_eq_iff bit_simps)

lemma within_shift:
  "within x m \<Longrightarrow> within (push_bit n x) (push_bit n m)" "within x m \<Longrightarrow> within (drop_bit n x) (drop_bit n m)"
  "within x m \<Longrightarrow> within (signed_drop_bit n x) (signed_drop_bit n m)"
  by (auto simp: within_iff bit_simps)

lemma within_deposit:
  assumes "within x m" "within y k" "p + l \<le> 32"
  shows "within (deposit32 x p l y) (ucast (deposit64 (ucast m) p l (ucast k)))"
  using assms by (auto simp: within_iff bit_deposit32 bit_deposit64 bit_simps split: if_splits)

lemma and_masks:
  "(x :: u32) AND 0xff = take_bit 8 x" "x AND 0xffff = take_bit 16 x"
  by (simp_all add: take_bit_eq_mask mask_eq_exp_minus_1)

lemma and_bit_masks:
  "(m :: u32) AND 0x80 = 0 \<longleftrightarrow> \<not> bit m 7" "m AND 0x8000 = 0 \<longleftrightarrow> \<not> bit m 15"
  using and_exp_eq_0_iff_not_bit[of m 7] and_exp_eq_0_iff_not_bit[of m 15] by simp_all

lemma zext_and: "ucast (ucast x :: u8) = x AND 0xff" "ucast (ucast x :: u16) = x AND 0xffff" for x :: u32
  unfolding and_masks by (auto simp: bit_eq_iff bit_simps)

lemma sext_and:
  "within x m \<Longrightarrow> m AND 0x80 = 0 \<Longrightarrow> scast (ucast x :: u8) = x AND 0xff"
  "within x m \<Longrightarrow> m AND 0x8000 = 0 \<Longrightarrow> scast (ucast x :: u16) = x AND 0xffff" for x :: u32
proof -
  have s: "bit (scast (ucast x :: u8) :: u32) n \<longleftrightarrow> n < 8 \<and> bit x n" if "\<not> bit x 7" for n
    using that by (cases "n < 7"; cases "n = 7") (auto simp: bit_simps min_def split: if_splits)
  have t: "bit (scast (ucast x :: u16) :: u32) n \<longleftrightarrow> n < 16 \<and> bit x n" if "\<not> bit x 15" for n
    using that by (cases "n < 15"; cases "n = 15") (auto simp: bit_simps min_def split: if_splits)
  assume "within x m"
  then have "\<not> bit m k \<Longrightarrow> \<not> bit x k" for k by (auto simp: within_iff)
  then show "m AND 0x80 = 0 \<Longrightarrow> scast (ucast x :: u8) = x AND 0xff"
    "m AND 0x8000 = 0 \<Longrightarrow> scast (ucast x :: u16) = x AND 0xffff"
    unfolding and_masks and_bit_masks by (auto simp: bit_eq_iff s t bit_take_bit_iff)
qed

text \<open>Negation: the bits from the lowest possible one on.\<close>

lemma odd_and_neg: "bit (m :: 'a::len word) 0 \<Longrightarrow> m AND - m = 1"
proof -
  assume "bit m 0"
  then have "m - 1 = m XOR 1" using xor_one_eq[of m] by (simp add: bit_0)
  then have "- m = NOT (m XOR 1)" by (simp add: minus_eq_not_minus_1)
  then show ?thesis using \<open>bit m 0\<close> by (intro bit_word_eqI) (auto simp: bit_simps)
qed

lemma low_zero: "(\<And>k. k < p \<Longrightarrow> \<not> bit w k) \<Longrightarrow> w = push_bit p (drop_bit p w)" for w :: "'a::len word"
  by (rule bit_word_eqI) (metis add.commute bit_drop_bit_eq bit_push_bit_iff comp_apply le_add_diff_inverse2 not_le possible_bit_word)

lemma within_neg: "within x m \<Longrightarrow> within (- x) (- (m AND - m))" for x :: "'a::len word"
proof (cases "m = 0")
  case False
  assume w: "within x m"
  define p where "p = (LEAST n. bit m n)"
  obtain n where n: "bit m n" using False by (auto simp: bit_eq_iff)
  have p: "bit m p" "\<And>k. k < p \<Longrightarrow> \<not> bit m k" unfolding p_def using n by (auto intro: LeastI dest: not_less_Least)
  define r where "r = drop_bit p m"
  have "m = push_bit p r" unfolding r_def using p(2) by (rule low_zero)
  have "bit r 0" using p(1) by (simp add: r_def bit_simps)
  have "m AND - m = push_bit p (r AND - r)"
    using \<open>m = push_bit p r\<close> by (simp add: push_bit_and push_bit_minus)
  then have e: "m AND - m = 2 ^ p" by (simp only: odd_and_neg[OF \<open>bit r 0\<close>] push_bit_of_1)
  have "x = push_bit p (drop_bit p x)" using w p(2) by (intro low_zero) (auto simp: within_iff)
  then have "- x = push_bit p (- drop_bit p x)" by (metis push_bit_minus)
  then have "\<not> bit (- x) k" if "k < p" for k using that by (simp only: bit_push_bit_iff) simp
  then show ?thesis unfolding e by (auto simp: within_iff minus_exp_eq_not_mask bit_simps dest: bit_imp_le_length)
qed simp

section \<open>The masks of an operation\<close>

definition args_used :: "opt_info \<Rightarrow> TCGOp \<Rightarrow> bool" where
  "args_used I op \<longleftrightarrow> (\<forall>n < op_oargs op + op_iargs op. temps_used I (args op ! n))"

lemma arg_known:
  assumes "valid s I T" "args_used I op" "n < op_oargs op + op_iargs op"
  shows "within (T (args op ! n)) (tmask (tinfo I (args op ! n)))"
    "temp_is_const I (args op ! n) \<Longrightarrow> T (args op ! n) = val (tinfo I (args op ! n))"
    "temp_is_const I (args op ! n) \<Longrightarrow> tmask (tinfo I (args op ! n)) = val (tinfo I (args op ! n))"
    "temps_used I (args op ! n)"
  using assms by (simp_all add: valid_def known_def args_used_def temp_is_const_def)

lemma const_is_known:
  assumes "valid s I T" "args_used I op" "n < op_oargs op + op_iargs op" "const_is I (args op ! n) v"
  shows "T (args op ! n) = v"
  using arg_known[OF assms(1-3)] assms(4) by (simp add: const_is_def)

text \<open>The number of arguments of the operations that compute a value.\<close>

lemmas arity_simps = op_oargs_def op_iargs_def DEF_def

definition deposit_ok :: "TCGOp \<Rightarrow> bool" where
  "deposit_ok op \<longleftrightarrow> (\<forall>ty. opc op = INDEX_op_deposit ty \<longrightarrow> unat (args op ! 3) + unat (args op ! 4) \<le> 32)"

lemma opt_masks_value:
  assumes v: "valid s I T" and u: "args_used I op" and d: "deposit_ok op"
    and o: "op_value op T = Some r" and m: "opt_masks I op = (mk, aff)"
  shows "within r mk \<and> (aff = 0 \<longrightarrow> r = T (args op ! 1))"
proof -
  note k = arg_known[OF v u]
  show ?thesis
    using o m d
    by (cases "opc op") (auto simp: op_value_def opt_masks_def tcg_unary_def tcg_binary_def arity_simps Let_def zext_and deposit_ok_def
        k sext_and[OF k(1)] within_and within_and_left within_and_const within_or within_xor within_or_left within_or_right
        within_shift within_deposit within_neg within_unaffected[OF k(1)] TCG_TARGET_REG_BITS_def
        split: TCGType.splits if_splits)
qed

text \<open>Loads.\<close>

lemma load_masks:
  assumes "op_load (opc op) m a = Some r" "opt_masks I op = (mk, aff)"
  shows "within r mk \<and> mk \<noteq> 0 \<and> aff \<noteq> 0"
proof -
  have "(ucast (b :: u8) :: u32) AND 0xff = ucast b" "(ucast (h :: u16) :: u32) AND 0xffff = ucast h" for b h
    unfolding and_masks by (auto simp: bit_eq_iff bit_simps dest: bit_imp_le_length)
  then have "within (ucast (b :: u8) :: u32) 0xff" "within (ucast (h :: u16) :: u32) 0xffff" for b h
    by (metis and.left_neutral within_all within_and_const)+
  then show ?thesis
    using assms by (cases "opc op") (auto simp: op_load_def opt_masks_def split: TCGType.splits)
qed

lemma le_value_bits: "bit (le_value bs) n \<Longrightarrow> n < 8 * length bs"
proof (induction bs arbitrary: n)
  case (Cons b bs)
  from Cons.prems consider "bit b n" | "8 \<le> n" "bit (le_value bs) (n - 8)" by (auto simp: bit_simps)
  then show ?case
  proof cases
    case 1
    then show ?thesis using bit_imp_le_length[of b n] by simp
  next
    case 2
    then show ?thesis using Cons.IH[of "n - 8"] by simp
  qed
qed simp

lemma memop_size: "unat (mop AND MO_SIZE) \<le> 3"
proof -
  have "mop AND MO_SIZE = take_bit 2 mop" by (simp add: MO_SIZE_def take_bit_eq_mask mask_eq_exp_minus_1)
  then show ?thesis by (simp add: take_bit_eq_mod unat_mod_distrib)
qed

lemma guest_load_within:
  assumes "mop AND MO_SIGN = 0"
  shows "within (ucast (guest_load mop m a) :: u32) (ucast (push_bit (push_bit (unat (mop AND MO_SIZE)) 8 - 1) (2 :: u64) - 1))"
proof -
  define k where "k = unat (mop AND MO_SIZE)"
  have b: "8 * memop_bytes mop = push_bit k 8" by (simp add: memop_bytes_def k_def push_bit_eq_mult)
  have p: "0 < push_bit k (8 :: nat)" by (simp add: push_bit_eq_mult)
  have "push_bit (j - 1) (2 :: u64) = 2 ^ j" if "0 < j" for j
    using that by (cases j) (simp_all add: push_bit_eq_mult)
  from this[OF p] have "push_bit (push_bit k 8 - 1) (2 :: u64) = 2 ^ push_bit k 8" .
  then have e: "push_bit (push_bit k 8 - 1) (2 :: u64) - 1 = mask (push_bit k 8)" by (simp only: mask_eq_exp_minus_1)
  have "bit (guest_load mop m a) n \<Longrightarrow> n < push_bit k 8" for n
    using le_value_bits[of _ n] assms unfolding b[symmetric]
    by (fastforce simp: guest_load_def load_bytes_def Let_def split: if_splits)
  then show ?thesis unfolding k_def[symmetric] e by (auto simp: within_iff bit_simps)
qed

lemma guest_load_masks:
  assumes "opc op = INDEX_op_qemu_ld ty" "opt_masks I op = (mk, aff)"
  shows "within (ucast (guest_load (get_memop (args op ! (op_oargs op + op_iargs op))) m a)) mk \<and> mk \<noteq> 0 \<and> aff \<noteq> 0"
proof -
  have "(ucast (push_bit (push_bit k 8 - 1) (2 :: u64) - 1) :: u32) \<noteq> 0" if "k \<le> 3" for k
  proof -
    from that consider "k = 0" | "k = 1" | "k = 2" | "k = 3" by linarith
    then show ?thesis by cases simp_all
  qed
  then show ?thesis
    using assms memop_size guest_load_within by (auto simp: opt_masks_def Let_def split: if_splits)
qed

text \<open>
  C30. The known-zero bits are sound: for an operation that computes a value from its operands, for a load of the host and for a guest
  load of any size, sign extension and byte order, the bits set in the result (the low word of a 64-bit guest load) are within the mask that the optimiser
  computes, and when it finds that no bit is affected the result is the first operand. A load is never taken for a constant or a copy.
\<close>

theorem known_bits_sound:
  assumes "valid s I T" "args_used I op" "deposit_ok op" "opt_masks I op = (mk, aff)"
  shows "(op_value op T = Some r \<longrightarrow> within r mk \<and> (aff = 0 \<longrightarrow> r = T (args op ! 1))) \<and>
    (op_load (opc op) m a = Some r \<longrightarrow> within r mk \<and> mk \<noteq> 0 \<and> aff \<noteq> 0) \<and>
    (opc op = INDEX_op_qemu_ld ty \<longrightarrow>
      within (ucast (guest_load (get_memop (args op ! (op_oargs op + op_iargs op))) m a)) mk \<and> mk \<noteq> 0 \<and> aff \<noteq> 0)"
  using opt_masks_value[OF assms(1-3)] load_masks guest_load_masks[OF _ assms(4)] assms(4) by blast

text \<open>Masking a temporary whose value is within \<open>0xff\<close> with \<open>0xff\<close> affects nothing.\<close>

theorem known_bits_sound_witness:
  "op_value \<lparr>opc = INDEX_op_ext8u TCG_TYPE_I32, calli = 0, callo = 0, args = [3, 1]\<rparr> sample_values = Some (sample_values 1)"
proof -
  let ?op = "\<lparr>opc = INDEX_op_ext8u TCG_TYPE_I32, calli = 0, callo = 0, args = [3, 1]\<rparr>"
  have "args_used sample_info ?op" by (auto simp: args_used_def arity_simps sample_info_def less_Suc_eq)
  moreover have "deposit_ok ?op" by (simp add: deposit_ok_def)
  moreover have "opt_masks sample_info ?op = (0xff, 0)" by (simp add: opt_masks_def sample_info_def Let_def)
  ultimately have k: "op_value ?op sample_values = Some r \<longrightarrow> r = sample_values 1" for r
    using known_bits_sound[OF sample_valid, of ?op "0xff" 0 r] by simp
  obtain r where "op_value ?op sample_values = Some r" by (simp add: op_value_def tcg_unary_def)
  with k show ?thesis by simp
qed

end
