(* ===== verification/Tcg_Cond.thy ===== *)
theory Tcg_Cond
  imports Tcg_Known_Bits
begin

text \<open>
  Comparisons: what the operations on conditions mean, double-word comparisons, and the conditions that the optimiser decides from
  what it knows of the operands.
\<close>

section \<open>Double words\<close>

lemma uint_u64_of: "uint (u64_of l h) = uint h * 2 ^ 32 + uint l"
proof -
  have "u64_of l h = push_bit 32 (ucast h) + ucast l"
    unfolding u64_of_def by (rule disjunctive_add_eq_or[symmetric]) (auto simp: bit_eq_iff bit_simps dest: bit_imp_le_length)
  moreover have "push_bit 32 (ucast h :: u64) = word_of_int (uint h * 2 ^ 32)"
    by (simp only: push_bit_eq_mult ucast_eq_word_of_int of_int_mult of_int_power of_int_numeral)
  ultimately have "u64_of l h = word_of_int (uint h * 2 ^ 32 + uint l)"
    by (simp only: ucast_eq_word_of_int of_int_add)
  then show ?thesis using uint_range[of h] uint_range[of l] uint_word_of_int[of "uint h * 2 ^ 32 + uint l", where 'a = 64] by simp
qed

lemma bit_u64_of: "bit (u64_of l h) n \<longleftrightarrow> (if n < 32 then bit l n else bit h (n - 32))"
  by (auto simp: u64_of_def bit_simps dest: bit_imp_le_length)

lemma sint_u64_of: "sint (u64_of l h) = sint h * 2 ^ 32 + uint l"
  using bit_u64_of[of l h 63] by (simp add: sint_uint_cases[of h] sint_uint_cases[of "u64_of l h"] uint_u64_of)

lemma u64_of_eq: "u64_of l h = u64_of l' h' \<longleftrightarrow> l = l' \<and> h = h'"
proof
  assume e: "u64_of l h = u64_of l' h'"
  have "bit l n = bit l' n" if "n < 32" for n using that bit_u64_of[of l h n] bit_u64_of[of l' h' n] e by simp
  moreover have "bit h n = bit h' n" for n using bit_u64_of[of l h "n + 32"] bit_u64_of[of l' h' "n + 32"] e by simp
  ultimately show "l = l' \<and> h = h'" by (auto intro: bit_word_eqI)
qed simp

lemma dword_less: "0 \<le> l \<Longrightarrow> l < 2 ^ 32 \<Longrightarrow> 0 \<le> m \<Longrightarrow> m < 2 ^ 32 \<Longrightarrow>
  a * 2 ^ 32 + l < b * 2 ^ 32 + m \<longleftrightarrow> a < b \<or> a = b \<and> l < m" for a b l m :: int
  by auto

lemma dword_le: "0 \<le> l \<Longrightarrow> l < 2 ^ 32 \<Longrightarrow> 0 \<le> m \<Longrightarrow> m < 2 ^ 32 \<Longrightarrow>
  a * 2 ^ 32 + l \<le> b * 2 ^ 32 + m \<longleftrightarrow> a < b \<or> a = b \<and> l \<le> m" for a b l m :: int
  by auto

lemma u64_of_less:
  "sint (u64_of l h) < sint (u64_of l' h') \<longleftrightarrow> sint h < sint h' \<or> h = h' \<and> l < l'"
  "sint (u64_of l h) \<le> sint (u64_of l' h') \<longleftrightarrow> sint h < sint h' \<or> h = h' \<and> l \<le> l'"
  "u64_of l h < u64_of l' h' \<longleftrightarrow> h < h' \<or> h = h' \<and> l < l'"
  "u64_of l h \<le> u64_of l' h' \<longleftrightarrow> h < h' \<or> h = h' \<and> l \<le> l'"
proof -
  have r: "0 \<le> uint l" "uint l < 2 ^ 32" "0 \<le> uint l'" "uint l' < 2 ^ 32" using uint_range[of l] uint_range[of l'] by auto
  show "sint (u64_of l h) < sint (u64_of l' h') \<longleftrightarrow> sint h < sint h' \<or> h = h' \<and> l < l'"
    unfolding sint_u64_of dword_less[OF r] by (simp add: word_eq_iff_sint[of h] word_less_def)
  show "sint (u64_of l h) \<le> sint (u64_of l' h') \<longleftrightarrow> sint h < sint h' \<or> h = h' \<and> l \<le> l'"
    unfolding sint_u64_of dword_le[OF r] by (simp add: word_eq_iff_sint[of h] word_le_def)
  show "u64_of l h < u64_of l' h' \<longleftrightarrow> h < h' \<or> h = h' \<and> l < l'"
    unfolding word_less_def uint_u64_of dword_less[OF r] by (simp add: word_uint_eq_iff[of h])
  show "u64_of l h \<le> u64_of l' h' \<longleftrightarrow> h < h' \<or> h = h' \<and> l \<le> l'"
    unfolding word_le_def uint_u64_of dword_le[OF r] by (simp add: word_less_def word_uint_eq_iff[of h])
qed

text \<open>
  C31. The conditions: swapping the operands, inverting the test, and splitting a double-word comparison into the comparison of
  the high words by \<^verbatim>\<open>tcg_high_cond\<close> and, when they are equal, the unsigned comparison of the low words by \<^verbatim>\<open>tcg_unsigned_cond\<close>.
\<close>

theorem conditions_correct:
  assumes "is_comparison c"
  shows "tcg_cond_holds (tcg_swap_cond c) y x = tcg_cond_holds c x y \<and>
    tcg_cond_holds (tcg_invert_cond c) x y = (\<not> tcg_cond_holds c x y) \<and>
    tcg_invert_cond (tcg_invert_cond c) = c \<and> tcg_swap_cond (tcg_swap_cond c) = c \<and>
    (c \<noteq> TCG_COND_EQ \<and> c \<noteq> TCG_COND_NE \<longrightarrow>
      (tcg_cond_holds c (u64_of xl xh) (u64_of yl yh) \<longleftrightarrow>
        tcg_cond_holds (tcg_high_cond c) xh yh \<or> xh = yh \<and> tcg_cond_holds (tcg_unsigned_cond c) xl yl) \<and>
      (is_unsigned_cond c \<longleftrightarrow> tcg_unsigned_cond c = c))"
proof -
  have h: "tcg_high_cond TCG_COND_LT = TCG_COND_LT" "tcg_high_cond TCG_COND_GE = TCG_COND_GT"
    "tcg_high_cond TCG_COND_LE = TCG_COND_LT" "tcg_high_cond TCG_COND_GT = TCG_COND_GT"
    "tcg_high_cond TCG_COND_LTU = TCG_COND_LTU" "tcg_high_cond TCG_COND_GEU = TCG_COND_GTU"
    "tcg_high_cond TCG_COND_LEU = TCG_COND_LTU" "tcg_high_cond TCG_COND_GTU = TCG_COND_GTU"
    by (simp_all add: tcg_high_cond_def TCG_COND_defs)
  have u: "tcg_unsigned_cond TCG_COND_LT = TCG_COND_LTU" "tcg_unsigned_cond TCG_COND_GE = TCG_COND_GEU"
    "tcg_unsigned_cond TCG_COND_LE = TCG_COND_LEU" "tcg_unsigned_cond TCG_COND_GT = TCG_COND_GTU"
    "tcg_unsigned_cond TCG_COND_LTU = TCG_COND_LTU" "tcg_unsigned_cond TCG_COND_GEU = TCG_COND_GEU"
    "tcg_unsigned_cond TCG_COND_LEU = TCG_COND_LEU" "tcg_unsigned_cond TCG_COND_GTU = TCG_COND_GTU"
    by (simp_all add: tcg_unsigned_cond_def TCG_COND_defs)
  have i: "is_unsigned_cond c \<longleftrightarrow> tcg_unsigned_cond c = c" if "c \<noteq> TCG_COND_EQ" "c \<noteq> TCG_COND_NE"
    using assms that by (cases rule: is_comparison_cases) (simp_all add: is_unsigned_cond_def tcg_unsigned_cond_def TCG_COND_defs)
  show ?thesis
    using assms i by (cases rule: is_comparison_cases) (auto simp: h u u64_of_less)
qed

theorem conditions_correct_witness:
  "tcg_cond_holds TCG_COND_LE (u64_of 5 (- 1)) (u64_of 0 0) \<longleftrightarrow>
     tcg_cond_holds TCG_COND_LT (- 1 :: u32) 0 \<or> (- 1 :: u32) = 0 \<and> tcg_cond_holds TCG_COND_LEU (5 :: u32) 0"
proof -
  have "tcg_high_cond TCG_COND_LE = TCG_COND_LT" "tcg_unsigned_cond TCG_COND_LE = TCG_COND_LEU"
    "TCG_COND_LE \<noteq> TCG_COND_EQ" "TCG_COND_LE \<noteq> TCG_COND_NE"
    by (simp_all add: tcg_high_cond_def tcg_unsigned_cond_def TCG_COND_defs)
  then show ?thesis using conditions_correct[of TCG_COND_LE "0 :: u32" 0 5 "- 1" 0 0] by (simp del: cond_holds_simps)
qed

section \<open>Conditions that the optimiser decides\<close>

lemma const_value: "valid s I T \<Longrightarrow> temps_used I t \<Longrightarrow> temp_is_const I t \<Longrightarrow> val (tinfo I t) = T t"
  by (simp add: valid_def known_def temp_is_const_def)

lemma zero_unsigned: "tcg_cond_holds TCG_COND_LTU x 0 \<longleftrightarrow> False" "tcg_cond_holds TCG_COND_GEU x 0 \<longleftrightarrow> True"
  by simp_all

lemma folding_cond:
  assumes v: "valid s I T" and u: "temps_used I x" "temps_used I y" and c: "is_comparison c" and b: "op_bits oc = 32"
  shows "\<exists>t. do_constant_folding_cond I oc x y c = Some t \<and> (t = 2 \<or> t = of_bool (tcg_cond_holds c (T x) (T y)))"
proof -
  consider "temp_is_const I x" "temp_is_const I y" | "\<not> (temp_is_const I x \<and> temp_is_const I y)" "temps_are_copies I x y"
    | "\<not> (temp_is_const I x \<and> temp_is_const I y)" "\<not> temps_are_copies I x y"
    by blast
  then show ?thesis
  proof cases
    case 1
    then show ?thesis using const_value[OF v] u b
      by (simp add: do_constant_folding_cond_def do_constant_folding_cond_32_def fold_cond_w[OF c])
  next
    case 2
    then have "do_constant_folding_cond I oc x y c = map_option of_bool (do_constant_folding_cond_eq c)"
      by (auto simp: do_constant_folding_cond_def)
    then show ?thesis using copies_value[OF v u(1) 2(2)] fold_cond_eq[OF c, of "T x"] by simp
  next
    case 3
    then show ?thesis using const_value[OF v u(2)] by (auto simp: do_constant_folding_cond_def)
  qed
qed

lemma folding_cond2:
  assumes v: "valid s I T" and u: "temps_used I al" "temps_used I ah" "temps_used I bl" "temps_used I bh" and c: "is_comparison c"
  shows "\<exists>t. do_constant_folding_cond2 I (al, ah) (bl, bh) c = Some t \<and>
    (t = 2 \<or> t = of_bool (tcg_cond_holds c (u64_of (T al) (T ah)) (u64_of (T bl) (T bh))))"
proof -
  have "\<exists>t. (if temps_are_copies I al bl \<and> temps_are_copies I ah bh
      then map_option of_bool (do_constant_folding_cond_eq c) else Some (2 :: nat)) = Some t \<and>
    (t = 2 \<or> t = of_bool (tcg_cond_holds c (u64_of (T al) (T ah)) (u64_of (T bl) (T bh))))"
    using copies_value[OF v u(1)] copies_value[OF v u(2)] fold_cond_eq[OF c, of "u64_of (T al) (T ah)"] by auto
  then show ?thesis
    using const_value[OF v] u
    by (auto simp: do_constant_folding_cond2_def do_constant_folding_cond_64_def Let_def u64_of_def[symmetric] fold_cond_w[OF c])
qed

end
