(* ===== verification/Tcg_Simplify.thy ===== *)
theory Tcg_Simplify
  imports Tcg_Cond
begin

text \<open>
  The phases of the optimiser that rewrite one operation keep what it does: propagating copies into its inputs, ordering commutative
  operands, and replacing it by a simpler operation, a move, a constant or nothing.
\<close>

section \<open>Well-formed operations\<close>

text \<open>The operations that a front end may emit on this host; all temporaries of the context.\<close>

definition op_ok :: "TCGOpcode \<Rightarrow> bool" where
  "op_ok oc = (case oc of
     INDEX_op_div2 _ \<Rightarrow> False
   | INDEX_op_divu2 _ \<Rightarrow> False
   | INDEX_op_qemu_ld _ \<Rightarrow> True
   | INDEX_op_qemu_st _ \<Rightarrow> True
   | INDEX_op_muluh ty \<Rightarrow> ty = TCG_TYPE_I32
   | INDEX_op_mulsh ty \<Rightarrow> ty = TCG_TYPE_I32
   | INDEX_op_extrl_i64_i32 \<Rightarrow> False
   | INDEX_op_extrh_i64_i32 \<Rightarrow> False
   | _ \<Rightarrow> def_flags (tcg_op_defs oc) AND TCG_OPF_64BIT = 0)"

text \<open>The position of the condition among the arguments.\<close>

definition cond_arg :: "TCGOpcode \<Rightarrow> nat option" where
  "cond_arg oc = (case oc of
     INDEX_op_brcond _ \<Rightarrow> Some 2 | INDEX_op_setcond _ \<Rightarrow> Some 3 | INDEX_op_movcond _ \<Rightarrow> Some 5
   | INDEX_op_brcond2_i32 \<Rightarrow> Some 4 | INDEX_op_setcond2_i32 \<Rightarrow> Some 5 | _ \<Rightarrow> None)"

definition op_cargs :: "TCGOp \<Rightarrow> nat" where
  "op_cargs op = (if opc op = INDEX_op_call then 2 else nb_cargs (tcg_op_defs (opc op)))"

definition wf_shape :: "TCGOp \<Rightarrow> bool" where
  "wf_shape op \<longleftrightarrow> op_ok (opc op) \<and> op_oargs op + op_iargs op + op_cargs op \<le> length (args op) \<and> deposit_ok op \<and>
     (case cond_arg (opc op) of None \<Rightarrow> True | Some n \<Rightarrow> is_comparison (args op ! n)) \<and>
     (nb_oargs (tcg_op_defs (opc op)) = 2 \<longrightarrow> args op ! 0 \<noteq> args op ! 1)"

definition wf_op :: "TCGContext \<Rightarrow> TCGOp \<Rightarrow> bool" where
  "wf_op s op \<longleftrightarrow> wf_shape op \<and> (\<forall>t \<in> set (take (op_oargs op + op_iargs op) (args op)). t < nb_temps s)"

lemmas shape_simps = arity_simps op_cargs_def cond_arg_def TLADDR_ARGS_def DATA64_ARGS_def

lemmas flag_simps = TCG_IMPL_def IMPL_def TCG_IMPL_mulh_def TCG_MOV_FLAGS_def TCG_OPF_defs DEF_def TCG_TARGET_REG_BITS_def

lemma op_ok_simps [simp]:
  "op_ok INDEX_op_discard" "op_ok INDEX_op_set_label" "op_ok INDEX_op_call" "op_ok INDEX_op_br"
  "op_ok (INDEX_op_mov ty) \<longleftrightarrow> ty = TCG_TYPE_I32" "op_ok (INDEX_op_movi ty) \<longleftrightarrow> ty = TCG_TYPE_I32"
  "op_ok (INDEX_op_setcond ty) \<longleftrightarrow> ty = TCG_TYPE_I32"
  "op_ok (INDEX_op_movcond ty) \<longleftrightarrow> ty = TCG_TYPE_I32" "op_ok (INDEX_op_ld8u ty) \<longleftrightarrow> ty = TCG_TYPE_I32"
  "op_ok (INDEX_op_ld8s ty) \<longleftrightarrow> ty = TCG_TYPE_I32" "op_ok (INDEX_op_ld16u ty) \<longleftrightarrow> ty = TCG_TYPE_I32"
  "op_ok (INDEX_op_ld16s ty) \<longleftrightarrow> ty = TCG_TYPE_I32" "\<not> op_ok INDEX_op_ld32u_i64" "\<not> op_ok INDEX_op_ld32s_i64"
  "op_ok (INDEX_op_ld ty) \<longleftrightarrow> ty = TCG_TYPE_I32" "op_ok (INDEX_op_st8 ty) \<longleftrightarrow> ty = TCG_TYPE_I32"
  "op_ok (INDEX_op_st16 ty) \<longleftrightarrow> ty = TCG_TYPE_I32" "\<not> op_ok INDEX_op_st32_i64"
  "op_ok (INDEX_op_st ty) \<longleftrightarrow> ty = TCG_TYPE_I32" "op_ok (INDEX_op_add ty) \<longleftrightarrow> ty = TCG_TYPE_I32"
  "op_ok (INDEX_op_sub ty) \<longleftrightarrow> ty = TCG_TYPE_I32" "op_ok (INDEX_op_mul ty) \<longleftrightarrow> ty = TCG_TYPE_I32"
  "op_ok (INDEX_op_div ty) \<longleftrightarrow> ty = TCG_TYPE_I32" "op_ok (INDEX_op_divu ty) \<longleftrightarrow> ty = TCG_TYPE_I32"
  "op_ok (INDEX_op_rem ty) \<longleftrightarrow> ty = TCG_TYPE_I32" "op_ok (INDEX_op_remu ty) \<longleftrightarrow> ty = TCG_TYPE_I32"
  "\<not> op_ok (INDEX_op_div2 ty)" "\<not> op_ok (INDEX_op_divu2 ty)" "op_ok (INDEX_op_and ty) \<longleftrightarrow> ty = TCG_TYPE_I32"
  "op_ok (INDEX_op_or ty) \<longleftrightarrow> ty = TCG_TYPE_I32" "op_ok (INDEX_op_xor ty) \<longleftrightarrow> ty = TCG_TYPE_I32"
  "op_ok (INDEX_op_shl ty) \<longleftrightarrow> ty = TCG_TYPE_I32" "op_ok (INDEX_op_shr ty) \<longleftrightarrow> ty = TCG_TYPE_I32"
  "op_ok (INDEX_op_sar ty) \<longleftrightarrow> ty = TCG_TYPE_I32" "op_ok (INDEX_op_rotl ty) \<longleftrightarrow> ty = TCG_TYPE_I32"
  "op_ok (INDEX_op_rotr ty) \<longleftrightarrow> ty = TCG_TYPE_I32" "op_ok (INDEX_op_deposit ty) \<longleftrightarrow> ty = TCG_TYPE_I32"
  "op_ok (INDEX_op_brcond ty) \<longleftrightarrow> ty = TCG_TYPE_I32" "op_ok (INDEX_op_add2 ty) \<longleftrightarrow> ty = TCG_TYPE_I32"
  "op_ok (INDEX_op_sub2 ty) \<longleftrightarrow> ty = TCG_TYPE_I32" "op_ok (INDEX_op_mulu2 ty) \<longleftrightarrow> ty = TCG_TYPE_I32"
  "op_ok (INDEX_op_muls2 ty) \<longleftrightarrow> ty = TCG_TYPE_I32" "op_ok (INDEX_op_muluh ty) \<longleftrightarrow> ty = TCG_TYPE_I32"
  "op_ok (INDEX_op_mulsh ty) \<longleftrightarrow> ty = TCG_TYPE_I32" "op_ok INDEX_op_brcond2_i32" "op_ok INDEX_op_setcond2_i32"
  "op_ok (INDEX_op_ext8s ty) \<longleftrightarrow> ty = TCG_TYPE_I32" "op_ok (INDEX_op_ext16s ty) \<longleftrightarrow> ty = TCG_TYPE_I32"
  "op_ok (INDEX_op_ext8u ty) \<longleftrightarrow> ty = TCG_TYPE_I32" "op_ok (INDEX_op_ext16u ty) \<longleftrightarrow> ty = TCG_TYPE_I32"
  "\<not> op_ok INDEX_op_ext32s_i64" "\<not> op_ok INDEX_op_ext32u_i64"
  "op_ok (INDEX_op_bswap16 ty) \<longleftrightarrow> ty = TCG_TYPE_I32"
  "op_ok (INDEX_op_bswap32 ty) \<longleftrightarrow> ty = TCG_TYPE_I32" "\<not> op_ok INDEX_op_bswap64_i64"
  "op_ok (INDEX_op_not ty) \<longleftrightarrow> ty = TCG_TYPE_I32" "op_ok (INDEX_op_neg ty) \<longleftrightarrow> ty = TCG_TYPE_I32"
  "op_ok (INDEX_op_andc ty) \<longleftrightarrow> ty = TCG_TYPE_I32" "op_ok (INDEX_op_orc ty) \<longleftrightarrow> ty = TCG_TYPE_I32"
  "op_ok (INDEX_op_eqv ty) \<longleftrightarrow> ty = TCG_TYPE_I32" "op_ok (INDEX_op_nand ty) \<longleftrightarrow> ty = TCG_TYPE_I32"
  "op_ok (INDEX_op_nor ty) \<longleftrightarrow> ty = TCG_TYPE_I32" "\<not> op_ok INDEX_op_ext_i32_i64" "\<not> op_ok INDEX_op_extu_i32_i64"
  "\<not> op_ok INDEX_op_extrl_i64_i32" "\<not> op_ok INDEX_op_extrh_i64_i32" "op_ok INDEX_op_insn_start" "op_ok INDEX_op_exit_tb"
  "op_ok INDEX_op_goto_tb" "op_ok (INDEX_op_qemu_ld ty)" "op_ok (INDEX_op_qemu_st ty)"
  by (cases ty; simp add: op_ok_def flag_simps)+

section \<open>Operations with the same operands\<close>

definition same_operands :: "(TCGArg \<Rightarrow> u32) \<Rightarrow> TCGOp \<Rightarrow> TCGOp \<Rightarrow> bool" where
  "same_operands T op op' \<longleftrightarrow> opc op' = opc op \<and> calli op' = calli op \<and> callo op' = callo op \<and> length (args op') = length (args op) \<and>
     (\<forall>n < length (args op). (n < op_oargs op \<or> op_oargs op + op_iargs op \<le> n) \<longrightarrow> args op' ! n = args op ! n) \<and>
     (\<forall>n < op_oargs op + op_iargs op. op_oargs op \<le> n \<longrightarrow> T (args op' ! n) = T (args op ! n))"

lemma same_operands_call:
  assumes "same_operands (tv st) op op'" "opc op = INDEX_op_call" "wf_shape op"
  shows "exec_call H s op' st = exec_call H s op st"
proof -
  have e: "opc op' = opc op" "calli op' = calli op" "callo op' = callo op" "length (args op') = length (args op)"
    and n: "\<And>n. n < length (args op) \<Longrightarrow> n < callo op \<or> callo op + calli op \<le> n \<Longrightarrow> args op' ! n = args op ! n"
    and v: "\<And>n. n < callo op + calli op \<Longrightarrow> callo op \<le> n \<Longrightarrow> tv st (args op' ! n) = tv st (args op ! n)"
    and l: "callo op + calli op + 2 \<le> length (args op)"
    using assms by (auto simp: same_operands_def wf_shape_def op_oargs_def op_iargs_def op_cargs_def)
  have "take (callo op) (args op') = take (callo op) (args op)"
    using e(4) l n by (auto intro!: nth_equalityI)
  moreover have "map (tv st) (take (calli op) (drop (callo op) (args op'))) = map (tv st) (take (calli op) (drop (callo op) (args op)))"
    using e(4) l v by (auto intro!: nth_equalityI)
  moreover have "args op' ! (callo op + calli op) = args op ! (callo op + calli op)"
    "args op' ! (callo op + calli op + 1) = args op ! (callo op + calli op + 1)"
    using n l by auto
  ultimately show ?thesis using e by (simp add: exec_call_def)
qed

lemma same_operands_exec:
  assumes s: "same_operands (tv st) op op'" and w: "wf_shape op"
  shows "exec_op H c op' st = exec_op H c op st"
proof -
  obtain m where e: "opc op' = opc op" and n: "\<And>n. n < m \<Longrightarrow> n < op_oargs op \<or> op_oargs op + op_iargs op \<le> n \<Longrightarrow> args op' ! n = args op ! n"
    and v: "\<And>n. n < op_oargs op + op_iargs op \<Longrightarrow> op_oargs op \<le> n \<Longrightarrow> tv st (args op' ! n) = tv st (args op ! n)"
    and l: "op_oargs op + op_iargs op + op_cargs op \<le> m" and k: "op_ok (opc op)"
    using s w by (auto simp: same_operands_def wf_shape_def)
  show ?thesis
    using l k same_operands_call[OF s _ w]
    by (cases "opc op") (simp_all add: e n v exec_op_def exec_guest_def exec_plain_def op_value_def op_value2_def tcg_unary_def tcg_binary_def
      op_load_def op_store_size_def shape_simps Let_def split: TCGType.splits)
qed

lemma same_operands_shape:
  assumes s: "same_operands T op op'" and w: "wf_shape op"
  shows "wf_shape op'"
proof -
  define m where "m = length (args op)"
  have e: "opc op' = opc op" "op_oargs op' = op_oargs op" "op_iargs op' = op_iargs op" "op_cargs op' = op_cargs op"
      "length (args op') = m" "length (args op) = m"
    using s by (auto simp: same_operands_def op_oargs_def op_iargs_def op_cargs_def m_def)
  have n: "\<And>n. n < m \<Longrightarrow> n < op_oargs op \<or> op_oargs op + op_iargs op \<le> n \<Longrightarrow> args op' ! n = args op ! n"
    using s by (auto simp: same_operands_def m_def)
  show ?thesis
    using w e by (cases "opc op") (simp_all add: wf_shape_def deposit_ok_def n shape_simps split: TCGType.split)
qed

section \<open>Copy propagation\<close>

lemma copy_prop_same:
  assumes v: "valid s I T" and u: "args_used I op" and w: "wf_shape op"
  shows "same_operands T op (opt_copy_prop c I op)"
proof -
  have l: "op_oargs op + op_iargs op \<le> length (args op)" using w by (simp add: wf_shape_def)
  have "T (args (opt_copy_prop c I op) ! n) = T (args op ! n)" if "n < op_oargs op + op_iargs op" "op_oargs op \<le> n" for n
    using that l better_copy_value[OF v, of "args op ! n" c] u
    by (auto simp: opt_copy_prop_def Let_def nth_append args_used_def min_def)
  then show ?thesis using l by (auto simp: same_operands_def opt_copy_prop_def Let_def nth_append min_def)
qed

lemma copy_prop_used:
  assumes v: "valid s I T" and u: "args_used I op" and w: "wf_shape op"
  shows "args_used I (opt_copy_prop c I op)"
proof -
  have l: "op_oargs op + op_iargs op \<le> length (args op)" using w by (simp add: wf_shape_def)
  have e: "op_oargs (opt_copy_prop c I op) = op_oargs op" "op_iargs (opt_copy_prop c I op) = op_iargs op"
    by (simp_all add: op_oargs_def op_iargs_def)
  have "temps_used I (args (opt_copy_prop c I op) ! n)" if "n < op_oargs op + op_iargs op" for n
    using that l better_copy_value[OF v, of "args op ! n" c] u
    by (auto simp: opt_copy_prop_def Let_def nth_append args_used_def min_def)
  then show ?thesis by (simp add: args_used_def e)
qed

section \<open>Commutative operands\<close>

definition swaps :: "opt_info \<Rightarrow> TCGArg \<Rightarrow> nat \<Rightarrow> nat \<Rightarrow> TCGArg list \<Rightarrow> bool" where
  "swaps I d i j a \<longleftrightarrow> fst (swap_commutative I d (a ! i) (a ! j))"

definition swaps2 :: "opt_info \<Rightarrow> nat \<Rightarrow> nat \<Rightarrow> TCGArg list \<Rightarrow> bool" where
  "swaps2 I i j a \<longleftrightarrow> fst (swap_commutative2 I (a ! i, a ! (i + 1)) (a ! j, a ! (j + 1)))"

lemma swap_args_eq: "swap_args I d i j f a = (if swaps I d i j a then f (a[i := a ! j, j := a ! i]) else a)"
  unfolding swap_args_def swaps_def swap_commutative_def Let_def by simp

lemma swap_args2_eq:
  "swap_args2 I 0 2 f a = (if swaps2 I 0 2 a then f (a[0 := a ! 2, 1 := a ! 3, 2 := a ! 0, 3 := a ! 1]) else a)"
  "swap_args2 I (Suc 0) 3 f a = (if swaps2 I 1 3 a then f (a[1 := a ! 3, 2 := a ! 4, 3 := a ! 1, 4 := a ! 2]) else a)"
  unfolding swap_args2_def swaps2_def swap_commutative2_def Let_def by (simp_all add: numeral_Bit0 numeral_Bit1)

lemmas commute_simps = and.commute or.commute xor.commute add.commute mult.commute

lemma u64_of_add: "u64_of a b + u64_of c d = word_of_int ((uint b + uint d) * 2 ^ 32 + (uint a + uint c))"
proof -
  have "u64_of a b + u64_of c d = word_of_int (uint (u64_of a b) + uint (u64_of c d))" by simp
  also have "uint (u64_of a b) + uint (u64_of c d) = (uint b + uint d) * 2 ^ 32 + (uint a + uint c)"
    by (simp add: uint_u64_of algebra_simps)
  finally show ?thesis .
qed

lemma u64_of_add_swap: "u64_of a d + u64_of c b = u64_of a b + u64_of c d" "u64_of c b + u64_of a d = u64_of a b + u64_of c d"
  by (simp_all only: u64_of_add add.commute)

lemma commute_exec:
  assumes "wf_shape op"
  shows "exec_op H c (opt_commute I op) st = exec_op H c op st"
proof -
  obtain m where l: "op_oargs op + op_iargs op + op_cargs op \<le> m" "length (args op) = m" and k: "op_ok (opc op)"
    and c: "case cond_arg (opc op) of None \<Rightarrow> True | Some n \<Rightarrow> is_comparison (args op ! n)"
    using assms by (auto simp: wf_shape_def)
  show ?thesis
    using l k c
    by (cases "opc op") (auto simp: opt_commute_def swap_args_eq swap_args2_eq exec_op_def exec_plain_def op_value_def op_value2_def
      tcg_unary_def tcg_binary_def shape_simps Let_def nth_list_update commute_simps swap_cond_holds invert_cond_holds
      u64_of_add_swap[of _ "tv st (args op ! 5)"] split: TCGType.splits if_splits)
qed

lemma commute_shape: "wf_shape op \<Longrightarrow> wf_shape (opt_commute I op)"
proof -
  assume w: "wf_shape op"
  obtain m where l: "op_oargs op + op_iargs op + op_cargs op \<le> m" "length (args op) = m" and k: "op_ok (opc op)"
    and c: "case cond_arg (opc op) of None \<Rightarrow> True | Some n \<Rightarrow> is_comparison (args op ! n)"
    using w by (auto simp: wf_shape_def)
  show ?thesis
    using w l k c
    by (cases "opc op") (auto simp: wf_shape_def opt_commute_def swap_args_eq swap_args2_eq deposit_ok_def
        shape_simps Let_def nth_list_update)
qed

lemma commute_used:
  assumes w: "wf_shape op" and u: "args_used I op"
  shows "args_used I (opt_commute I op)"
proof -
  obtain m where l: "op_oargs op + op_iargs op + op_cargs op \<le> m" "length (args op) = m" and k: "op_ok (opc op)"
    using w by (auto simp: wf_shape_def)
  have e: "op_oargs (opt_commute I op) = op_oargs op" "op_iargs (opt_commute I op) = op_iargs op"
    by (simp_all add: op_oargs_def op_iargs_def)
  have n: "\<And>n. n < op_oargs op + op_iargs op \<Longrightarrow> temps_used I (args op ! n)" using u by (simp add: args_used_def)
  show ?thesis
    unfolding args_used_def e using l k n
    by (cases "opc op") (auto simp: opt_commute_def swap_args_eq swap_args2_eq shape_simps Let_def nth_list_update)
qed

end
