(* ===== verification/Tcg_Rewrite.thy ===== *)
theory Tcg_Rewrite
  imports Tcg_Simplify
begin

text \<open>
  Replacing an operation: what it is replaced by does the same, and the optimiser's table is then true of the values after it.
\<close>

section \<open>Simulation of one operation\<close>

fun exec_ops :: "host \<Rightarrow> TCGContext \<Rightarrow> TCGOp list \<Rightarrow> tstate \<Rightarrow> result" where
  "exec_ops H c [] st = Next st"
| "exec_ops H c (op # ops) st = (case exec_op H c op st of Next st' \<Rightarrow> exec_ops H c ops st' | r \<Rightarrow> r)"

definition sim :: "host \<Rightarrow> TCGContext \<Rightarrow> TCGOp \<Rightarrow> tstate \<Rightarrow> TCGOp list \<Rightarrow> opt_info \<Rightarrow> bool" where
  "sim H c op st ops I' \<longleftrightarrow> exec_ops H c ops st = exec_op H c op st \<and>
     (\<forall>st'. exec_op H c op st = Next st' \<longrightarrow> valid c I' (tv st'))"

text \<open>The hypotheses under which the table is used to rewrite an operation.\<close>

definition ready :: "TCGContext \<Rightarrow> opt_info \<Rightarrow> TCGOp \<Rightarrow> tstate \<Rightarrow> bool" where
  "ready c I op st \<longleftrightarrow> valid c I (tv st) \<and> args_used I op \<and> wf_shape op"

lemma readyD:
  assumes "ready c I op st"
  shows "valid c I (tv st)" "args_used I op" "wf_shape op" "op_ok (opc op)" "deposit_ok op"
  using assms by (auto simp: ready_def wf_shape_def)

lemma set_temp_tv [simp]: "tv (set_temp t v st) = (tv st)(t := v)"
  by (simp add: set_temp_def)

lemma set_temp_same: "tv st t = v \<Longrightarrow> set_temp t v st = st"
  by (auto simp: set_temp_def)

text \<open>An operation that computes one value from its operands.\<close>

lemma exec_pure: "op_value op (tv st) = Some v \<Longrightarrow> exec_op H c op st = Next (set_temp (args op ! 0) v st)"
  by (cases "opc op") (auto simp: exec_op_def exec_plain_def op_value_def tcg_unary_def tcg_binary_def split: TCGType.splits)

lemma pure_shape:
  assumes "op_value op T = Some v" "wf_shape op"
  shows "op_oargs op = 1" "2 \<le> length (args op)" "op_bits (opc op) = 32"
  using assms
  by (cases "opc op"; auto simp: op_value_def tcg_unary_def tcg_binary_def wf_shape_def shape_simps op_bits_def flag_simps
      split: TCGType.splits)+

lemma pure_ready:
  assumes "ready c I op st" "op_value op (tv st) = Some v"
  shows "temps_used I (args op ! 0)" "2 \<le> length (args op)" "op_bits (opc op) = 32"
  using readyD[OF assms(1)] pure_shape[OF assms(2)] by (auto simp: args_used_def)

lemma movi_exec:
  "2 \<le> length a \<Longrightarrow> exec_op H c (op\<lparr>opc := INDEX_op_movi TCG_TYPE_I32, args := a[0 := d, 1 := v]\<rparr>) st = Next (set_temp d v st)"
  by (cases a; cases "tl a") (simp_all add: exec_op_def exec_plain_def op_value_def Let_def)

lemma mov_exec:
  "2 \<le> length a \<Longrightarrow> exec_op H c (op\<lparr>opc := INDEX_op_mov TCG_TYPE_I32, args := a[0 := d, 1 := t]\<rparr>) st = Next (set_temp d (tv st t) st)"
  by (cases a; cases "tl a") (simp_all add: exec_op_def exec_plain_def op_value_def tcg_unary_def Let_def)

lemma sim_movi:
  assumes r: "ready c I op st" and p: "op_value op (tv st) = Some v" and g: "tcg_opt_gen_movi op (args op ! 0) v I = (op', I')"
  shows "sim H c op st [op'] I'"
proof -
  note q = pure_ready[OF r p]
  have "op' = op\<lparr>opc := INDEX_op_movi TCG_TYPE_I32, args := (args op)[0 := args op ! 0, 1 := v]\<rparr>"
    using g q by (auto simp: tcg_opt_gen_movi_def op_to_movi_def Let_def)
  then have "exec_ops H c [op'] st = Next (set_temp (args op ! 0) v st)" 
    using movi_exec[OF q(2), of H c "args op ! 0" v op st] by simp
  moreover have "valid c I' ((tv st)(args op ! 0 := v))" using valid_movi[OF readyD(1)[OF r] q(1) g] .
  ultimately show ?thesis using exec_pure[OF p] by (simp add: sim_def)
qed

lemma sim_mov:
  assumes r: "ready c I op st" and p: "op_value op (tv st) = Some (tv st t)" and u: "temps_used I t"
    and g: "tcg_opt_gen_mov c op (args op ! 0) t I = (ops, I')"
  shows "sim H c op st ops I'"
proof -
  note q = pure_ready[OF r p]
  have "exec_ops H c ops st = Next (set_temp (args op ! 0) (tv st t) st)"
  proof (cases "temps_are_copies I (args op ! 0) t")
    case True
    then show ?thesis using g copies_value[OF readyD(1)[OF r] q(1)] by (simp add: gen_mov_eq set_temp_same)
  next
    case False
    then have "ops = [op\<lparr>opc := INDEX_op_mov TCG_TYPE_I32, args := (args op)[0 := args op ! 0, 1 := t]\<rparr>]"
      using g q by (auto simp: gen_mov_eq op_to_mov_def)
    then show ?thesis using mov_exec[OF q(2), of H c "args op ! 0" t op st] by simp
  qed
  moreover have "valid c I' ((tv st)(args op ! 0 := tv st t))" using valid_gen_mov[OF readyD(1)[OF r] u q(1) g] .
  ultimately show ?thesis using exec_pure[OF p] by (simp add: sim_def)
qed

text \<open>Another operation with the same value, about which nothing but a mask is recorded.\<close>

lemma sim_same_value:
  assumes r: "ready c I op st" and p: "op_value op (tv st) = Some v" and p': "op_value op' (tv st) = Some v"
    and a: "args op' ! 0 = args op ! 0" and m: "within v m"
  shows "sim H c op st [op'] (upd_info (args op ! 0) (tmask_update (\<lambda>_. m)) (reset_temp (args op ! 0) I))"
  using valid_reset_mask[OF readyD(1)[OF r] pure_ready(1)[OF r p] m] exec_pure[OF p] exec_pure[OF p'] a by (simp add: sim_def)

lemma sim_same_value_reset:
  assumes r: "ready c I op st" and p: "op_value op (tv st) = Some v" and p': "op_value op' (tv st) = Some v"
    and a: "args op' ! 0 = args op ! 0"
  shows "sim H c op st [op'] (reset_temp (args op ! 0) I)"
  using valid_reset[OF readyD(1)[OF r] pure_ready(1)[OF r p]] exec_pure[OF p] exec_pure[OF p'] a by (simp add: sim_def)

section \<open>The simplifications\<close>

lemma arg_const:
  assumes "ready c I op st" "n < op_oargs op + op_iargs op" "const_is I (args op ! n) v"
  shows "tv st (args op ! n) = v"
  using const_is_known[OF readyD(1,2)[OF assms(1)] assms(2,3)] .

lemma arg_used: "ready c I op st \<Longrightarrow> n < op_oargs op + op_iargs op \<Longrightarrow> temps_used I (args op ! n)"
  by (simp add: ready_def args_used_def)

lemma try_not_sim:
  assumes r: "ready c I op st" and p: "op_value op (tv st) = Some (NOT (tv st (args op ! i)))" and t: "try_not I op i = Some (ops, I')"
  shows "sim H c op st ops I'"
proof -
  have "def_flags (tcg_op_defs (opc op)) AND TCG_OPF_64BIT = 0"
    using pure_ready(3)[OF r p] by (simp add: op_bits_def split: if_splits)
  then have o: "ops = [op\<lparr>opc := INDEX_op_not TCG_TYPE_I32, args := (args op)[1 := args op ! i]\<rparr>]" "I' = reset_temp (args op ! 0) I"
    using t by (auto simp: try_not_def TCG_TARGET_HAS_not_def Let_def)
  show ?thesis
    unfolding o using pure_ready(2)[OF r p]
    by (intro sim_same_value_reset[OF r p]) (simp_all add: op_value_def tcg_unary_def)
qed

lemma rot_zero [simp]: "word_rotl n (0 :: u32) = 0" "word_rotr n (0 :: u32) = 0" "word_rotl 0 x = x" "word_rotr 0 (x :: u32) = x" for x :: u32
  by (auto intro!: bit_word_eqI simp: bit_word_rotl_iff bit_word_rotr_iff)

text \<open>The operations of a phase, by what they compute.\<close>

lemma value_shift_zero:
  "opc op \<in> {INDEX_op_shl TCG_TYPE_I32, INDEX_op_shr TCG_TYPE_I32, INDEX_op_sar TCG_TYPE_I32, INDEX_op_rotl TCG_TYPE_I32,
     INDEX_op_rotr TCG_TYPE_I32} \<Longrightarrow> T (args op ! 1) = 0 \<Longrightarrow> op_value op T = Some 0"
  by (auto simp: op_value_def tcg_unary_def tcg_binary_def)

lemma value_not:
  "opc op \<in> {INDEX_op_xor TCG_TYPE_I32, INDEX_op_nand TCG_TYPE_I32} \<Longrightarrow> T (args op ! 2) = - 1 \<Longrightarrow>
     op_value op T = Some (NOT (T (args op ! 1)))"
  "opc op = INDEX_op_nor TCG_TYPE_I32 \<Longrightarrow> T (args op ! 2) = 0 \<Longrightarrow> op_value op T = Some (NOT (T (args op ! 1)))"
  "opc op = INDEX_op_andc TCG_TYPE_I32 \<Longrightarrow> T (args op ! 1) = - 1 \<Longrightarrow> op_value op T = Some (NOT (T (args op ! 2)))"
  "opc op \<in> {INDEX_op_orc TCG_TYPE_I32, INDEX_op_eqv TCG_TYPE_I32} \<Longrightarrow> T (args op ! 1) = 0 \<Longrightarrow>
     op_value op T = Some (NOT (T (args op ! 2)))"
  by (auto simp: op_value_def tcg_unary_def tcg_binary_def)

lemma binary_args:
  assumes "ready c I op st" "opc op \<in> {INDEX_op_shl TCG_TYPE_I32, INDEX_op_shr TCG_TYPE_I32, INDEX_op_sar TCG_TYPE_I32,
      INDEX_op_rotl TCG_TYPE_I32, INDEX_op_rotr TCG_TYPE_I32, INDEX_op_sub TCG_TYPE_I32, INDEX_op_add TCG_TYPE_I32,
      INDEX_op_mul TCG_TYPE_I32, INDEX_op_and TCG_TYPE_I32, INDEX_op_or TCG_TYPE_I32, INDEX_op_xor TCG_TYPE_I32,
      INDEX_op_andc TCG_TYPE_I32, INDEX_op_orc TCG_TYPE_I32, INDEX_op_eqv TCG_TYPE_I32, INDEX_op_nand TCG_TYPE_I32,
      INDEX_op_nor TCG_TYPE_I32, INDEX_op_muluh TCG_TYPE_I32, INDEX_op_mulsh TCG_TYPE_I32}"
  shows "op_oargs op + op_iargs op = 3" "\<And>v. const_is I (args op ! 1) v \<Longrightarrow> tv st (args op ! 1) = v"
    "\<And>v. const_is I (args op ! 2) v \<Longrightarrow> tv st (args op ! 2) = v" "temps_used I (args op ! 1)" "temps_used I (args op ! 2)"
proof -
  show n: "op_oargs op + op_iargs op = 3" using assms(2) by (auto simp: arity_simps)
  show "\<And>v. const_is I (args op ! 1) v \<Longrightarrow> tv st (args op ! 1) = v" "\<And>v. const_is I (args op ! 2) v \<Longrightarrow> tv st (args op ! 2) = v"
    using arg_const[OF assms(1)] n by auto
  show "temps_used I (args op ! 1)" "temps_used I (args op ! 2)" using arg_used[OF assms(1)] n by auto
qed

lemma opt_zero_neg_not_sim:
  assumes r: "ready c I op st" and z: "opt_zero_neg_not I op = Some (ops, I')"
  shows "sim H c op st ops I'"
proof -
  have ok: "op_ok (opc op)" using readyD(4)[OF r] .
  then consider
      (shift) op' where "opc op \<in> {INDEX_op_shl TCG_TYPE_I32, INDEX_op_shr TCG_TYPE_I32, INDEX_op_sar TCG_TYPE_I32, INDEX_op_rotl TCG_TYPE_I32,
          INDEX_op_rotr TCG_TYPE_I32}" "const_is I (args op ! 1) 0" "tcg_opt_gen_movi op (args op ! 0) 0 I = (op', I')" "ops = [op']"
    | (neg) "opc op = INDEX_op_sub TCG_TYPE_I32" "opt_sub_neg I op TCG_TYPE_I32 = Some (ops, I')"
    | (not1) "opc op \<in> {INDEX_op_xor TCG_TYPE_I32, INDEX_op_nand TCG_TYPE_I32}" "const_is I (args op ! 2) (- 1)" "try_not I op 1 = Some (ops, I')"
    | (not2) "opc op = INDEX_op_nor TCG_TYPE_I32" "const_is I (args op ! 2) 0" "try_not I op 1 = Some (ops, I')"
    | (not3) "opc op = INDEX_op_andc TCG_TYPE_I32" "const_is I (args op ! 1) (- 1)" "try_not I op 2 = Some (ops, I')"
    | (not4) "opc op \<in> {INDEX_op_orc TCG_TYPE_I32, INDEX_op_eqv TCG_TYPE_I32}" "const_is I (args op ! 1) 0" "try_not I op 2 = Some (ops, I')"
    using z by (cases "opc op") (auto simp: opt_zero_neg_not_def Let_def split: if_splits prod.splits)
  then show ?thesis
  proof cases
    case shift
    then show ?thesis using sim_movi[OF r _ shift(3)] value_shift_zero[of op "tv st"] binary_args(2)[OF r, of 0] by auto
  next
    case neg
    have k: "const_is I (args op ! 1) 0" and o: "ops = [op\<lparr>opc := INDEX_op_neg TCG_TYPE_I32, args := (args op)[1 := args op ! 2]\<rparr>]"
        "I' = reset_temp (args op ! 0) I"
      using neg(2) by (auto simp: opt_sub_neg_def Let_def split: if_splits)
    have "op_value op (tv st) = Some (- tv st (args op ! 2))"
      using neg(1) binary_args(2)[OF r _ k] by (simp add: op_value_def tcg_unary_def tcg_binary_def)
    then show ?thesis unfolding o using pure_ready(2)[OF r]
      by (intro sim_same_value_reset[OF r]) (auto simp: op_value_def tcg_unary_def)
  next
    case not1
    then show ?thesis using try_not_sim[OF r _ not1(3)] value_not(1)[of op "tv st"] binary_args(3)[OF r] by auto
  next
    case not2
    then show ?thesis using try_not_sim[OF r _ not2(3)] value_not(2)[of op "tv st"] binary_args(3)[OF r] by auto
  next
    case not3
    then show ?thesis using try_not_sim[OF r _ not3(3)] value_not(3)[of op "tv st"] binary_args(2)[OF r] by auto
  next
    case not4
    then show ?thesis using try_not_sim[OF r _ not4(3)] value_not(4)[of op "tv st"] binary_args(2)[OF r] by auto
  qed
qed

lemma opt_mov_const_sim:
  assumes r: "ready c I op st" and z: "opt_mov_const c I op = Some (ops, I')"
  shows "sim H c op st ops I'"
proof -
  have ok: "op_ok (opc op)" using readyD(4)[OF r] .
  then consider
      (zero) "opc op \<in> {INDEX_op_add TCG_TYPE_I32, INDEX_op_sub TCG_TYPE_I32, INDEX_op_shl TCG_TYPE_I32, INDEX_op_shr TCG_TYPE_I32,
          INDEX_op_sar TCG_TYPE_I32, INDEX_op_rotl TCG_TYPE_I32, INDEX_op_rotr TCG_TYPE_I32, INDEX_op_or TCG_TYPE_I32,
          INDEX_op_xor TCG_TYPE_I32, INDEX_op_andc TCG_TYPE_I32}" "const_is I (args op ! 2) 0"
        "tcg_opt_gen_mov c op (args op ! 0) (args op ! 1) I = (ops, I')"
    | (ones) "opc op \<in> {INDEX_op_and TCG_TYPE_I32, INDEX_op_orc TCG_TYPE_I32, INDEX_op_eqv TCG_TYPE_I32}" "const_is I (args op ! 2) (- 1)"
        "tcg_opt_gen_mov c op (args op ! 0) (args op ! 1) I = (ops, I')"
    using z by (cases "opc op") (auto simp: opt_mov_const_def Let_def split: if_splits)
  then show ?thesis
  proof cases
    case zero
    then have "tv st (args op ! 2) = 0" "temps_used I (args op ! 1)" using binary_args(3,4)[OF r] by auto
    moreover from this zero(1) have "op_value op (tv st) = Some (tv st (args op ! 1))"
      by (auto simp: op_value_def tcg_unary_def tcg_binary_def)
    ultimately show ?thesis using sim_mov[OF r _ _ zero(3)] by blast
  next
    case ones
    then have "tv st (args op ! 2) = - 1" "temps_used I (args op ! 1)" using binary_args(3,4)[OF r] by auto
    moreover from this ones(1) have "op_value op (tv st) = Some (tv st (args op ! 1))"
      by (auto simp: op_value_def tcg_unary_def tcg_binary_def)
    ultimately show ?thesis using sim_mov[OF r _ _ ones(3)] by blast
  qed
qed

lemma and_word_ones [simp]: "(x :: u32) AND 0xffffffff = x" and or_word_zero [simp]: "(x :: u32) OR NOT 0xffffffff = x"
proof -
  have e: "(0xffffffff :: u32) = - 1" by simp
  show "x AND 0xffffffff = x" "x OR NOT 0xffffffff = x" unfolding e by simp_all
qed

lemma opt_partmasks_eq: "opt_masks I op = (mk, aff) \<Longrightarrow> opt_partmasks I op = (mk, mk, aff)"
  by (simp only: opt_partmasks_def prod.case and_word_ones or_word_zero Let_def split: if_split) simp

text \<open>Only an operation that computes a value is found constant, or a copy, from its masks.\<close>

lemma impure_masks:
  assumes "op_value op T = None" "op_ok (opc op)" "opt_masks I op = (mk, aff)"
  shows "mk \<noteq> 0 \<and> aff \<noteq> 0"
proof (cases "\<exists>ty. opc op = INDEX_op_qemu_ld ty")
  case True
  then show ?thesis using guest_load_masks[OF _ assms(3)] by blast
next
  case False
  then show ?thesis
    using assms by (cases "opc op") (auto simp: op_value_def opt_masks_def tcg_unary_def tcg_binary_def Let_def)
qed

lemma opt_known_bits_sim:
  assumes r: "ready c I op st" and z: "opt_known_bits c I op = Some (ops, I')"
  shows "sim H c op st ops I'"
proof -
  obtain mk aff where m: "opt_masks I op = (mk, aff)" by fastforce
  have p: "opt_partmasks I op = (mk, mk, aff)" using opt_partmasks_eq[OF m] .
  have "mk = 0 \<or> aff = 0" using z by (auto simp: opt_known_bits_def p Let_def split: if_splits)
  then obtain v where v: "op_value op (tv st) = Some v" using impure_masks[OF _ readyD(4)[OF r] m] by (cases "op_value op (tv st)") auto
  have w: "within v mk" "aff = 0 \<Longrightarrow> v = tv st (args op ! 1)"
    using opt_masks_value[OF readyD(1,2,5)[OF r] v m] by auto
  show ?thesis
  proof (cases "mk = 0")
    case True
    then obtain op' where "tcg_opt_gen_movi op (args op ! 0) 0 I = (op', I')" "ops = [op']"
      using z by (auto simp: opt_known_bits_def p Let_def split: prod.splits)
    moreover have "v = 0" using w(1) True by simp
    ultimately show ?thesis using sim_movi[OF r] v by blast
  next
    case False
    then have a: "aff = 0" "tcg_opt_gen_mov c op (args op ! 0) (args op ! 1) I = (ops, I')"
      using z by (auto simp: opt_known_bits_def p Let_def split: if_splits)
    have "op_iargs op \<noteq> 0"
      using m a(1) readyD(4)[OF r] by (cases "opc op") (auto simp: opt_masks_def arity_simps Let_def split: if_splits)
    then have "temps_used I (args op ! 1)" using arg_used[OF r, of 1] pure_shape(1)[OF v readyD(3)[OF r]] by simp
    then show ?thesis using sim_mov[OF r _ _ a(2)] v w(2)[OF a(1)] by blast
  qed
qed

lemma opt_absorb_sim:
  assumes r: "ready c I op st" and z: "opt_absorb c I op = Some (ops, I')"
  shows "sim H c op st ops I'"
proof -
  have ok: "op_ok (opc op)" using readyD(4)[OF r] .
  then consider
      (zero) op' where "opc op \<in> {INDEX_op_and TCG_TYPE_I32, INDEX_op_mul TCG_TYPE_I32, INDEX_op_muluh TCG_TYPE_I32, INDEX_op_mulsh TCG_TYPE_I32}"
        "const_is I (args op ! 2) 0" "tcg_opt_gen_movi op (args op ! 0) 0 I = (op', I')" "ops = [op']"
    | (copy) "opc op \<in> {INDEX_op_and TCG_TYPE_I32, INDEX_op_or TCG_TYPE_I32}" "temps_are_copies I (args op ! 1) (args op ! 2)"
        "tcg_opt_gen_mov c op (args op ! 0) (args op ! 1) I = (ops, I')"
    | (cancel) op' where "opc op \<in> {INDEX_op_andc TCG_TYPE_I32, INDEX_op_sub TCG_TYPE_I32, INDEX_op_xor TCG_TYPE_I32}"
        "temps_are_copies I (args op ! 1) (args op ! 2)" "tcg_opt_gen_movi op (args op ! 0) 0 I = (op', I')" "ops = [op']"
    using z by (cases "opc op") (auto simp: opt_absorb_def Let_def split: if_splits prod.splits)
  then show ?thesis
  proof cases
    case zero
    then have "tv st (args op ! 2) = 0" using binary_args(3)[OF r] by auto
    with zero(1) have "op_value op (tv st) = Some 0" by (auto simp: op_value_def tcg_unary_def tcg_binary_def)
    then show ?thesis using sim_movi[OF r _ zero(3)] zero(4) by blast
  next
    case copy
    then have u: "temps_used I (args op ! 1)" using binary_args(4)[OF r] by auto
    have "tv st (args op ! 1) = tv st (args op ! 2)" using copies_value[OF readyD(1)[OF r] u copy(2)] .
    with copy(1) have "op_value op (tv st) = Some (tv st (args op ! 1))" by (auto simp: op_value_def tcg_unary_def tcg_binary_def)
    then show ?thesis using sim_mov[OF r _ u copy(3)] by blast
  next
    case cancel
    then have u: "temps_used I (args op ! 1)" using binary_args(4)[OF r] by auto
    have "tv st (args op ! 1) = tv st (args op ! 2)" using copies_value[OF readyD(1)[OF r] u cancel(2)] .
    with cancel(1) have "op_value op (tv st) = Some 0" by (auto simp: op_value_def tcg_unary_def tcg_binary_def)
    then show ?thesis using sim_movi[OF r _ cancel(3)] cancel(4) by blast
  qed
qed

end
