(* ===== verification/Tcg_Switch.thy ===== *)
theory Tcg_Switch
  imports Tcg_Rewrite
begin

text \<open>
  The main switch of the optimiser: every case replaces the operation by one that does the same and leaves the table true of the values
  after it, or keeps the operation and forgets what it changes.
\<close>

section \<open>Forgetting what an operation writes\<close>

lemma valid_unused:
  assumes "valid s I T" "\<not> temps_used I t"
  shows "valid s I (T(t := v))"
proof -
  have "next_copy (tinfo I u) \<noteq> t" if "temps_used I u" for u
    using assms linkedD(1)[of I u] that by (auto simp: valid_def)
  then show ?thesis using assms by (auto simp: valid_def known_def)
qed

lemma last_update:
  fixes f :: "nat \<Rightarrow> TCGArg" and T T' :: "TCGArg \<Rightarrow> u32"
  assumes "\<And>t. t \<notin> f ` {..<Suc n} \<Longrightarrow> T' t = T t"
  obtains T'' where "T' = T''(f n := T' (f n))" "\<And>t. t \<notin> f ` {..<n} \<Longrightarrow> T'' t = T t" "\<And>t. t \<in> f ` {..<n} \<Longrightarrow> T'' t = T' t"
proof
  let ?T = "if f n \<in> f ` {..<n} then T' else T'(f n := T (f n))"
  show "T' = ?T(f n := T' (f n))" by auto
  show "?T t = T' t" if "t \<in> f ` {..<n}" for t using that by (cases "t = f n") simp_all
  show "?T t = T t" if "t \<notin> f ` {..<n}" for t
  proof (cases "t = f n")
    case False
    then have "t \<notin> f ` {..<Suc n}" using that by (auto simp: less_Suc_eq)
    then show ?thesis using assms False by simp
  qed (use that in simp)
qed

lemma valid_reset_outputs:
  assumes v: "valid s I T" and u: "\<And>i. i < n \<Longrightarrow> temps_used I (a ! i)"
    and w: "0 < n \<Longrightarrow> within (T' (a ! 0)) mk" and e: "\<And>t. t \<notin> (!) a ` {..<n} \<Longrightarrow> T' t = T t"
  shows "valid s (fold (\<lambda>i I. let t = a ! i; I = reset_temp t I in if i = 0 then upd_info t (tmask_update (\<lambda>_. mk)) I else I) [0..<n] I) T'
    \<and> temps_used (fold (\<lambda>i I. let t = a ! i; I = reset_temp t I in if i = 0 then upd_info t (tmask_update (\<lambda>_. mk)) I else I) [0..<n] I)
      = temps_used I"
  using u w e
proof (induction n arbitrary: T')
  case 0
  then have "T' = T" by auto
  then show ?case using v by simp
next
  case (Suc n)
  let ?f = "\<lambda>i I. let t = a ! i; I = reset_temp t I in if i = 0 then upd_info t (tmask_update (\<lambda>_. mk)) I else I"
  obtain T'' where T': "T' = T''(a ! n := T' (a ! n))" and out: "\<And>t. t \<notin> (!) a ` {..<n} \<Longrightarrow> T'' t = T t"
      and inn: "\<And>t. t \<in> (!) a ` {..<n} \<Longrightarrow> T'' t = T' t"
    using last_update[of "(!) a" n T' T] Suc.prems(3) by blast
  have "within (T'' (a ! 0)) mk" if "0 < n"
    using Suc.prems(2) inn[of "a ! 0"] that by auto
  then have IH: "valid s (fold ?f [0..<n] I) T''" "temps_used (fold ?f [0..<n] I) = temps_used I"
    using Suc.IH[of T''] Suc.prems(1) out by auto
  have un: "temps_used (fold ?f [0..<n] I) (a ! n)" using IH(2) Suc.prems(1) by simp
  show ?case
  proof (cases "n = 0")
    case True
    then show ?thesis using valid_reset_mask[OF IH(1) un Suc.prems(2)] T' IH(2) by (simp add: Let_def)
  next
    case False
    then show ?thesis using valid_reset[OF IH(1) un, of "T' (a ! n)"] T' IH(2) by (simp add: Let_def)
  qed
qed

lemma valid_reset_globals:
  assumes v: "valid s I T" and e: "\<And>t. t \<notin> of_nat ` {..<n} \<Longrightarrow> T' t = T t"
  shows "valid s (fold (\<lambda>i I. if temps_used I (of_nat i) then reset_temp (of_nat i) I else I) [0..<n] I) T' \<and>
    temps_used (fold (\<lambda>i I. if temps_used I (of_nat i) then reset_temp (of_nat i) I else I) [0..<n] I) = temps_used I"
  using e
proof (induction n arbitrary: T')
  case 0
  then have "T' = T" by auto
  then show ?case using v by simp
next
  case (Suc n)
  let ?f = "\<lambda>i I. if temps_used I (of_nat i) then reset_temp (of_nat i) I else I"
  obtain T'' where T': "T' = T''(of_nat n := T' (of_nat n))" and out: "\<And>t. t \<notin> of_nat ` {..<n} \<Longrightarrow> T'' t = T t"
    by (rule last_update[of of_nat n T' T]) (simp_all add: Suc.prems)
  have IH: "valid s (fold ?f [0..<n] I) T''" "temps_used (fold ?f [0..<n] I) = temps_used I" using Suc.IH[of T''] out by auto
  show ?case
    using valid_reset[OF IH(1), of "of_nat n" "T' (of_nat n)"] valid_unused[OF IH(1), of "of_nat n" "T' (of_nat n)"] T' IH(2) by simp
qed

text \<open>An operation that is kept: it writes its outputs only, the first one within the mask.\<close>

definition writes_outputs :: "u32 \<Rightarrow> TCGOp \<Rightarrow> (TCGArg \<Rightarrow> u32) \<Rightarrow> (TCGArg \<Rightarrow> u32) \<Rightarrow> bool" where
  "writes_outputs mk op T T' \<longleftrightarrow> (\<forall>t. t \<notin> (!) (args op) ` {..<op_oargs op} \<longrightarrow> T' t = T t) \<and>
     (0 < op_oargs op \<longrightarrow> within (T' (args op ! 0)) mk)"

lemma reset_outputs_valid:
  assumes "valid s I T" "\<And>i. i < op_oargs op \<Longrightarrow> temps_used I (args op ! i)" "writes_outputs mk op T T'"
  shows "valid s (opt_reset_outputs mk op I) T'"
  using valid_reset_outputs[OF assms(1,2), of "op_oargs op" T' mk] assms(3)
  by (auto simp: opt_reset_outputs_def writes_outputs_def)

lemma default_sim:
  assumes r: "ready c I op st" and d: "opt_default mk op I = Some (ops, again, I')"
    and w: "\<And>st'. exec_op H c op st = Next st' \<Longrightarrow> def_flags (tcg_op_defs (opc op)) AND TCG_OPF_BB_END = 0 \<Longrightarrow>
      writes_outputs mk op (tv st) (tv st')"
  shows "sim H c op st ops I'"
proof -
  have o: "ops = [op]" and I': "I' = (if def_flags (tcg_op_defs (opc op)) AND TCG_OPF_BB_END \<noteq> 0 then reset_all_temps I
      else opt_reset_outputs mk op I)"
    using d by (auto simp: opt_default_def)
  have "exec_ops H c [op] st = exec_op H c op st" by (cases "exec_op H c op st") simp_all
  moreover have "valid c I' (tv st')" if "exec_op H c op st = Next st'" for st'
    using w[OF that] reset_outputs_valid[OF readyD(1)[OF r], of op mk "tv st'"] arg_used[OF r] valid_all I' by auto
  ultimately show ?thesis using o by (simp add: sim_def)
qed

lemma pure_writes:
  assumes r: "ready c I op st" and p: "op_value op (tv st) = Some v" and m: "opt_masks I op = (mk, aff)"
  shows "exec_op H c op st = Next st' \<Longrightarrow> writes_outputs mk op (tv st) (tv st')"
  using opt_masks_value[OF readyD(1,2,5)[OF r] p m] exec_pure[OF p] pure_shape(1)[OF p readyD(3)[OF r]]
  by (auto simp: writes_outputs_def)

lemma pure_default_sim:
  assumes "ready c I op st" "op_value op (tv st) = Some v" "opt_masks I op = (mk, aff)" "opt_default mk op I = Some (ops, again, I')"
  shows "sim H c op st ops I'"
  using default_sim[OF assms(1,4)] pure_writes[OF assms(1-3)] by blast

section \<open>Operations that are not folded\<close>

lemma impure_writes:
  assumes r: "ready c I op st" and p: "op_value op (tv st) = None" and m: "opt_masks I op = (mk, aff)"
    and n: "opc op \<noteq> INDEX_op_call" and x: "exec_op H c op st = Next st'"
  shows "writes_outputs mk op (tv st) (tv st')"
proof (cases "\<exists>ty. opc op = INDEX_op_qemu_ld ty")
  case True
  then obtain ty where q: "opc op = INDEX_op_qemu_ld ty" ..
  have g: "within (ucast (guest_load (get_memop (args op ! 3)) k y)) mk" if "ty = TCG_TYPE_I64" for k y
    using guest_load_masks[OF q m, of k y] q that by (simp add: arity_simps TLADDR_ARGS_def DATA64_ARGS_def)
  have g': "within (ucast (guest_load (get_memop (args op ! 2)) k y)) mk" if "ty = TCG_TYPE_I32" for k y
    using guest_load_masks[OF q m, of k y] q that by (simp add: arity_simps TLADDR_ARGS_def numeral_2_eq_2)
  show ?thesis
    using g g' x q readyD(3)[OF r]
    by (cases ty) (auto simp: exec_op_def exec_guest_def writes_outputs_def wf_shape_def arity_simps DATA64_ARGS_def Let_def
        lessThan_nat_numeral lessThan_Suc split: if_splits)
next
  case False
  have l: "writes_outputs mk op (tv st) (tv (set_temp (args op ! 0) q st))" if "op_load (opc op) (mem st) y = Some q" for y q
    using load_masks[OF that m] that
    by (cases "opc op") (auto simp: op_load_def writes_outputs_def arity_simps split: TCGType.splits)
  show ?thesis
    using x False n p readyD(4)[OF r] m l
    by (cases "opc op") (auto simp: exec_op_def exec_plain_def exec_guest_def op_value_def op_value2_def tcg_unary_def tcg_binary_def
        op_load_def op_store_size_def writes_outputs_def opt_masks_def arity_simps TLADDR_ARGS_def DATA64_ARGS_def Let_def
        lessThan_nat_numeral lessThan_Suc split: if_splits TCGType.splits)
qed

lemma fold_upd_other:
  "t \<notin> fst ` set xs \<Longrightarrow> fold (\<lambda>(t, r) T. T(t := r)) xs T t = T t"
  by (induction xs arbitrary: T) auto

lemma call_sim:
  assumes r: "ready c I op st" and o: "opc op = INDEX_op_call" and m: "opt_masks I op = (mk, aff)"
    and z: "opt_call c mk op I = Some (ops, again, I')"
  shows "sim H c op st ops I'"
proof -
  let ?flag = "args op ! (callo op + calli op + 1) AND (TCG_CALL_NO_READ_GLOBALS OR TCG_CALL_NO_WRITE_GLOBALS) = 0"
  define J where "J = (if ?flag then fold (\<lambda>i I. if temps_used I (of_nat i) then reset_temp (of_nat i) I else I) [0..<unat (nb_globals c)] I else I)"
  have n: "op_oargs op = callo op" "op_iargs op = calli op" using o by (simp_all add: op_oargs_def op_iargs_def)
  have I': "ops = [op]" "I' = opt_reset_outputs mk op J" using z by (auto simp: opt_call_def J_def n Let_def)
  have mk: "mk = - 1" using m o by (simp add: opt_masks_def Let_def)
  have "valid c I' (tv st')" if x: "exec_op H c op st = Next st'" for st'
  proof -
    obtain g rets where T: "tv st' = fold (\<lambda>(t, r) T. T(t := r)) (zip (take (callo op) (args op)) rets)
        (\<lambda>t. if ?flag \<and> t < nb_globals c then g t else tv st t)"
      using x o by (auto simp: exec_op_def exec_call_def Let_def split: option.splits)
    define T0 where "T0 = (\<lambda>t. if ?flag \<and> t < nb_globals c then g t else tv st t)"
    have "valid c J T0 \<and> temps_used J = temps_used I"
    proof (cases ?flag)
      case True
      have "T0 t = tv st t" if "t \<notin> of_nat ` {..<unat (nb_globals c)}" for t
      proof -
        have "\<not> t < nb_globals c" using that by (auto simp: image_iff word_less_nat_alt dest: bspec[of _ _ "unat t"])
        then show ?thesis by (simp add: T0_def)
      qed
      then show ?thesis using valid_reset_globals[OF readyD(1)[OF r], of "unat (nb_globals c)" T0] True by (simp add: J_def)
    next
      case False
      then have "T0 = tv st" by (auto simp: T0_def)
      then show ?thesis using False readyD(1)[OF r] by (auto simp: J_def)
    qed
    moreover have "writes_outputs mk op T0 (tv st')"
    proof -
      have "tv st' t = T0 t" if "t \<notin> (!) (args op) ` {..<callo op}" for t
      proof -
        have "fst ` set (zip (take (callo op) (args op)) rets) \<subseteq> (!) (args op) ` {..<callo op}"
          by (auto simp: in_set_conv_nth dest!: set_zip_leftD)
        then show ?thesis unfolding T T0_def[symmetric] using that by (intro fold_upd_other) blast
      qed
      then show ?thesis by (auto simp: writes_outputs_def n mk)
    qed
    ultimately show ?thesis
      unfolding I' using reset_outputs_valid[of c J T0 op mk "tv st'"] arg_used[OF r] n by auto
  qed
  moreover have "exec_ops H c [op] st = exec_op H c op st" by (cases "exec_op H c op st") simp_all
  ultimately show ?thesis unfolding I' by (simp add: sim_def I')
qed

section \<open>Folding\<close>

lemma emit_movi_sim:
  assumes "ready c I op st" "op_value op (tv st) = Some v" "emit_movi op v I = Some (ops, again, I')"
  shows "sim H c op st ops I'"
  using sim_movi[OF assms(1,2)] assms(3) by (auto simp: emit_movi_def split: prod.splits)

lemma emit_mov_sim:
  assumes "ready c I op st" "op_value op (tv st) = Some (tv st t)" "temps_used I t" "emit_mov c op t I = Some (ops, again, I')"
  shows "sim H c op st ops I'"
  using sim_mov[OF assms(1-3)] assms(4) by (auto simp: emit_mov_def split: prod.splits)

lemma arg_val:
  assumes "ready c I op st" "n < op_oargs op + op_iargs op" "temp_is_const I (args op ! n)"
  shows "val (tinfo I (args op ! n)) = tv st (args op ! n)"
  using const_value[OF readyD(1)[OF assms(1)] arg_used[OF assms(1,2)] assms(3)] .

lemma unary_sim:
  assumes r: "ready c I op st" and f: "folds_unary (opc op)" and m: "opt_masks I op = (mk, aff)"
    and z: "opt_unary mk op I = Some (ops, again, I')"
  shows "sim H c op st ops I'"
proof -
  obtain v where v: "tcg_unary (opc op) (tv st (args op ! 1)) = Some v" using f by (auto simp: folds_unary_def tcg_unary_def)
  then have p: "op_value op (tv st) = Some v" using f by (auto simp: folds_unary_def op_value_def)
  have n: "1 < op_oargs op + op_iargs op" using f by (auto simp: folds_unary_def arity_simps)
  show ?thesis
  proof (cases "temp_is_const I (args op ! 1)")
    case True
    then have "do_constant_folding (opc op) (val (tinfo I (args op ! 1))) 0 = Some v"
      using fold_unary[OF f] arg_val[OF r n] v by simp
    then show ?thesis using z True emit_movi_sim[OF r p] by (simp add: opt_unary_def)
  next
    case False
    then show ?thesis using z pure_default_sim[OF r p m] by (simp add: opt_unary_def)
  qed
qed

lemma binary_sim:
  assumes r: "ready c I op st" and v: "tcg_binary (opc op) (tv st (args op ! 1)) (tv st (args op ! 2)) = Some v"
    and m: "opt_masks I op = (mk, aff)" and z: "opt_binary mk op I = Some (ops, again, I')"
  shows "sim H c op st ops I'"
proof -
  have p: "op_value op (tv st) = Some v"
    using v by (cases "opc op") (auto simp: op_value_def tcg_unary_def tcg_binary_def split: TCGType.splits)
  have n: "1 < op_oargs op + op_iargs op" "2 < op_oargs op + op_iargs op"
    using v by (cases "opc op"; auto simp: tcg_binary_def arity_simps)+
  show ?thesis
  proof (cases "temp_is_const I (args op ! 1) \<and> temp_is_const I (args op ! 2)")
    case True
    then have "do_constant_folding (opc op) (val (tinfo I (args op ! 1))) (val (tinfo I (args op ! 2))) = Some v"
      using fold_binary[OF v] arg_val[OF r n(1)] arg_val[OF r n(2)] by simp
    then show ?thesis using z True emit_movi_sim[OF r p] by (simp add: opt_binary_def)
  next
    case False
    then show ?thesis using z pure_default_sim[OF r p m] by (auto simp: opt_binary_def)
  qed
qed

lemma deposit_narrow: "p + l \<le> 32 \<Longrightarrow> ucast (deposit64 (ucast x) p l (ucast y)) = deposit32 x p l y"
  by (rule bit_word_eqI) (auto simp: bit_deposit32 bit_deposit64 bit_simps)

lemma deposit_sim:
  assumes r: "ready c I op st" and o: "opc op = INDEX_op_deposit TCG_TYPE_I32" and m: "opt_masks I op = (mk, aff)"
    and z: "opt_deposit mk op I = Some (ops, again, I')"
  shows "sim H c op st ops I'"
proof -
  have p: "op_value op (tv st) = Some (deposit32 (tv st (args op ! 1)) (unat (args op ! 3)) (unat (args op ! 4)) (tv st (args op ! 2)))"
    using o by (simp add: op_value_def Let_def)
  have n: "1 < op_oargs op + op_iargs op" "2 < op_oargs op + op_iargs op" using o by (simp_all add: arity_simps)
  have d: "unat (args op ! 3) + unat (args op ! 4) \<le> 32" using readyD(5)[OF r] o by (simp add: deposit_ok_def)
  show ?thesis
  proof (cases "temp_is_const I (args op ! 1) \<and> temp_is_const I (args op ! 2)")
    case True
    then show ?thesis using z emit_movi_sim[OF r p] arg_val[OF r n(1)] arg_val[OF r n(2)] deposit_narrow[OF d]
      by (simp add: opt_deposit_def Let_def)
  next
    case False
    then show ?thesis using z pure_default_sim[OF r p m] by (auto simp: opt_deposit_def Let_def)
  qed
qed

section \<open>Comparisons\<close>

lemma cond_arg_ok:
  assumes "ready c I op st" "cond_arg (opc op) = Some n"
  shows "is_comparison (args op ! n)"
  using readyD(3)[OF assms(1)] assms(2) by (simp add: wf_shape_def)

lemma folded_cond:
  assumes r: "ready c I op st" and n: "i < op_oargs op + op_iargs op" "j < op_oargs op + op_iargs op" and k: "is_comparison k"
    and b: "op_bits oc = 32"
  obtains t where "do_constant_folding_cond I oc (args op ! i) (args op ! j) k = Some t"
    "t = 2 \<or> t = of_bool (tcg_cond_holds k (tv st (args op ! i)) (tv st (args op ! j)))"
  using folding_cond[OF readyD(1)[OF r] arg_used[OF r n(1)] arg_used[OF r n(2)] k b] by blast

lemma op_bits_cond [simp]: "op_bits (INDEX_op_setcond TCG_TYPE_I32) = 32" "op_bits (INDEX_op_brcond TCG_TYPE_I32) = 32"
  "op_bits (INDEX_op_movcond TCG_TYPE_I32) = 32"
  by (simp_all add: op_bits_def flag_simps)

lemma setcond_sim:
  assumes r: "ready c I op st" and o: "opc op = INDEX_op_setcond TCG_TYPE_I32" and m: "opt_masks I op = (mk, aff)"
    and z: "opt_setcond mk op I = Some (ops, again, I')"
  shows "sim H c op st ops I'"
proof -
  have p: "op_value op (tv st) = Some (of_bool (tcg_cond_holds (args op ! 3) (tv st (args op ! 1)) (tv st (args op ! 2))))"
    using o by (simp add: op_value_def Let_def)
  obtain t where t: "do_constant_folding_cond I (opc op) (args op ! 1) (args op ! 2) (args op ! 3) = Some t"
    "t = 2 \<or> t = of_bool (tcg_cond_holds (args op ! 3) (tv st (args op ! 1)) (tv st (args op ! 2)))"
    by (rule folded_cond[OF r, of 1 2 "args op ! 3" "opc op"]) (use o cond_arg_ok[OF r] in \<open>auto simp: shape_simps\<close>)
  show ?thesis
  proof (cases "t = 2")
    case True
    then show ?thesis using z t pure_default_sim[OF r p m] by (simp add: opt_setcond_def Let_def)
  next
    case False
    then show ?thesis using z t emit_movi_sim[OF r p] by (simp add: opt_setcond_def Let_def)
  qed
qed

lemma movcond_sim:
  assumes r: "ready c I op st" and o: "opc op = INDEX_op_movcond TCG_TYPE_I32" and m: "opt_masks I op = (mk, aff)"
    and z: "opt_movcond c mk op I = Some (ops, again, I')"
  shows "sim H c op st ops I'"
proof -
  let ?P = "tcg_cond_holds (args op ! 5) (tv st (args op ! 1)) (tv st (args op ! 2))"
  have p: "op_value op (tv st) = Some (tv st (args op ! (4 - of_bool ?P)))"
    using o by (simp add: op_value_def Let_def)
  obtain t where t: "do_constant_folding_cond I (opc op) (args op ! 1) (args op ! 2) (args op ! 5) = Some t" "t = 2 \<or> t = of_bool ?P"
    by (rule folded_cond[OF r, of 1 2 "args op ! 5" "opc op"]) (use o cond_arg_ok[OF r] in \<open>auto simp: shape_simps\<close>)
  show ?thesis
  proof (cases "t = 2")
    case True
    then show ?thesis using z t pure_default_sim[OF r p m] by (simp add: opt_movcond_def Let_def)
  next
    case False
    have "temps_used I (args op ! (4 - of_bool ?P))" by (rule arg_used[OF r]) (simp add: o arity_simps)
    then show ?thesis using False z t emit_mov_sim[OF r p] by (simp add: opt_movcond_def Let_def)
  qed
qed

lemma branch_true_sim:
  assumes "exec_op H c op st = Jump l st" "args op \<noteq> []"
  shows "sim H c op st [op\<lparr>opc := INDEX_op_br, args := (args op)[0 := l]\<rparr>] I'"
  using assms by (cases "args op") (simp_all add: sim_def exec_op_def)

lemma brcond_sim:
  assumes r: "ready c I op st" and o: "opc op = INDEX_op_brcond TCG_TYPE_I32" and z: "opt_brcond mk op I = Some (ops, again, I')"
  shows "sim H c op st ops I'"
proof -
  let ?P = "tcg_cond_holds (args op ! 2) (tv st (args op ! 0)) (tv st (args op ! 1))"
  have x: "exec_op H c op st = (if ?P then Jump (args op ! 3) st else Next st)" using o by (simp add: exec_op_def Let_def)
  have l: "args op \<noteq> []" using readyD(3)[OF r] o by (auto simp: wf_shape_def shape_simps)
  have b: "def_flags (tcg_op_defs (opc op)) AND TCG_OPF_BB_END \<noteq> 0" using o by (simp add: flag_simps)
  obtain t where t: "do_constant_folding_cond I (opc op) (args op ! 0) (args op ! 1) (args op ! 2) = Some t" "t = 2 \<or> t = of_bool ?P"
    by (rule folded_cond[OF r, of 0 1 "args op ! 2" "opc op"]) (use o cond_arg_ok[OF r] in \<open>auto simp: shape_simps\<close>)
  show ?thesis
  proof (cases "t = 2")
    case True
    then show ?thesis using z t default_sim[OF r] b by (simp add: opt_brcond_def Let_def)
  next
    case False
    then show ?thesis
      using z t x branch_true_sim[of H c op st "args op ! 3" I'] l readyD(1)[OF r]
      by (cases ?P) (auto simp: opt_brcond_def Let_def sim_def)
  qed
qed

text \<open>Double words: the cases in which one of the halves decides.\<close>

lemma dword_cond:
  "k = TCG_COND_LT \<or> k = TCG_COND_GE \<Longrightarrow> tcg_cond_holds k (u64_of l h) (u64_of 0 0) \<longleftrightarrow> tcg_cond_holds k h 0"
  "tcg_cond_holds TCG_COND_EQ (u64_of l h) (u64_of l' h') \<longleftrightarrow> l = l' \<and> h = h'"
  "tcg_cond_holds TCG_COND_NE (u64_of l h) (u64_of l' h') \<longleftrightarrow> l \<noteq> l' \<or> h \<noteq> h'"
  by (auto simp: u64_of_less u64_of_eq word_eq_iff_sint[of h 0])

lemma folded_cond2:
  assumes r: "ready c I op st" and n: "i < op_oargs op + op_iargs op" "i' < op_oargs op + op_iargs op" "j < op_oargs op + op_iargs op"
      "j' < op_oargs op + op_iargs op" and k: "is_comparison k"
  shows "\<exists>t. do_constant_folding_cond2 I (args op ! i, args op ! i') (args op ! j, args op ! j') k = Some t \<and>
    (t = 2 \<or> t = of_bool (tcg_cond_holds k (u64_of (tv st (args op ! i)) (tv st (args op ! i'))) (u64_of (tv st (args op ! j)) (tv st (args op ! j')))))"
  using folding_cond2[OF readyD(1)[OF r] arg_used[OF r n(1)] arg_used[OF r n(2)] arg_used[OF r n(3)] arg_used[OF r n(4)] k] .

lemma folded_halves:
  assumes r: "ready c I op st" and b: "op_bits oc = 32" and n: "i < op_oargs op + op_iargs op" "i' < op_oargs op + op_iargs op"
      "j < op_oargs op + op_iargs op" "j' < op_oargs op + op_iargs op"
  obtains e0 e1 n0 n1 where
    "do_constant_folding_cond I oc (args op ! i) (args op ! j) TCG_COND_EQ = Some e0" "e0 = 2 \<or> e0 = of_bool (tv st (args op ! i) = tv st (args op ! j))"
    "do_constant_folding_cond I oc (args op ! i') (args op ! j') TCG_COND_EQ = Some e1" "e1 = 2 \<or> e1 = of_bool (tv st (args op ! i') = tv st (args op ! j'))"
    "do_constant_folding_cond I oc (args op ! i) (args op ! j) TCG_COND_NE = Some n0" "n0 = 2 \<or> n0 = of_bool (tv st (args op ! i) \<noteq> tv st (args op ! j))"
    "do_constant_folding_cond I oc (args op ! i') (args op ! j') TCG_COND_NE = Some n1" "n1 = 2 \<or> n1 = of_bool (tv st (args op ! i') \<noteq> tv st (args op ! j'))"
proof -
  note f = folding_cond[OF readyD(1)[OF r] arg_used[OF r] arg_used[OF r] _ b]
  show ?thesis
    using that f[OF n(1) n(3), of TCG_COND_EQ] f[OF n(2) n(4), of TCG_COND_EQ] f[OF n(1) n(3), of TCG_COND_NE] f[OF n(2) n(4), of TCG_COND_NE]
    by (simp only: is_comparison_simps cond_holds_simps) blast
qed

text \<open>The outcome of the tests on the halves, when the whole is an equality.\<close>

lemma halves_cases:
  assumes "e0 = 2 \<or> e0 = of_bool p" "e1 = 2 \<or> e1 = (of_bool q :: nat)"
  obtains "e0 = 0" "\<not> p" | "e0 = 1" "p" | "e0 = 2" "e1 = 0" "\<not> q" | "e0 = 2" "e1 = 1" "q" | "e0 = 2" "e1 = 2"
  using assms by (cases p; cases q) auto

lemma exec_brcond: "exec_op H c (op\<lparr>opc := INDEX_op_brcond TCG_TYPE_I32, args := b\<rparr>) st =
   (if tcg_cond_holds (b ! 2) (tv st (b ! 0)) (tv st (b ! 1)) then Jump (b ! 3) st else Next st)"
  by (simp add: exec_op_def Let_def)

lemma value_setcond: "op_value (op\<lparr>opc := INDEX_op_setcond TCG_TYPE_I32, args := b\<rparr>) T = Some (of_bool (tcg_cond_holds (b ! 3) (T (b ! 1)) (T (b ! 2))))"
  by (simp add: op_value_def Let_def)

lemma brcond2_sim:
  assumes r: "ready c I op st" and o: "opc op = INDEX_op_brcond2_i32" and z: "opt_brcond2 mk op I = Some (ops, again, I')"
  shows "sim H c op st ops I'"
proof -
  define a v where "a = args op" and "v = (\<lambda>n. tv st (a ! n))"
  let ?P = "tcg_cond_holds (a ! 4) (u64_of (v 0) (v 1)) (u64_of (v 2) (v 3))"
  have x: "exec_op H c op st = (if ?P then Jump (a ! 5) st else Next st)" using o by (simp add: exec_op_def Let_def a_def v_def)
  have l: "6 \<le> length a" "0 < length a" using readyD(3)[OF r] o by (auto simp: wf_shape_def shape_simps a_def)
  then have l': "args op \<noteq> []" by (auto simp: a_def)
  have n: "op_oargs op + op_iargs op = 4" using o by (simp add: arity_simps)
  have b: "def_flags (tcg_op_defs (opc op)) AND TCG_OPF_BB_END \<noteq> 0" using o by (simp add: flag_simps)
  have bt: "?P \<Longrightarrow> sim H c op st [op\<lparr>opc := INDEX_op_br, args := a[0 := a ! 5]\<rparr>] (reset_all_temps I)"
    using branch_true_sim[of H c op st "a ! 5"] x l' by (simp add: a_def)
  have bf: "\<not> ?P \<Longrightarrow> sim H c op st [] I" using x readyD(1)[OF r] by (simp add: sim_def)
  have bh: "?P \<longleftrightarrow> tcg_cond_holds (a ! 4) (v 1) (v 3) \<Longrightarrow> sim H c op st [op\<lparr>opc := INDEX_op_brcond TCG_TYPE_I32,
      args := a[0 := a ! 1, 1 := a ! 3, 2 := a ! 4, 3 := a ! 5]\<rparr>] (reset_all_temps I)"
    using x l by (simp add: sim_def exec_brcond v_def valid_all nth_list_update)
  have bl: "?P \<longleftrightarrow> tcg_cond_holds (a ! 4) (v 0) (v 2) \<Longrightarrow> sim H c op st [op\<lparr>opc := INDEX_op_brcond TCG_TYPE_I32,
      args := a[1 := a ! 2, 2 := a ! 4, 3 := a ! 5]\<rparr>] (reset_all_temps I)"
    using x l by (simp add: sim_def exec_brcond v_def valid_all nth_list_update)
  have bd: "opt_default mk op I = Some (ops, again, I') \<Longrightarrow> sim H c op st ops I'" using default_sim[OF r] b by simp
  have k: "const_is I (a ! n) w \<Longrightarrow> v n = w" if "n < 4" for n w using arg_const[OF r] that n by (simp add: a_def v_def)
  obtain t where t: "do_constant_folding_cond2 I (a ! 0, a ! 1) (a ! 2, a ! 3) (a ! 4) = Some t" "t = 2 \<or> t = of_bool ?P"
    using folded_cond2[OF r, of 0 1 2 3 "a ! 4"] n o cond_arg_ok[OF r, of 4] by (auto simp: cond_arg_def a_def v_def)
  obtain e0 e1 n0 n1 where h:
    "do_constant_folding_cond I (INDEX_op_brcond TCG_TYPE_I32) (a ! 0) (a ! 2) TCG_COND_EQ = Some e0" "e0 = 2 \<or> e0 = of_bool (v 0 = v 2)"
    "do_constant_folding_cond I (INDEX_op_brcond TCG_TYPE_I32) (a ! 1) (a ! 3) TCG_COND_EQ = Some e1" "e1 = 2 \<or> e1 = of_bool (v 1 = v 3)"
    "do_constant_folding_cond I (INDEX_op_brcond TCG_TYPE_I32) (a ! 0) (a ! 2) TCG_COND_NE = Some n0" "n0 = 2 \<or> n0 = of_bool (v 0 \<noteq> v 2)"
    "do_constant_folding_cond I (INDEX_op_brcond TCG_TYPE_I32) (a ! 1) (a ! 3) TCG_COND_NE = Some n1" "n1 = 2 \<or> n1 = of_bool (v 1 \<noteq> v 3)"
    unfolding a_def v_def by (rule folded_halves[OF r, of "INDEX_op_brcond TCG_TYPE_I32" 0 1 2 3]) (simp_all add: n)
  note d = z[unfolded opt_brcond2_def Let_def, folded a_def, unfolded t(1) h option.case]
  consider "t \<noteq> 2" | (lt) "t = 2" "(a ! 4 = TCG_COND_LT \<or> a ! 4 = TCG_COND_GE) \<and> const_is I (a ! 2) 0 \<and> const_is I (a ! 3) 0"
    | (eq) "t = 2" "a ! 4 = TCG_COND_EQ" | (ne) "t = 2" "a ! 4 = TCG_COND_NE"
    | (dflt) "t = 2" "\<not> ((a ! 4 = TCG_COND_LT \<or> a ! 4 = TCG_COND_GE) \<and> const_is I (a ! 2) 0 \<and> const_is I (a ! 3) 0)"
      "a ! 4 \<noteq> TCG_COND_EQ" "a ! 4 \<noteq> TCG_COND_NE" by blast
  then show ?thesis
  proof cases
    case 1
    then show ?thesis using d t(2) bt bf by (auto split: if_splits)
  next
    case lt
    then show ?thesis using d bh k[of 2 0] k[of 3 0] dword_cond(1)[of "a ! 4"] by auto
  next
    case eq
    have ne: "TCG_COND_EQ \<noteq> TCG_COND_LT" "TCG_COND_EQ \<noteq> TCG_COND_GE" by (simp_all add: TCG_COND_defs)
    have P: "?P \<longleftrightarrow> v 0 = v 2 \<and> v 1 = v 3" using eq(2) dword_cond(2) by simp
    show ?thesis using d eq ne P bf bh bl bd by (cases rule: halves_cases[OF h(2,4)]) simp_all
  next
    case ne
    have ne': "TCG_COND_NE \<noteq> TCG_COND_LT" "TCG_COND_NE \<noteq> TCG_COND_GE" "TCG_COND_NE \<noteq> TCG_COND_EQ" by (simp_all add: TCG_COND_defs)
    have P: "?P \<longleftrightarrow> v 0 \<noteq> v 2 \<or> v 1 \<noteq> v 3" using ne(2) dword_cond(3) by simp
    show ?thesis using d ne ne' P bt bh bl bd by (cases rule: halves_cases[OF h(6,8)]) simp_all
  next
    case dflt
    then show ?thesis using d bd by auto
  qed
qed

lemma setcond2_sim:
  assumes r: "ready c I op st" and o: "opc op = INDEX_op_setcond2_i32" and m: "opt_masks I op = (mk, aff)"
    and z: "opt_setcond2 mk op I = Some (ops, again, I')"
  shows "sim H c op st ops I'"
proof -
  define a v where "a = args op" and "v = (\<lambda>n. tv st (a ! n))"
  let ?P = "tcg_cond_holds (a ! 5) (u64_of (v 1) (v 2)) (u64_of (v 3) (v 4))"
  have p: "op_value op (tv st) = Some (of_bool ?P)" using o by (simp add: op_value_def Let_def a_def v_def)
  have l: "6 \<le> length a" "0 < length a" using readyD(3)[OF r] o by (auto simp: wf_shape_def shape_simps a_def)
  have n: "op_oargs op + op_iargs op = 5" using o by (simp add: arity_simps)
  let ?J = "upd_info (a ! 0) (tmask_update (\<lambda>_. 1)) (reset_temp (a ! 0) I)"
  have w: "within (of_bool b :: u32) 1" for b by (cases b) simp_all
  have bc: "emit_movi op (of_nat t) I = Some (ops, again, I') \<Longrightarrow> t = of_bool ?P \<Longrightarrow> sim H c op st ops I'" for t
    using emit_movi_sim[OF r p] by simp
  have bh: "?P \<longleftrightarrow> tcg_cond_holds (a ! 5) (v 2) (v 4) \<Longrightarrow>
      sim H c op st [op\<lparr>opc := INDEX_op_setcond TCG_TYPE_I32, args := a[1 := a ! 2, 2 := a ! 4, 3 := a ! 5]\<rparr>] ?J"
    unfolding a_def using l by (intro sim_same_value[OF r p _ _ w]) (simp_all add: value_setcond v_def a_def)
  have bl: "?P \<longleftrightarrow> tcg_cond_holds (a ! 5) (v 1) (v 3) \<Longrightarrow>
      sim H c op st [op\<lparr>opc := INDEX_op_setcond TCG_TYPE_I32, args := a[2 := a ! 3, 3 := a ! 5]\<rparr>] ?J"
    unfolding a_def using l by (intro sim_same_value[OF r p _ _ w]) (simp_all add: value_setcond v_def a_def)
  have bd: "opt_default mk op I = Some (ops, again, I') \<Longrightarrow> sim H c op st ops I'" using pure_default_sim[OF r p m] .
  have k: "const_is I (a ! n) w \<Longrightarrow> v n = w" if "n < 5" for n w using arg_const[OF r] that n by (simp add: a_def v_def)
  obtain t where t: "do_constant_folding_cond2 I (a ! 1, a ! 2) (a ! 3, a ! 4) (a ! 5) = Some t" "t = 2 \<or> t = of_bool ?P"
    using folded_cond2[OF r, of 1 2 3 4 "a ! 5"] n o cond_arg_ok[OF r, of 5] by (auto simp: cond_arg_def a_def v_def)
  obtain e0 e1 n0 n1 where h:
    "do_constant_folding_cond I (INDEX_op_setcond TCG_TYPE_I32) (a ! 1) (a ! 3) TCG_COND_EQ = Some e0" "e0 = 2 \<or> e0 = of_bool (v 1 = v 3)"
    "do_constant_folding_cond I (INDEX_op_setcond TCG_TYPE_I32) (a ! 2) (a ! 4) TCG_COND_EQ = Some e1" "e1 = 2 \<or> e1 = of_bool (v 2 = v 4)"
    "do_constant_folding_cond I (INDEX_op_setcond TCG_TYPE_I32) (a ! 1) (a ! 3) TCG_COND_NE = Some n0" "n0 = 2 \<or> n0 = of_bool (v 1 \<noteq> v 3)"
    "do_constant_folding_cond I (INDEX_op_setcond TCG_TYPE_I32) (a ! 2) (a ! 4) TCG_COND_NE = Some n1" "n1 = 2 \<or> n1 = of_bool (v 2 \<noteq> v 4)"
    unfolding a_def v_def by (rule folded_halves[OF r, of "INDEX_op_setcond TCG_TYPE_I32" 1 2 3 4]) (simp_all add: n)
  note d = z[unfolded opt_setcond2_def Let_def, folded a_def, unfolded t(1) h option.case]
  consider "t \<noteq> 2" | (lt) "t = 2" "(a ! 5 = TCG_COND_LT \<or> a ! 5 = TCG_COND_GE) \<and> const_is I (a ! 3) 0 \<and> const_is I (a ! 4) 0"
    | (eq) "t = 2" "a ! 5 = TCG_COND_EQ" | (ne) "t = 2" "a ! 5 = TCG_COND_NE"
    | (dflt) "t = 2" "\<not> ((a ! 5 = TCG_COND_LT \<or> a ! 5 = TCG_COND_GE) \<and> const_is I (a ! 3) 0 \<and> const_is I (a ! 4) 0)"
      "a ! 5 \<noteq> TCG_COND_EQ" "a ! 5 \<noteq> TCG_COND_NE" by blast
  then show ?thesis
  proof cases
    case 1
    then show ?thesis using d t(2) bc[of t] by simp
  next
    case lt
    then show ?thesis using d bh k[of 3 0] k[of 4 0] dword_cond(1)[of "a ! 5"] by auto
  next
    case eq
    have ne: "TCG_COND_EQ \<noteq> TCG_COND_LT" "TCG_COND_EQ \<noteq> TCG_COND_GE" by (simp_all add: TCG_COND_defs)
    have P: "?P \<longleftrightarrow> v 1 = v 3 \<and> v 2 = v 4" using eq(2) dword_cond(2) by simp
    show ?thesis using d eq ne P bc[of 0] bh bl bd by (cases rule: halves_cases[OF h(2,4)]) simp_all
  next
    case ne
    have ne': "TCG_COND_NE \<noteq> TCG_COND_LT" "TCG_COND_NE \<noteq> TCG_COND_GE" "TCG_COND_NE \<noteq> TCG_COND_EQ" by (simp_all add: TCG_COND_defs)
    have P: "?P \<longleftrightarrow> v 1 \<noteq> v 3 \<or> v 2 \<noteq> v 4" using ne(2) dword_cond(3) by simp
    have bc1: "?P \<Longrightarrow> emit_movi op 1 I = Some (ops, again, I') \<Longrightarrow> sim H c op st ops I'" using bc[of 1] by simp
    show ?thesis
    proof (cases rule: halves_cases[OF h(6,8)])
      case 1
      then show ?thesis using d ne ne' P bh by simp
    next
      case 2
      then show ?thesis using d ne ne' P bc1 by simp
    next
      case 3
      then show ?thesis using d ne ne' P bl by simp
    next
      case 4
      then show ?thesis using d ne ne' P bc1 by simp
    next
      case 5
      then show ?thesis using d ne ne' bd by simp
    qed
  next
    case dflt
    then show ?thesis using d bd by auto
  qed
qed

end
