(* ===== verification/Tcg_Step.thy ===== *)
theory Tcg_Step
  imports Tcg_Switch
begin

text \<open>
  One operation of a translation block through the whole iteration of the optimiser: what comes out does the same, the iteration
  never aborts on a well-formed operation, and labels come out of labels only.
\<close>

section \<open>One iteration\<close>

lemma opt_fold_sim:
  assumes r: "ready c I op st" and m: "opt_masks I op = (mk, aff)" and z: "opt_fold c mk op I = Some (ops, [], I')"
  shows "sim H c op st ops I'"
proof -
  have D: "sim H c op st ops I'" if d: "opt_default mk op I = Some (ops, [], I')" and n: "opc op \<noteq> INDEX_op_call"
  proof (cases "op_value op (tv st)")
    case None
    show ?thesis using default_sim[OF r d] impure_writes[OF r None m n] by blast
  next
    case (Some v)
    then show ?thesis using pure_default_sim[OF r _ m d] by blast
  qed
  have U: "sim H c op st ops I'" if "opt_unary mk op I = Some (ops, [], I')" "folds_unary (opc op)"
    using unary_sim[OF r that(2) m that(1)] .
  have B: "sim H c op st ops I'" if "opt_binary mk op I = Some (ops, [], I')"
      "tcg_binary (opc op) (tv st (args op ! 1)) (tv st (args op ! 2)) \<noteq> None"
    using binary_sim[OF r _ m that(1)] that(2) by blast
  have W: "opt_default mk op I = Some (ops, [], I')" if "opt_add2 mk op I = Some (ops, [], I') \<or> opt_mulu2 mk op I = Some (ops, [], I')"
    using that by (auto simp: opt_add2_def opt_mulu2_def Let_def split: if_splits dest!: movi2_again)
  have M: "sim H c op st ops I'" if o: "opc op = INDEX_op_mov TCG_TYPE_I32" and e: "emit_mov c op (args op ! 1) I = Some (ops, [], I')"
  proof -
    have "temps_used I (args op ! 1)" by (rule arg_used[OF r]) (simp add: o arity_simps)
    then show ?thesis using emit_mov_sim[OF r _ _ e] o by (simp add: op_value_def tcg_unary_def Let_def)
  qed
  have V: "sim H c op st ops I'" if "opc op = INDEX_op_movi TCG_TYPE_I32" "emit_movi op (args op ! 1) I = Some (ops, [], I')"
    using emit_movi_sim[OF r _ that(2)] that(1) by (simp add: op_value_def Let_def)
  show ?thesis
    using z readyD(4)[OF r] D U B W M V setcond_sim[OF r _ m] movcond_sim[OF r _ m] brcond_sim[OF r] brcond2_sim[OF r] setcond2_sim[OF r _ m]
      call_sim[OF r _ m] deposit_sim[OF r _ m]
    by (cases "opc op") (simp_all add: opt_fold_def folds_unary_def tcg_binary_def split: TCGType.splits)
qed

lemma opt_simplify_sim:
  assumes r: "ready c I op st" and z: "opt_simplify c I op = Some (ops, [], I')"
  shows "sim H c op st ops I'"
proof -
  obtain mk aff where m: "opt_masks I op = (mk, aff)" by fastforce
  have p: "fst (opt_partmasks I op) = mk" using opt_partmasks_eq[OF m] by simp
  show ?thesis
    using z opt_zero_neg_not_sim[OF r] opt_mov_const_sim[OF r] opt_known_bits_sim[OF r] opt_absorb_sim[OF r] opt_fold_sim[OF r m]
    by (auto simp: opt_simplify_def p split: option.splits)
qed

text \<open>The arguments are activated, then copies are propagated and commutative operands ordered.\<close>

lemma init_args_ready:
  assumes v: "valid c I (tv st)" and w: "wf_op c op"
  shows "ready c (opt_init_args op I) op st"
proof -
  let ?ts = "take (op_oargs op + op_iargs op) (args op)"
  have t: "\<forall>t \<in> set ?ts. t < nb_temps c" and l: "op_oargs op + op_iargs op \<le> length (args op)"
    using w by (auto simp: wf_op_def wf_shape_def)
  have "nb_temps c \<le> TCG_CALL_DUMMY_ARG" by (simp add: TCG_CALL_DUMMY_ARG_def)
  then have d: "\<forall>t \<in> set ?ts. \<not> (opc op = INDEX_op_call \<and> t = TCG_CALL_DUMMY_ARG)" using t by auto
  have "valid c (opt_init_args op I) (tv st)"
    unfolding opt_init_args_def using valid_init_fold[OF v t d] .
  moreover have "args_used (opt_init_args op I) op"
    unfolding args_used_def opt_init_args_def used_init_fold[OF d] using l by (auto simp: in_set_conv_nth)
  ultimately show ?thesis using w by (simp add: ready_def wf_op_def)
qed

lemma prepared_ready:
  assumes r: "ready c J op st"
  shows "ready c J (opt_commute J (opt_copy_prop c J op)) st"
    "exec_op H c (opt_commute J (opt_copy_prop c J op)) st = exec_op H c op st"
proof -
  let ?o = "opt_copy_prop c J op"
  have s: "same_operands (tv st) op ?o" using copy_prop_same[OF readyD(1-3)[OF r]] .
  have w: "wf_shape ?o" using same_operands_shape[OF s readyD(3)[OF r]] .
  have u: "args_used J ?o" using copy_prop_used[OF readyD(1-3)[OF r]] .
  show "ready c J (opt_commute J ?o) st" using readyD(1)[OF r] commute_used[OF w u] commute_shape[OF w] by (simp add: ready_def)
  show "exec_op H c (opt_commute J ?o) st = exec_op H c op st"
    using commute_exec[OF w] same_operands_exec[OF s readyD(3)[OF r]] by simp
qed

lemma opt_op_sim:
  assumes v: "valid c I (tv st)" and w: "wf_op c op" and z: "opt_op c I op = Some (ops, [], I')"
  shows "sim H c op st ops I'"
proof -
  let ?J = "opt_init_args op I"
  have r: "ready c ?J op st" using init_args_ready[OF v w] .
  have "sim H c (opt_commute ?J (opt_copy_prop c ?J op)) st ops I'"
    using opt_simplify_sim[OF prepared_ready(1)[OF r]] z by (simp add: opt_op_def Let_def)
  then show ?thesis using prepared_ready(2)[OF r] by (simp add: sim_def)
qed

section \<open>Double-word results\<close>

lemma splits_early:
  assumes "splits_word (opc op)"
  shows "opt_zero_neg_not I op = None" "opt_mov_const c I op = None" "opt_known_bits c I op = None" "opt_absorb c I op = None"
proof -
  show "opt_zero_neg_not I op = None" "opt_mov_const c I op = None" "opt_absorb c I op = None"
    using assms by (auto simp: splits_word_def opt_zero_neg_not_def opt_mov_const_def opt_absorb_def Let_def)
  have "opt_masks I op = (- 1, - 1)" using assms by (auto simp: splits_word_def opt_masks_def Let_def)
  then show "opt_known_bits c I op = None" by (simp add: opt_known_bits_def opt_partmasks_eq Let_def)
qed

lemma split_value:
  assumes r: "ready c J op st" and z: "opt_simplify c J op = Some (ops, again, I')" and a: "again \<noteq> []"
  obtains q where "op_value op (tv st) = None" "op_value2 op (tv st) = Some q" "emit_movi2 op q J = Some (ops, again, I')" "splits_word (opc op)"
proof -
  have s: "splits_word (opc op)" using opt_simplify_done[OF z] a by blast
  then have f: "opt_fold c (fst (opt_partmasks J op)) op J = Some (ops, again, I')"
    using z splits_early[OF s] by (simp add: opt_simplify_def)
  have n: "n < op_oargs op + op_iargs op" if "opc op \<noteq> INDEX_op_mulu2 TCG_TYPE_I32 \<and> n < 6 \<or> n < 4" for n
    using s that by (auto simp: splits_word_def arity_simps)
  note v = arg_val[OF r n]
  obtain q where "op_value2 op (tv st) = Some q" "emit_movi2 op q J = Some (ops, again, I')"
    using f s a v unfolding splits_word_def
    by (auto simp: opt_fold_def opt_add2_def opt_mulu2_def opt_default_def op_value2_def u64_of_def[symmetric] Let_def split: if_splits)
  moreover have "op_value op (tv st) = None" using s by (auto simp: splits_word_def op_value_def tcg_unary_def tcg_binary_def)
  ultimately show ?thesis using s that by blast
qed

text \<open>Visiting the \<^verbatim>\<open>movi\<close> that is left of a split operation.\<close>

lemma revisit_movi:
  assumes o: "opc op = INDEX_op_movi TCG_TYPE_I32" and l: "2 \<le> length (args op)"
  shows "opt_op c I op = emit_movi op (args op ! 1) (init_temp_info (args op ! 0) I)"
proof -
  have n: "op_oargs op = 1" "op_iargs op = 0" using o by (simp_all add: arity_simps)
  have i: "opt_init_args op I = init_temp_info (args op ! 0) I"
    using l by (cases "args op") (simp_all add: opt_init_args_def n o)
  have p: "opt_copy_prop c J op = op" for J by (simp add: opt_copy_prop_def n Let_def)
  have k: "opt_commute J op = op" for J using o by (simp add: opt_commute_def Let_def)
  have m: "opt_masks J op = (- 1, - 1)" for J using o by (simp add: opt_masks_def Let_def)
  show ?thesis
    by (simp add: opt_op_def i p k opt_simplify_def opt_zero_neg_not_def opt_mov_const_def opt_absorb_def opt_known_bits_def
        opt_partmasks_eq[OF m] opt_fold_def o Let_def)
qed

lemma set_temp_commute: "t \<noteq> u \<Longrightarrow> set_temp t x (set_temp u y st) = set_temp u y (set_temp t x st)"
  by (simp add: set_temp_def fun_upd_twist)

lemma movi2_sim:
  assumes r: "ready c J op st" and p: "op_value op (tv st) = None" and q: "op_value2 op (tv st) = Some q"
    and s: "splits_word (opc op)" and e: "emit_movi2 op q J = Some (ops, again, I')"
  obtains op' ops' I'' where "again = [op']" "opt_op c I' op' = Some (ops', [], I'')" "sim H c op st (ops @ ops') I''"
    "opc op' = INDEX_op_movi TCG_TYPE_I32"
proof -
  define a lo hi where "a = args op" and "lo = (ucast q :: u32)" and "hi = (ucast (drop_bit 32 q) :: u32)"
  have l: "2 \<le> length a" and d: "a ! 0 \<noteq> a ! 1" and n: "op_oargs op = 2" "op_bits (opc op) = 32"
    using s readyD(3)[OF r] by (auto simp: splits_word_def wf_shape_def shape_simps a_def op_bits_def flag_simps)
  have u: "temps_used J (a ! 0)" "temps_used J (a ! 1)" using arg_used[OF r] n by (auto simp: a_def)
  let ?op = "op\<lparr>opc := INDEX_op_movi TCG_TYPE_I32, args := a[0 := a ! 0, 1 := lo]\<rparr>"
  let ?op2 = "\<lparr>opc = INDEX_op_movi TCG_TYPE_I32, calli = 0, callo = 0, args = [0, 0]\<rparr>"
  obtain J1 where J1: "tcg_opt_gen_movi op (a ! 0) lo J = (?op, J1)"
    using n by (auto simp: tcg_opt_gen_movi_def op_to_movi_def a_def Let_def)
  obtain op2 J2 where J2: "tcg_opt_gen_movi ?op2 (a ! 1) hi J1 = (op2, J2)" by fastforce
  have op2: "exec_op H c op2 st = Next (set_temp (a ! 1) hi st)" for st
    using J2 movi_exec[of "[0, 0]" H c "a ! 1" hi ?op2 st]
    by (auto simp: tcg_opt_gen_movi_def op_to_movi_def op_bits_def flag_simps Let_def)
  have z: "ops = [op2]" "again = [?op]" "I' = J2"
    using e J1 J2 by (auto simp: emit_movi2_def a_def lo_def hi_def Let_def)
  have u1: "temps_used J1 = temps_used J" "temps_used J2 = temps_used J1"
    using J1 J2 by (auto simp: tcg_opt_gen_movi_def Let_def)
  define T where "T = (tv st)(a ! 0 := lo, a ! 1 := hi)"
  have v2: "valid c J2 T"
    using valid_movi[OF valid_movi[OF readyD(1)[OF r] u(1) J1] _ J2] u u1 by (simp add: T_def)
  obtain op'' J3 where J3: "tcg_opt_gen_movi ?op (a ! 0) lo J2 = (op'', J3)" by fastforce
  have la: "length (a[0 := a ! 0, 1 := lo]) = length a" "a[0 := a ! 0, 1 := lo] ! 0 = a ! 0" "a[0 := a ! 0, 1 := lo] ! 1 = lo"
    using l by simp_all
  have i: "init_temp_info (a ! 0) J2 = J2" using u u1 by (simp add: init_temp_info_def)
  have v: "opt_op c J2 ?op = Some ([op''], [], J3)"
    using revisit_movi[of ?op c J2] la l J3 i by (simp add: emit_movi_def)
  have op'': "exec_op H c op'' st = Next (set_temp (a ! 0) lo st)" for st
    using J3 movi_exec[of "a[0 := a ! 0, 1 := lo]" H c "a ! 0" lo ?op st] l
    by (auto simp: tcg_opt_gen_movi_def op_to_movi_def op_bits_def flag_simps Let_def)
  have x: "exec_op H c op st = Next (set_temp (a ! 1) hi (set_temp (a ! 0) lo st))"
    using s p q by (auto simp: splits_word_def exec_op_def exec_plain_def a_def lo_def hi_def Let_def)
  have "T(a ! 0 := lo) = T" using d by (auto simp: T_def)
  then have "valid c J3 T" using valid_movi[OF v2 _ J3] u u1 by simp
  moreover have "tv (set_temp (a ! 1) hi (set_temp (a ! 0) lo st)) = T" by (simp add: T_def)
  moreover have "exec_ops H c [op2, op''] st = exec_op H c op st" using x op2 op'' set_temp_commute[OF d] by simp
  ultimately have "sim H c op st (ops @ [op'']) J3" using x z by (simp add: sim_def)
  then show ?thesis using that[OF z(2) v[folded z(3)]] by simp
qed

section \<open>One operation of the block\<close>

text \<open>The visits of one operation of the original block, the second visit of a split one included.\<close>

definition opt_step :: "TCGContext \<Rightarrow> opt_info \<Rightarrow> TCGOp \<Rightarrow> (TCGOp list \<times> opt_info) option" where
  "opt_step c I op = (case opt_op c I op of
     None \<Rightarrow> None
   | Some (ops, [], I') \<Rightarrow> Some (ops, I')
   | Some (ops, op' # _, I') \<Rightarrow> (case opt_op c I' op' of None \<Rightarrow> None | Some (ops', _, I'') \<Rightarrow> Some (ops @ ops', I'')))"

lemma op_weight_pos: "0 < op_weight op"
  by (simp add: op_weight_def split: TCGOpcode.split)

lemma again_cases:
  assumes "opt_op c I op = Some (ops, again, I')"
  obtains "again = []" | op' where "again = [op']" "\<And>J ops' again' J'. opt_op c J op' = Some (ops', again', J') \<Longrightarrow> again' = []"
proof -
  obtain J op1 where "opt_simplify c J op1 = Some (ops, again, I')" using assms by (simp add: opt_op_def Let_def)
  then have "again = [] \<or> (\<exists>op'. again = [op'] \<and> op_weight op' = 1)"
    using simplify_again opt_simplify_done by metis
  moreover have "again' = []" if "op_weight op' = 1" "opt_op c J op' = Some (ops', again', J')" for op' J ops' again' J'
    using opt_op_weight[OF that(2)] that(1) op_weight_pos[of "hd again'"] by (cases again') auto
  ultimately show ?thesis using that by blast
qed

lemma opt_loop_step:
  "opt_loop c I (op # ops) = (case opt_step c I op of None \<Rightarrow> None | Some (pre, I') \<Rightarrow> map_option (\<lambda>out. pre @ out) (opt_loop c I' ops))"
proof (cases "opt_op c I op")
  case (Some r)
  obtain before again I' where r: "r = (before, again, I')" by (cases r)
  with Some have z: "opt_op c I op = Some (before, again, I')" by simp
  then show ?thesis
  proof (cases rule: again_cases)
    case 1
    then show ?thesis using z by (simp add: opt_step_def)
  next
    case (2 op')
    show ?thesis
    proof (cases "opt_op c I' op'")
      case None
      then show ?thesis using z 2(1) by (simp add: opt_step_def)
    next
      case (Some q)
      obtain ops' J' where "opt_op c I' op' = Some (ops', [], J')" using Some 2(2) by (cases q) auto
      then show ?thesis using z 2(1) by (cases "opt_loop c J' ops") (simp_all add: opt_step_def)
    qed
  qed
qed (simp add: opt_step_def)

lemma opt_step_sim:
  assumes v: "valid c I (tv st)" and w: "wf_op c op" and z: "opt_step c I op = Some (pre, I')"
  shows "sim H c op st pre I'"
proof -
  obtain ops again J' where o: "opt_op c I op = Some (ops, again, J')" using z by (auto simp: opt_step_def split: option.splits)
  show ?thesis
  proof (cases "again = []")
    case True
    then show ?thesis using opt_op_sim[OF v w] o z by (auto simp: opt_step_def)
  next
    case False
    let ?J = "opt_init_args op I"
    let ?op = "opt_commute ?J (opt_copy_prop c ?J op)"
    note r = init_args_ready[OF v w]
    note r' = prepared_ready(1)[OF r]
    have "opt_simplify c ?J ?op = Some (ops, again, J')" using o by (simp add: opt_op_def Let_def)
    from split_value[OF r' this False] obtain q where "op_value ?op (tv st) = None" "op_value2 ?op (tv st) = Some q"
      "splits_word (opc ?op)" "emit_movi2 ?op q ?J = Some (ops, again, J')" by blast
    from movi2_sim[OF r' this] obtain op' ops' I'' where "again = [op']" "opt_op c J' op' = Some (ops', [], I'')"
      "sim H c ?op st (ops @ ops') I''" by metis
    then show ?thesis using o z prepared_ready(2)[OF r] by (auto simp: opt_step_def sim_def)
  qed
qed

section \<open>The pass never aborts\<close>

lemma copy_prop_shape: "wf_shape op \<Longrightarrow> wf_shape (opt_copy_prop c I op)"
proof (rule same_operands_shape)
  show "wf_shape op \<Longrightarrow> same_operands (\<lambda>_. 0) op (opt_copy_prop c I op)"
    by (auto simp: same_operands_def opt_copy_prop_def wf_shape_def Let_def nth_append min_def)
qed

lemma cond_total:
  assumes "is_comparison k"
  shows "do_constant_folding_cond I oc x y k \<noteq> None" "do_constant_folding_cond2 I p1 p2 k \<noteq> None"
proof -
  have e: "do_constant_folding_cond_eq k \<noteq> None" using fold_cond_eq[OF assms, of "0 :: u32"] by simp
  show "do_constant_folding_cond I oc x y k \<noteq> None"
    using e by (auto simp: do_constant_folding_cond_def do_constant_folding_cond_32_def do_constant_folding_cond_64_def fold_cond_w[OF assms])
  show "do_constant_folding_cond2 I p1 p2 k \<noteq> None"
    using e by (auto simp: do_constant_folding_cond2_def do_constant_folding_cond_64_def fold_cond_w[OF assms] Let_def split: prod.split)
qed

lemma emit_total [simp]: "emit_movi op v I \<noteq> None" "emit_mov s op t I \<noteq> None" "opt_default mk op I \<noteq> None" "emit_movi2 op q I \<noteq> None"
  by (simp_all add: emit_movi_def emit_mov_def opt_default_def emit_movi2_def Let_def split: prod.split)

lemma fold_equality: obtains r where "do_constant_folding_cond I oc x y TCG_COND_EQ = Some r"
  using cond_total(1)[OF is_comparison_simps(1)] by blast

lemma fold_inequality: obtains r where "do_constant_folding_cond I oc x y TCG_COND_NE = Some r"
  using cond_total(1)[OF is_comparison_simps(2)] by blast

lemma if_Some: "x \<noteq> None \<Longrightarrow> y \<noteq> None \<Longrightarrow> (if b then x else y) \<noteq> None"
  by simp

lemma brcond2_total:
  assumes k: "is_comparison (args op ! 4)"
  shows "opt_brcond2 mk op I \<noteq> None"
proof -
  let ?f = "do_constant_folding_cond I (INDEX_op_brcond TCG_TYPE_I32)" and ?a = "args op"
  obtain r where r: "do_constant_folding_cond2 I (?a ! 0, ?a ! 1) (?a ! 2, ?a ! 3) (?a ! 4) = Some r" using cond_total(2)[OF k] by blast
  obtain e0 where e0: "?f (?a ! 0) (?a ! 2) TCG_COND_EQ = Some e0" by (rule fold_equality)
  obtain e1 where e1: "?f (?a ! 1) (?a ! 3) TCG_COND_EQ = Some e1" by (rule fold_equality)
  obtain n0 where n0: "?f (?a ! 0) (?a ! 2) TCG_COND_NE = Some n0" by (rule fold_inequality)
  obtain n1 where n1: "?f (?a ! 1) (?a ! 3) TCG_COND_NE = Some n1" by (rule fold_inequality)
  show ?thesis unfolding opt_brcond2_def Let_def r e0 e1 n0 n1 option.case by (intro if_Some emit_total option.distinct(2))
qed

lemma setcond2_total:
  assumes k: "is_comparison (args op ! 5)"
  shows "opt_setcond2 mk op I \<noteq> None"
proof -
  let ?f = "do_constant_folding_cond I (INDEX_op_setcond TCG_TYPE_I32)" and ?a = "args op"
  obtain r where r: "do_constant_folding_cond2 I (?a ! 1, ?a ! 2) (?a ! 3, ?a ! 4) (?a ! 5) = Some r" using cond_total(2)[OF k] by blast
  obtain e0 where e0: "?f (?a ! 1) (?a ! 3) TCG_COND_EQ = Some e0" by (rule fold_equality)
  obtain e1 where e1: "?f (?a ! 2) (?a ! 4) TCG_COND_EQ = Some e1" by (rule fold_equality)
  obtain n0 where n0: "?f (?a ! 1) (?a ! 3) TCG_COND_NE = Some n0" by (rule fold_inequality)
  obtain n1 where n1: "?f (?a ! 2) (?a ! 4) TCG_COND_NE = Some n1" by (rule fold_inequality)
  show ?thesis unfolding opt_setcond2_def Let_def r e0 e1 n0 n1 option.case by (intro if_Some emit_total option.distinct(2))
qed

lemma comparison_total:
  "is_comparison (args op ! 3) \<Longrightarrow> opt_setcond mk op I \<noteq> None" "is_comparison (args op ! 2) \<Longrightarrow> opt_brcond mk op I \<noteq> None"
  "is_comparison (args op ! 5) \<Longrightarrow> opt_movcond c mk op I \<noteq> None"
  using cond_total(1) by (auto simp: opt_setcond_def opt_brcond_def opt_movcond_def Let_def simp del: not_None_eq split: option.split)

lemma fold_total: "wf_shape op \<Longrightarrow> opt_fold c mk op I \<noteq> None"
proof -
  assume w: "wf_shape op"
  have k: "op_ok (opc op)" using w by (simp add: wf_shape_def)
  have u: "opt_unary mk op I \<noteq> None" if "folds_unary (opc op)"
    using fold_unary[OF that] that by (auto simp: opt_unary_def folds_unary_def tcg_unary_def simp del: not_None_eq split: option.split)
  have b: "opt_binary mk op I \<noteq> None" if "\<And>x y. tcg_binary (opc op) x y \<noteq> None"
  proof -
    have "do_constant_folding (opc op) x y \<noteq> None" for x y using that[of x y] fold_binary[of "opc op" x y] by fastforce
    then show ?thesis unfolding opt_binary_def by (simp del: not_None_eq split: option.split)
  qed
  show ?thesis
    using w k u b comparison_total brcond2_total setcond2_total
    by (cases "opc op") (auto simp: opt_fold_def opt_deposit_def opt_add2_def opt_mulu2_def opt_call_def folds_unary_def tcg_binary_def cond_arg_def wf_shape_def
        Let_def simp del: not_None_eq split: TCGType.split)
qed

lemma opt_op_total: "wf_shape op \<Longrightarrow> opt_op c I op \<noteq> None"
  unfolding opt_op_def opt_simplify_def Let_def
  using fold_total[OF commute_shape[OF copy_prop_shape]] by (auto simp del: not_None_eq split: option.split)

lemma opt_step_total:
  assumes w: "wf_shape op"
  shows "opt_step c I op \<noteq> None"
proof -
  obtain ops again J' where o: "opt_op c I op = Some (ops, again, J')" using opt_op_total[OF w] by (metis not_None_eq prod_cases3)
  then show ?thesis
  proof (cases rule: again_cases)
    case 1
    then show ?thesis using o by (simp add: opt_step_def)
  next
    case (2 op')
    let ?J = "opt_init_args op I"
    let ?op = "opt_commute ?J (opt_copy_prop c ?J op)"
    have s: "opt_simplify c ?J ?op = Some (ops, [op'], J')" using o 2 by (simp add: opt_op_def Let_def)
    have sp: "splits_word (opc ?op)" using opt_simplify_done[OF s] by blast
    have "opt_fold c (fst (opt_partmasks ?J ?op)) ?op ?J = Some (ops, [op'], J')"
      using s splits_early[OF sp] by (simp add: opt_simplify_def)
    then have "\<exists>q. emit_movi2 ?op q ?J = Some (ops, [op'], J')"
      using sp by (auto simp: splits_word_def opt_fold_def opt_add2_def opt_mulu2_def opt_default_def Let_def split: if_splits)
    then have m: "opc op' = INDEX_op_movi TCG_TYPE_I32" "length (args op') = length (args ?op)"
      using sp by (auto simp: emit_movi2_def tcg_opt_gen_movi_def op_to_movi_def splits_word_def op_bits_def flag_simps Let_def)
    have "2 \<le> length (args ?op)"
      using commute_shape[OF copy_prop_shape[OF w], of ?J c ?J] sp by (auto simp: wf_shape_def splits_word_def shape_simps)
    then have "opt_op c J' op' \<noteq> None" using revisit_movi[of op' c J'] m emit_total(1) by simp
    then show ?thesis using o 2 by (auto simp: opt_step_def)
  qed
qed

lemma opt_loop_total: "\<forall>op \<in> set ops. wf_shape op \<Longrightarrow> \<exists>out. opt_loop c I ops = Some out"
proof (induction ops arbitrary: I)
  case (Cons op ops)
  obtain pre J where "opt_step c I op = Some (pre, J)" using opt_step_total[of op c I] Cons.prems by auto
  then show ?case using Cons.IH[of J] Cons.prems by (auto simp: opt_loop_step simp del: opt_loop.simps(2))
qed simp

section \<open>Labels\<close>

definition no_label :: "opt_result \<Rightarrow> bool" where
  "no_label r \<longleftrightarrow> (case r of None \<Rightarrow> True | Some (ops, again, I) \<Rightarrow> \<forall>p \<in> set ops \<union> set again. opc p \<noteq> INDEX_op_set_label)"

lemma no_label_simps [simp]: "no_label None" "no_label (Some ([], [], I))" "no_label (Some ([op], [], I)) \<longleftrightarrow> opc op \<noteq> INDEX_op_set_label"
  by (simp_all add: no_label_def)

lemma mov_not_label [simp]: "op_to_mov oc \<noteq> INDEX_op_set_label" "op_to_movi oc \<noteq> INDEX_op_set_label"
  by (simp_all add: op_to_mov_def op_to_movi_def)

lemma no_label_emit [simp]: "no_label (emit_movi op v I)" "no_label (emit_mov s op t I)" "no_label (emit_movi2 op q I)"
  "opc op \<noteq> INDEX_op_set_label \<Longrightarrow> no_label (opt_default mk op I)"
  by (auto simp: no_label_def emit_movi_def emit_mov_def emit_movi2_def opt_default_def tcg_opt_gen_movi_def gen_mov_eq Let_def split: prod.splits if_splits)

lemma no_label_cond: "opc op \<noteq> INDEX_op_set_label \<Longrightarrow> no_label (opt_setcond mk op I)" "opc op \<noteq> INDEX_op_set_label \<Longrightarrow> no_label (opt_brcond mk op I)"
  "opc op \<noteq> INDEX_op_set_label \<Longrightarrow> no_label (opt_movcond s mk op I)" "opc op \<noteq> INDEX_op_set_label \<Longrightarrow> no_label (opt_brcond2 mk op I)"
  "opc op \<noteq> INDEX_op_set_label \<Longrightarrow> no_label (opt_setcond2 mk op I)"
  unfolding opt_setcond_def opt_brcond_def opt_movcond_def opt_brcond2_def opt_setcond2_def Let_def
  by (simp_all split: option.split)

lemma no_label_fold:
  assumes n: "opc op \<noteq> INDEX_op_set_label"
  shows "no_label (opt_fold s mk op I)"
proof -
  have u: "no_label (opt_unary mk op I)" "no_label (opt_binary mk op I)" "no_label (opt_deposit mk op I)" "no_label (opt_add2 mk op I)"
    "no_label (opt_mulu2 mk op I)" "no_label (opt_call s mk op I)"
    using n by (simp_all add: opt_unary_def opt_binary_def opt_deposit_def opt_add2_def opt_mulu2_def opt_call_def Let_def split: option.split)
  show ?thesis using n u no_label_cond[OF n] by (cases "opc op") (simp_all add: opt_fold_def split: TCGType.split)
qed

lemma no_label_early:
  "opt_zero_neg_not I op = Some (ops, I') \<Longrightarrow> p \<in> set ops \<Longrightarrow> opc p \<noteq> INDEX_op_set_label"
  "opt_mov_const s I op = Some (ops, I') \<Longrightarrow> p \<in> set ops \<Longrightarrow> opc p \<noteq> INDEX_op_set_label"
  "opt_known_bits s I op = Some (ops, I') \<Longrightarrow> p \<in> set ops \<Longrightarrow> opc p \<noteq> INDEX_op_set_label"
  "opt_absorb s I op = Some (ops, I') \<Longrightarrow> p \<in> set ops \<Longrightarrow> opc p \<noteq> INDEX_op_set_label"
proof -
  have g: "\<And>J q v d. opc (fst (tcg_opt_gen_movi q d v J)) \<noteq> INDEX_op_set_label"
    "\<And>J q d t p. p \<in> set (fst (tcg_opt_gen_mov s q d t J)) \<Longrightarrow> opc p \<noteq> INDEX_op_set_label"
    by (auto simp: tcg_opt_gen_movi_def gen_mov_eq Let_def split: if_splits)
  show "opt_known_bits s I op = Some (ops, I') \<Longrightarrow> p \<in> set ops \<Longrightarrow> opc p \<noteq> INDEX_op_set_label"
    using g(1)[of op "args op ! 0" 0 I] g(2)[of p op "args op ! 0" "args op ! 1" I]
    by (auto simp: opt_known_bits_def Let_def split: prod.splits if_splits)
  show "opt_zero_neg_not I op = Some (ops, I') \<Longrightarrow> p \<in> set ops \<Longrightarrow> opc p \<noteq> INDEX_op_set_label"
    using g(1)[of op "args op ! 0" 0 I]
    by (cases "opc op") (auto simp: opt_zero_neg_not_def opt_sub_neg_def try_not_def Let_def split: prod.splits if_splits)
  show "opt_mov_const s I op = Some (ops, I') \<Longrightarrow> p \<in> set ops \<Longrightarrow> opc p \<noteq> INDEX_op_set_label"
    using g(2)[of p op "args op ! 0" "args op ! 1" I]
    by (cases "opc op") (auto simp: opt_mov_const_def Let_def split: prod.splits if_splits)
  show "opt_absorb s I op = Some (ops, I') \<Longrightarrow> p \<in> set ops \<Longrightarrow> opc p \<noteq> INDEX_op_set_label"
    using g(1)[of op "args op ! 0" 0 I] g(2)[of p op "args op ! 0" "args op ! 1" I]
    by (cases "opc op") (auto simp: opt_absorb_def Let_def split: prod.splits if_splits)
qed

end
