(* ===== verification/Tcg_Optimize_Correct.thy ===== *)
theory Tcg_Optimize_Correct
  imports Tcg_Step
begin

text \<open>
  The optimiser keeps what a translation block does: the optimised list of operations ends in the same way, in the same state, as
  the original one, for every behaviour of the helpers and of the guest memory.
\<close>

section \<open>Jumps\<close>

lemma opt_op_no_label:
  assumes z: "opt_op c I op = Some (ops, again, I')" and n: "opc op \<noteq> INDEX_op_set_label" and p: "p \<in> set ops \<union> set again"
  shows "opc p \<noteq> INDEX_op_set_label"
proof -
  obtain J q where s: "opt_simplify c J q = Some (ops, again, I')" and q: "opc q \<noteq> INDEX_op_set_label"
    using z n by (auto simp: opt_op_def Let_def)
  show ?thesis
    using s p no_label_early(1)[of J q] no_label_early(2-4)[of c J q] no_label_fold[OF q, of c "fst (opt_partmasks J q)" J]
    by (auto simp: opt_simplify_def no_label_def split: option.splits)
qed

lemma opt_step_no_label:
  assumes z: "opt_step c I op = Some (pre, I')" and n: "opc op \<noteq> INDEX_op_set_label" and p: "p \<in> set pre"
  shows "opc p \<noteq> INDEX_op_set_label"
proof -
  obtain ops again J where o: "opt_op c I op = Some (ops, again, J)" using z by (auto simp: opt_step_def split: option.splits)
  show ?thesis
    using z o p opt_op_no_label[OF o n] opt_op_no_label[of c J "hd again"]
    by (cases again) (auto simp: opt_step_def split: option.splits)
qed

lemma opt_step_label:
  assumes "opc op = INDEX_op_set_label"
  shows "opt_step c I op = Some ([op], reset_all_temps I)"
proof -
  have n: "op_oargs op = 0" "op_iargs op = 0" using assms by (simp_all add: arity_simps)
  have p: "opt_init_args op I = I" "opt_copy_prop c I op = op" "opt_commute I op = op"
    using assms by (simp_all add: opt_init_args_def opt_copy_prop_def opt_commute_def n Let_def)
  have m: "opt_masks I op = (- 1, - 1)" using assms by (simp add: opt_masks_def Let_def)
  show ?thesis
    by (simp add: opt_step_def opt_op_def p opt_simplify_def opt_zero_neg_not_def opt_mov_const_def opt_absorb_def opt_known_bits_def
        opt_partmasks_eq[OF m] opt_fold_def opt_default_def assms flag_simps Let_def)
qed

lemma find_label_append:
  "(\<And>p. p \<in> set pre \<Longrightarrow> opc p \<noteq> INDEX_op_set_label) \<Longrightarrow> find_label l (pre @ ops) = find_label l ops"
  by (induction pre) auto

lemma find_label_subset: "find_label l prog = Some rest \<Longrightarrow> set rest \<subseteq> set prog"
  by (induction prog) (auto split: if_splits)

text \<open>The code after a label is optimised from an empty table.\<close>

lemma optimized_label:
  assumes "opt_loop c I ops = Some out"
  shows "case find_label l ops of None \<Rightarrow> find_label l out = None
    | Some rest \<Rightarrow> \<exists>J out'. find_label l out = Some out' \<and> opt_loop c (reset_all_temps J) rest = Some out'"
  using assms
proof (induction ops arbitrary: I out)
  case (Cons op ops)
  obtain pre J out' where s: "opt_step c I op = Some (pre, J)" "opt_loop c J ops = Some out'" "out = pre @ out'"
    using Cons.prems by (auto simp: opt_loop_step simp del: opt_loop.simps(2) split: option.splits)
  show ?case
  proof (cases "opc op = INDEX_op_set_label")
    case True
    then have "pre = [op]" "J = reset_all_temps I" using s(1) opt_step_label by auto
    then show ?thesis using Cons.IH[OF s(2)] s True by (auto split: option.splits)
  next
    case False
    then show ?thesis using Cons.IH[OF s(2)] s(3) find_label_append[of pre l out'] opt_step_no_label[OF s(1) False] by (auto split: option.splits)
  qed
qed simp

lemma exec_append:
  "exec H c n prog (pre @ ops) st = (case exec_ops H c pre st of
     Next st' \<Rightarrow> exec H c n prog ops st'
   | Stop r \<Rightarrow> r
   | Jump l st' \<Rightarrow> (case n of 0 \<Rightarrow> No_Fuel
     | Suc m \<Rightarrow> (case find_label l prog of None \<Rightarrow> No_Label | Some rest \<Rightarrow> exec H c m prog rest st')))"
  by (induction pre arbitrary: st) (auto split: result.split)

section \<open>The block\<close>

lemma optimized_exec:
  assumes p: "opt_loop c I0 prog = Some prog'" and w: "\<forall>op \<in> set prog. wf_op c op"
  shows "set ops \<subseteq> set prog \<Longrightarrow> valid c I (tv st) \<Longrightarrow> opt_loop c I ops = Some out \<Longrightarrow>
    exec H c n prog' out st = exec H c n prog ops st"
proof (induction n arbitrary: ops I st out rule: less_induct)
  case (less n)
  show ?case using less.prems
  proof (induction ops arbitrary: I st out)
    case (Cons op ops)
    obtain pre J out' where s: "opt_step c I op = Some (pre, J)" "opt_loop c J ops = Some out'" "out = pre @ out'"
      using Cons.prems by (auto simp: opt_loop_step simp del: opt_loop.simps(2) split: option.splits)
    have "wf_op c op" using Cons.prems(1) w by auto
    then have sim: "exec_ops H c pre st = exec_op H c op st" "\<And>st'. exec_op H c op st = Next st' \<Longrightarrow> valid c J (tv st')"
      using opt_step_sim[OF Cons.prems(2) _ s(1)] by (auto simp: sim_def)
    show ?case
    proof (cases "exec_op H c op st")
      case (Next st')
      then show ?thesis using Cons.IH[OF _ sim(2) s(2)] Cons.prems(1) s(3) sim(1) by (simp add: exec_append)
    next
      case (Jump l st')
      show ?thesis
      proof (cases n)
        case (Suc m)
        then show ?thesis
          using Jump s(3) sim(1) optimized_label[OF p, of l] find_label_subset[of l prog] less.IH[of m _ "reset_all_temps _", OF _ _ valid_all]
          by (auto simp: exec_append split: option.splits)
      qed (simp add: Jump exec_append s(3) sim(1))
    qed (simp add: exec_append s(3) sim(1))
  qed simp
qed

text \<open>
  C1. The optimiser is correct: for every well-formed translation block \<^verbatim>\<open>tcg_optimize\<close> returns (it does not abort and its loop ends), and
  the block it returns does what the original does, from every state, for every behaviour of the helper functions and of the guest memory and every
  number of jumps: it falls off its end, leaves by the same exit, is chained, or raises, with the same values of all temporaries and the same memory.
\<close>

theorem tcg_optimize_correct:
  assumes "\<forall>op \<in> set prog. wf_op c op"
  shows "\<exists>prog'. tcg_optimize c stale prog = Some prog' \<and> (\<forall>H n st. run_block H c n prog' st = run_block H c n prog st)"
proof -
  let ?I = "reset_all_temps \<lparr>tinfo = stale, temps_used = (\<lambda>_. False)\<rparr>"
  obtain prog' where p: "opt_loop c ?I prog = Some prog'" using opt_loop_total[of prog c ?I] assms by (auto simp: wf_op_def)
  have "run_block H c n prog' st = run_block H c n prog st" for H n st
    unfolding run_block_def using optimized_exec[OF p assms subset_refl valid_all p] .
  then show ?thesis using p by (auto simp: tcg_optimize_def)
qed

text \<open>A block with two constants, their sum, and a branch that is decided when the block is translated.\<close>

definition sample_op :: "TCGOpcode \<Rightarrow> TCGArg list \<Rightarrow> TCGOp" where
  "sample_op oc a = \<lparr>opc = oc, calli = 0, callo = 0, args = a\<rparr>"

definition sample_block :: "TCGOp list" where
  "sample_block =
     [sample_op (INDEX_op_movi TCG_TYPE_I32) [2, 5], sample_op (INDEX_op_movi TCG_TYPE_I32) [3, 7],
      sample_op (INDEX_op_add TCG_TYPE_I32) [4, 2, 3], sample_op (INDEX_op_brcond TCG_TYPE_I32) [4, 3, TCG_COND_GTU, 0],
      sample_op (INDEX_op_mov TCG_TYPE_I32) [1, 3], sample_op INDEX_op_set_label [0]]"

lemma sample_block_wf: "\<forall>op \<in> set sample_block. wf_op sample_ctx op"
  by (simp add: sample_block_def sample_op_def sample_ctx_def wf_op_def wf_shape_def shape_simps flag_simps deposit_ok_def is_comparison_def TCG_COND_defs)

lemma sample_block_run:
  "\<exists>st'. run_block H sample_ctx 1 sample_block st = Fell st' \<and> tv st' 4 = 12 \<and> tv st' 1 = tv st 1"
  by (simp add: run_block_def sample_block_def sample_op_def exec_op_def exec_plain_def op_value_def tcg_unary_def tcg_binary_def tcg_cond_holds_def TCG_COND_defs Let_def)

theorem tcg_optimize_correct_witness:
  "list_all (wf_op sample_ctx) sample_block \<and>
   (\<exists>prog'. tcg_optimize sample_ctx (tinfo sample_info) sample_block = Some prog' \<and>
     (\<forall>H st. \<exists>st'. run_block H sample_ctx 1 prog' st = Fell st' \<and> tv st' 4 = 12 \<and> tv st' 1 = tv st 1))"
  using tcg_optimize_correct[OF sample_block_wf, of "tinfo sample_info"] sample_block_wf sample_block_run by (metis list_all_iff)

end
