(* ===== verification/Tcg_Liveness.thy ===== *)
theory Tcg_Liveness
  imports Tcg_Ir
begin

unbundle bit_operations_syntax

text \<open>
  The first liveness pass of \<^verbatim>\<open>tcg/tcg.c\<close>. It visits the operations of a block from the last to the first and keeps for every
  temporary whether its value is dead and whether it is wanted in memory; it removes operations all of whose results
  are dead, replaces double-word operations half of whose result is dead, and records for every operation kept which arguments die in it and which results
  are to be stored. The array \<^verbatim>\<open>temp_state\<close> is a function, the linked list of operations a list; the operations kept are returned
  with their \<^verbatim>\<open>life\<close>.
\<close>

section \<open>States of temporaries\<close>

type_synonym temp_state = "TCGArg \<Rightarrow> u8"

type_synonym TCGLifeData = u16

definition TS_DEAD :: u8 where "TS_DEAD = 1"
definition TS_MEM :: u8 where "TS_MEM = 2"

definition DEAD_ARG :: TCGLifeData where "DEAD_ARG = 4"
definition SYNC_ARG :: TCGLifeData where "SYNC_ARG = 1"

definition IS_DEAD_ARG :: "TCGLifeData \<Rightarrow> nat \<Rightarrow> bool" where "IS_DEAD_ARG arg_life n \<longleftrightarrow> arg_life AND push_bit n DEAD_ARG \<noteq> 0"
definition NEED_SYNC_ARG :: "TCGLifeData \<Rightarrow> nat \<Rightarrow> bool" where "NEED_SYNC_ARG arg_life n \<longleftrightarrow> arg_life AND push_bit n SYNC_ARG \<noteq> 0"

definition tcg_la_func_end :: "TCGContext \<Rightarrow> temp_state \<Rightarrow> temp_state" where
  "tcg_la_func_end s ts = (\<lambda>t. if t < nb_globals s then TS_DEAD OR TS_MEM else if t < nb_temps s then TS_DEAD else ts t)"

definition tcg_la_bb_end :: "TCGContext \<Rightarrow> temp_state \<Rightarrow> temp_state" where
  "tcg_la_bb_end s ts =
     (let ts = tcg_la_func_end s ts
      in (\<lambda>t. if nb_globals s \<le> t \<and> t < nb_temps s \<and> temp_local (temps s t) then ts t OR TS_MEM else ts t))"

section \<open>The parts of the loop body\<close>

text \<open>The globals go to memory and may change, or are only stored.\<close>

definition la_save_globals :: "TCGContext \<Rightarrow> temp_state \<Rightarrow> temp_state" where
  "la_save_globals s ts = (\<lambda>t. if t < nb_globals s then TS_DEAD OR TS_MEM else ts t)"

definition la_sync_globals :: "TCGContext \<Rightarrow> temp_state \<Rightarrow> temp_state" where
  "la_sync_globals s ts = (\<lambda>t. if t < nb_globals s then ts t OR TS_MEM else ts t)"

text \<open>The results are dead before the operation.\<close>

definition la_outputs :: "nat \<Rightarrow> TCGArg list \<Rightarrow> temp_state \<Rightarrow> temp_state \<times> TCGLifeData" where
  "la_outputs no a ts =
     fold (\<lambda>i (ts, arg_life).
         (ts(a ! i := TS_DEAD),
          arg_life OR (if ts (a ! i) AND TS_DEAD \<noteq> 0 then push_bit i DEAD_ARG else 0)
                   OR (if ts (a ! i) AND TS_MEM \<noteq> 0 then push_bit i SYNC_ARG else 0)))
       [0..<no] (ts, 0)"

text \<open>Operands that die in the operation, and operands that are live before it; padding arguments of calls are skipped.\<close>

definition la_dead_inputs :: "(TCGArg \<Rightarrow> bool) \<Rightarrow> nat \<Rightarrow> nat \<Rightarrow> TCGArg list \<Rightarrow> temp_state \<Rightarrow> TCGLifeData \<Rightarrow> TCGLifeData" where
  "la_dead_inputs skip no ni a ts arg_life =
     fold (\<lambda>i arg_life. if \<not> skip (a ! i) \<and> ts (a ! i) AND TS_DEAD \<noteq> 0 then arg_life OR push_bit i DEAD_ARG else arg_life)
       [no..<no + ni] arg_life"

definition la_live_inputs :: "(TCGArg \<Rightarrow> bool) \<Rightarrow> nat \<Rightarrow> nat \<Rightarrow> TCGArg list \<Rightarrow> temp_state \<Rightarrow> temp_state" where
  "la_live_inputs skip no ni a ts =
     fold (\<lambda>i ts. if skip (a ! i) then ts else ts(a ! i := ts (a ! i) AND NOT TS_DEAD)) [no..<no + ni] ts"

definition la_dead :: "nat \<Rightarrow> TCGArg list \<Rightarrow> temp_state \<Rightarrow> bool" where
  "la_dead no a ts \<longleftrightarrow> (\<forall>i \<in> set [0..<no]. ts (a ! i) = TS_DEAD)"

type_synonym la_result = "(TCGOp \<times> TCGLifeData) list \<times> temp_state"

definition la_not_remove :: "TCGContext \<Rightarrow> u32 \<Rightarrow> TCGOp \<Rightarrow> nat \<Rightarrow> nat \<Rightarrow> temp_state \<Rightarrow> la_result" where
  "la_not_remove s fl op no ni ts =
     (let a = args op; (ts, arg_life) = la_outputs no a ts;
          ts = (if fl AND TCG_OPF_BB_END \<noteq> 0 then tcg_la_bb_end s ts
                else if fl AND TCG_OPF_SIDE_EFFECTS \<noteq> 0 then la_sync_globals s ts else ts);
          arg_life = la_dead_inputs (\<lambda>_. False) no ni a ts arg_life
      in ([(op, arg_life)], la_live_inputs (\<lambda>_. False) no ni a ts))"

definition la_call :: "TCGContext \<Rightarrow> TCGOp \<Rightarrow> temp_state \<Rightarrow> la_result" where
  "la_call s op ts =
     (let a = args op; no = callo op; ni = calli op; call_flags = a ! (no + ni + 1)
      in if call_flags AND TCG_CALL_NO_SIDE_EFFECTS \<noteq> 0 \<and> la_dead no a ts then ([], ts)
         else
           let (ts, arg_life) = la_outputs no a ts;
               ts = (if call_flags AND (TCG_CALL_NO_WRITE_GLOBALS OR TCG_CALL_NO_READ_GLOBALS) = 0 then la_save_globals s ts
                     else if call_flags AND TCG_CALL_NO_READ_GLOBALS = 0 then la_sync_globals s ts else ts);
               skip = (\<lambda>arg. arg = TCG_CALL_DUMMY_ARG);
               arg_life = la_dead_inputs skip no ni a ts arg_life
           in ([(op, arg_life)], la_live_inputs skip no ni a ts))"

definition la_addsub2 :: "TCGContext \<Rightarrow> u32 \<Rightarrow> TCGOpcode \<Rightarrow> TCGOp \<Rightarrow> temp_state \<Rightarrow> la_result" where
  "la_addsub2 s fl opc_new op ts =
     (let a = args op
      in if ts (a ! 1) = TS_DEAD
         then if ts (a ! 0) = TS_DEAD then ([], ts)
              else let a = a[1 := a ! 2]; a = a[2 := a ! 4] in la_not_remove s fl (op\<lparr>opc := opc_new, args := a\<rparr>) 1 2 ts
         else la_not_remove s fl op 2 4 ts)"

definition la_mul2 :: "TCGContext \<Rightarrow> u32 \<Rightarrow> TCGOpcode \<Rightarrow> TCGOpcode \<Rightarrow> bool \<Rightarrow> TCGOp \<Rightarrow> temp_state \<Rightarrow> la_result" where
  "la_mul2 s fl opc_new opc_new2 have_opc_new2 op ts =
     (let a = args op
      in if ts (a ! 1) = TS_DEAD
         then if ts (a ! 0) = TS_DEAD then ([], ts)
              else let a = a[1 := a ! 2]; a = a[2 := a ! 3] in la_not_remove s fl (op\<lparr>opc := opc_new, args := a\<rparr>) 1 2 ts
         else if ts (a ! 0) = TS_DEAD \<and> have_opc_new2
         then let a = a[0 := a ! 1]; a = a[1 := a ! 2]; a = a[2 := a ! 3]
              in la_not_remove s fl (op\<lparr>opc := opc_new2, args := a\<rparr>) 1 2 ts
         else la_not_remove s fl op 2 2 ts)"

definition la_default :: "TCGContext \<Rightarrow> TCGOp \<Rightarrow> temp_state \<Rightarrow> la_result" where
  "la_default s op ts =
     (let d = tcg_op_defs (opc op)
      in if def_flags d AND TCG_OPF_SIDE_EFFECTS = 0 \<and> nb_oargs d \<noteq> 0 \<and> la_dead (nb_oargs d) (args op) ts then ([], ts)
         else la_not_remove s (def_flags d) op (nb_oargs d) (nb_iargs d) ts)"

text \<open>The ARM host has no instruction that gives the high half of a product alone, and a 32-bit host none on 64-bit operands.\<close>

definition TCG_TARGET_HAS_muluh :: "TCGType \<Rightarrow> bool" where "TCG_TARGET_HAS_muluh ty = False"
definition TCG_TARGET_HAS_mulsh :: "TCGType \<Rightarrow> bool" where "TCG_TARGET_HAS_mulsh ty = False"

definition la_op :: "TCGContext \<Rightarrow> TCGOp \<Rightarrow> temp_state \<Rightarrow> la_result" where
  "la_op s op ts =
     (let fl = def_flags (tcg_op_defs (opc op))
      in case opc op of
           INDEX_op_call \<Rightarrow> la_call s op ts
         | INDEX_op_insn_start \<Rightarrow> ([(op, 0)], ts)
         | INDEX_op_discard \<Rightarrow> ([(op, 0)], ts(args op ! 0 := TS_DEAD))
         | INDEX_op_add2 ty \<Rightarrow> la_addsub2 s fl (INDEX_op_add ty) op ts
         | INDEX_op_sub2 ty \<Rightarrow> la_addsub2 s fl (INDEX_op_sub ty) op ts
         | INDEX_op_mulu2 ty \<Rightarrow> la_mul2 s fl (INDEX_op_mul ty) (INDEX_op_muluh ty) (TCG_TARGET_HAS_muluh ty) op ts
         | INDEX_op_muls2 ty \<Rightarrow> la_mul2 s fl (INDEX_op_mul ty) (INDEX_op_mulsh ty) (TCG_TARGET_HAS_mulsh ty) op ts
         | _ \<Rightarrow> la_default s op ts)"

section \<open>The pass\<close>

definition liveness_pass_1 :: "TCGContext \<Rightarrow> temp_state \<Rightarrow> TCGOp list \<Rightarrow> la_result" where
  "liveness_pass_1 s stale ops =
     foldr (\<lambda>op (out, ts). let (kept, ts') = la_op s op ts in (kept @ out, ts')) ops ([], tcg_la_func_end s stale)"

end
