(* ===== verification/Tcg_Liveness_Correct.thy ===== *)
theory Tcg_Liveness_Correct
  imports Tcg_Optimize_Correct Tcg_Liveness
begin

unbundle bit_operations_syntax

text \<open>
  The liveness pass keeps what a translation block does to the globals and to memory. At the
  end of a basic block the contents of ordinary temporaries are destroyed, and so is a discarded temporary (\<^verbatim>\<open>tcg/README\<close>);
  a block must not depend on them.
\<close>

section \<open>What can be observed\<close>

definition only_globals :: "TCGContext \<Rightarrow> tstate \<Rightarrow> tstate" where
  "only_globals c st = st\<lparr>tv := (\<lambda>t. if t < nb_globals c then tv st t else 0)\<rparr>"

fun observe :: "TCGContext \<Rightarrow> outcome \<Rightarrow> outcome" where
  "observe c (Fell st) = Fell (only_globals c st)"
| "observe c (Exit v st) = Exit v (only_globals c st)"
| "observe c (Chain n st) = Chain n (only_globals c st)"
| "observe c (Raised st) = Raised (only_globals c st)"
| "observe c r = r"

text \<open>What \<^verbatim>\<open>tcg.h\<close> says of the flags of helpers: one that reads no globals raises no exception, one without side effects does nothing else than return.\<close>

definition helpers_ok :: "host \<Rightarrow> bool" where
  "helpers_ok H \<longleftrightarrow> (\<forall>f fl xs g m.
     (fl AND TCG_CALL_NO_READ_GLOBALS \<noteq> 0 \<longrightarrow> helper H f fl xs g m \<noteq> None) \<and>
     (fl AND TCG_CALL_NO_SIDE_EFFECTS \<noteq> 0 \<longrightarrow> (\<exists>rets. helper H f fl xs g m = Some (rets, g, m))))"

section \<open>Destroyed contents\<close>

definition ordinary :: "TCGContext \<Rightarrow> TCGArg \<Rightarrow> bool" where
  "ordinary c t \<longleftrightarrow> nb_globals c \<le> t \<and> t < nb_temps c \<and> \<not> temp_local (temps c t)"

lemma global_not_ordinary: "t < nb_globals c \<Longrightarrow> \<not> ordinary c t"
  unfolding ordinary_def using leD by blast

definition op_outs :: "TCGOp \<Rightarrow> TCGArg set" where "op_outs op = (!) (args op) ` {..<op_oargs op}"
definition op_ins :: "TCGOp \<Rightarrow> TCGArg set" where "op_ins op = (!) (args op) ` {op_oargs op..<op_oargs op + op_iargs op}"

definition ends_bb :: "TCGOp \<Rightarrow> bool" where
  "ends_bb op \<longleftrightarrow> def_flags (tcg_op_defs (opc op)) AND TCG_OPF_BB_END \<noteq> 0"

definition call_flags :: "TCGOp \<Rightarrow> u32" where "call_flags op = args op ! (callo op + calli op + 1)"

text \<open>Operations that may raise an exception or call a helper that reads the globals.\<close>

definition sees_globals :: "TCGOp \<Rightarrow> bool" where
  "sees_globals op \<longleftrightarrow> def_flags (tcg_op_defs (opc op)) AND TCG_OPF_SIDE_EFFECTS \<noteq> 0 \<or>
     opc op = INDEX_op_call \<and> call_flags op AND TCG_CALL_NO_READ_GLOBALS = 0"

definition destroyed_after :: "TCGContext \<Rightarrow> (TCGArg \<Rightarrow> bool) \<Rightarrow> TCGOp \<Rightarrow> TCGArg \<Rightarrow> bool" where
  "destroyed_after c U op t \<longleftrightarrow>
     (if ends_bb op then ordinary c t else if opc op = INDEX_op_discard then U t \<or> t = args op ! 0 else U t \<and> t \<notin> op_outs op)"

definition reads_kept :: "TCGContext \<Rightarrow> (TCGArg \<Rightarrow> bool) \<Rightarrow> TCGOp \<Rightarrow> bool" where
  "reads_kept c U op \<longleftrightarrow> (\<forall>t \<in> op_ins op. \<not> U t) \<and> (ends_bb op \<longrightarrow> (\<forall>t < nb_temps c. U t \<longrightarrow> ordinary c t)) \<and>
     (sees_globals op \<longrightarrow> (\<forall>t < nb_globals c. \<not> U t))"

fun block_kept :: "TCGContext \<Rightarrow> (TCGArg \<Rightarrow> bool) \<Rightarrow> TCGOp list \<Rightarrow> bool" where
  "block_kept c U [] \<longleftrightarrow> (\<forall>t < nb_globals c. \<not> U t)"
| "block_kept c U (op # ops) \<longleftrightarrow> reads_kept c U op \<and> block_kept c (destroyed_after c U op) ops"

section \<open>The parts of the pass\<close>

lemma la_outputs_state: "fst (la_outputs n a ts) t = (if t \<in> (!) a ` {..<n} then TS_DEAD else ts t)"
  unfolding la_outputs_def by (induction n arbitrary: t) (auto simp: lessThan_Suc split: prod.split)

lemma la_live_state:
  "la_live_inputs skip n m a ts t = (if t \<in> (!) a ` {n..<n + m} \<and> \<not> skip t then ts t AND NOT TS_DEAD else ts t)"
  unfolding la_live_inputs_def by (induction m arbitrary: t) (auto simp: atLeastLessThanSuc ac_simps)

definition la_mid :: "TCGContext \<Rightarrow> TCGOp \<Rightarrow> temp_state \<Rightarrow> temp_state" where
  "la_mid c op ts =
     (if ends_bb op then tcg_la_bb_end c ts
      else if opc op = INDEX_op_call \<and> call_flags op AND (TCG_CALL_NO_WRITE_GLOBALS OR TCG_CALL_NO_READ_GLOBALS) = 0
      then la_save_globals c ts else if sees_globals op then la_sync_globals c ts else ts)"

definition la_before :: "TCGContext \<Rightarrow> TCGOp \<Rightarrow> temp_state \<Rightarrow> temp_state" where
  "la_before c op ts = la_live_inputs (\<lambda>t. opc op = INDEX_op_call \<and> t = TCG_CALL_DUMMY_ARG) (op_oargs op) (op_iargs op) (args op)
     (la_mid c op (fst (la_outputs (op_oargs op) (args op) ts)))"

definition la_life :: "TCGContext \<Rightarrow> TCGOp \<Rightarrow> temp_state \<Rightarrow> TCGLifeData" where
  "la_life c op ts =
     (let (ts, life) = la_outputs (op_oargs op) (args op) ts
      in la_dead_inputs (\<lambda>t. opc op = INDEX_op_call \<and> t = TCG_CALL_DUMMY_ARG) (op_oargs op) (op_iargs op) (args op) (la_mid c op ts) life)"

lemma la_kept:
  assumes "opc op \<noteq> INDEX_op_call"
  shows "la_not_remove c (def_flags (tcg_op_defs (opc op))) op (nb_oargs (tcg_op_defs (opc op))) (nb_iargs (tcg_op_defs (opc op))) ts =
    ([(op, la_life c op ts)], la_before c op ts)"
  using assms
  by (simp add: la_not_remove_def la_life_def la_before_def la_mid_def ends_bb_def sees_globals_def op_oargs_def op_iargs_def Let_def split: prod.split)

lemma la_kept_call:
  assumes "opc op = INDEX_op_call"
  shows "la_call c op ts = (if call_flags op AND TCG_CALL_NO_SIDE_EFFECTS \<noteq> 0 \<and> la_dead (callo op) (args op) ts
    then ([], ts) else ([(op, la_life c op ts)], la_before c op ts))"
  using assms
  by (simp add: la_call_def la_life_def call_flags_def la_before_def la_mid_def ends_bb_def sees_globals_def op_oargs_def op_iargs_def flag_simps Let_def split: prod.split)

text \<open>What is needed before an operation, and what is not.\<close>

lemma or_mem_needed [simp]: "TS_DEAD OR TS_MEM \<noteq> TS_DEAD" "x OR TS_MEM \<noteq> TS_DEAD" "x AND NOT TS_DEAD \<noteq> TS_DEAD"
proof -
  show "x OR TS_MEM \<noteq> TS_DEAD"
  proof
    assume "x OR TS_MEM = TS_DEAD"
    then have "bit (x OR TS_MEM) 1 = bit TS_DEAD 1" by simp
    then show False by (simp add: TS_MEM_def TS_DEAD_def bit_simps)
  qed
  show "x AND NOT TS_DEAD \<noteq> TS_DEAD"
  proof
    assume "x AND NOT TS_DEAD = TS_DEAD"
    then have "bit (x AND NOT TS_DEAD) 0 = bit TS_DEAD 0" by simp
    then show False by (simp add: TS_DEAD_def bit_simps)
  qed
qed (simp add: TS_MEM_def TS_DEAD_def)

lemma bb_end_needed: "t < nb_temps c \<Longrightarrow> tcg_la_bb_end c ts t = TS_DEAD \<longleftrightarrow> ordinary c t"
  by (auto simp: tcg_la_bb_end_def tcg_la_func_end_def ordinary_def Let_def not_less)

lemma and_or_zero: "(x :: u32) AND (a OR b) = 0 \<longleftrightarrow> x AND a = 0 \<and> x AND b = 0"
  by (simp add: bit.conj_disj_distrib or_eq_0_iff)

lemma mid_needed:
  assumes "t < nb_temps c" "nb_globals c \<le> nb_temps c"
  shows "la_mid c op ts t = TS_DEAD \<longleftrightarrow>
    (if ends_bb op then ordinary c t else ts t = TS_DEAD \<and> \<not> (sees_globals op \<and> t < nb_globals c))"
proof -
  have "opc op = INDEX_op_call \<Longrightarrow> call_flags op AND (TCG_CALL_NO_WRITE_GLOBALS OR TCG_CALL_NO_READ_GLOBALS) = 0 \<Longrightarrow> sees_globals op"
    by (simp add: sees_globals_def and_or_zero)
  then show ?thesis using assms by (auto simp: la_mid_def bb_end_needed la_save_globals_def la_sync_globals_def)
qed

lemma before_needed:
  assumes "t < nb_temps c" "nb_globals c \<le> nb_temps c"
  shows "la_before c op ts t = TS_DEAD \<longleftrightarrow> t \<notin> op_ins op \<and>
    (if ends_bb op then ordinary c t else (t \<in> op_outs op \<or> ts t = TS_DEAD) \<and> \<not> (sees_globals op \<and> t < nb_globals c))"
proof -
  have "t \<noteq> TCG_CALL_DUMMY_ARG" using assms(1) by (auto simp: TCG_CALL_DUMMY_ARG_def)
  then show ?thesis
    using mid_needed[OF assms] by (auto simp: la_before_def la_live_state la_outputs_state op_ins_def op_outs_def)
qed

section \<open>An operation in two states\<close>

definition agree :: "TCGContext \<Rightarrow> temp_state \<Rightarrow> tstate \<Rightarrow> tstate \<Rightarrow> bool" where
  "agree c ts st' st \<longleftrightarrow> mem st' = mem st \<and> (\<forall>t < nb_temps c. ts t \<noteq> TS_DEAD \<longrightarrow> tv st' t = tv st t)"

fun related :: "TCGContext \<Rightarrow> temp_state \<Rightarrow> result \<Rightarrow> result \<Rightarrow> bool" where
  "related c ts (Next s') (Next s) \<longleftrightarrow> agree c ts s' s"
| "related c ts (Jump l' s') (Jump l s) \<longleftrightarrow> l' = l \<and> agree c (\<lambda>t. if ordinary c t then TS_DEAD else 0) s' s"
| "related c ts (Stop r') (Stop r) \<longleftrightarrow> observe c r' = observe c r"
| "related c ts _ _ \<longleftrightarrow> False"

fun restate :: "tstate \<Rightarrow> outcome \<Rightarrow> outcome" where
  "restate st (Fell _) = Fell st"
| "restate st (Exit v _) = Exit v st"
| "restate st (Chain n _) = Chain n st"
| "restate st (Raised _) = Raised st"
| "restate st r = r"

text \<open>An operation reads its inputs and memory only and writes its outputs and memory only.\<close>

lemma exec_frame:
  assumes w: "wf_shape op" and n: "opc op \<noteq> INDEX_op_call" "opc op \<noteq> INDEX_op_discard" and e: "\<And>t. t \<in> op_ins op \<Longrightarrow> tv st' t = tv st t" and m: "mem st' = mem st"
  shows "exec_op H c op st' = (case exec_op H c op st of
      Next s \<Rightarrow> Next (st'\<lparr>tv := (\<lambda>t. if t \<in> op_outs op then tv s t else tv st' t), mem := mem s\<rparr>)
    | Jump l s \<Rightarrow> Jump l st' | Stop r \<Rightarrow> Stop (restate st' r))"
proof -
  have v: "op_oargs op \<le> i \<Longrightarrow> i < op_oargs op + op_iargs op \<Longrightarrow> tv st' (args op ! i) = tv st (args op ! i)" for i
    using e by (auto simp: op_ins_def)
  show ?thesis
    using n w unfolding wf_shape_def
    by (cases "opc op") (auto simp: v m exec_op_def exec_guest_def exec_plain_def op_value_def op_value2_def tcg_unary_def tcg_binary_def
      op_load_def op_store_size_def op_outs_def shape_simps set_temp_def lessThan_Suc lessThan_nat_numeral fun_eq_iff Let_def split: TCGType.splits)
qed

text \<open>An operation that writes something and has no other effect.\<close>

lemma exec_removable:
  assumes "wf_shape op" "opc op \<noteq> INDEX_op_call" "nb_oargs (tcg_op_defs (opc op)) \<noteq> 0" "def_flags (tcg_op_defs (opc op)) AND TCG_OPF_SIDE_EFFECTS = 0"
    "opc op \<noteq> INDEX_op_discard"
  shows "\<exists>s. exec_op H c op st = Next s \<and> mem s = mem st \<and> (\<forall>t. t \<notin> op_outs op \<longrightarrow> tv s t = tv st t)"
  using assms unfolding wf_shape_def
  by (cases "opc op") (auto simp: exec_op_def exec_guest_def exec_plain_def op_value_def op_value2_def tcg_unary_def tcg_binary_def
      op_load_def op_store_size_def op_outs_def shape_simps flag_simps set_temp_def lessThan_Suc lessThan_nat_numeral Let_def split: TCGType.splits)

lemma exec_frame_self:
  assumes "wf_shape op" "opc op \<noteq> INDEX_op_call" "opc op \<noteq> INDEX_op_discard"
  shows "exec_op H c op st = Next s \<Longrightarrow> t \<notin> op_outs op \<Longrightarrow> tv s t = tv st t" "exec_op H c op st = Jump l s \<Longrightarrow> s = st"
    "exec_op H c op st = Stop r \<Longrightarrow> restate st r = r"
proof -
  have f: "exec_op H c op st = (case exec_op H c op st of
      Next s \<Rightarrow> Next (st\<lparr>tv := (\<lambda>t. if t \<in> op_outs op then tv s t else tv st t), mem := mem s\<rparr>)
    | Jump l s \<Rightarrow> Jump l st | Stop r \<Rightarrow> Stop (restate st r))" by (rule exec_frame[OF assms]) simp_all
  show "t \<notin> op_outs op \<Longrightarrow> tv s t = tv st t" if n: "exec_op H c op st = Next s"
  proof -
    have "s = st\<lparr>tv := (\<lambda>t. if t \<in> op_outs op then tv s t else tv st t), mem := mem s\<rparr>" using f n by simp
    from arg_cong[OF this, of "\<lambda>s. tv s t"] show "tv s t = tv st t" if "t \<notin> op_outs op" using that by simp
  qed
  show "s = st" if "exec_op H c op st = Jump l s" using f that by simp
  show "restate st r = r" if "exec_op H c op st = Stop r" using f that by simp
qed

lemma jump_ends: "exec_op H c op st = Jump l s \<Longrightarrow> ends_bb op"
  by (cases "opc op") (auto simp: exec_op_def exec_guest_def exec_plain_def exec_call_def ends_bb_def flag_simps Let_def
    split: TCGType.splits if_splits option.splits)

lemma stop_sees: "exec_op H c op st = Stop r \<Longrightarrow> opc op \<noteq> INDEX_op_call \<Longrightarrow> ends_bb op \<or> sees_globals op \<or> r = Bad_Op"
  by (cases "opc op") (auto simp: exec_op_def exec_guest_def exec_plain_def ends_bb_def sees_globals_def flag_simps Let_def
    split: TCGType.splits if_splits option.splits)

lemma observe_restate:
  assumes "only_globals c st' = only_globals c st"
  shows "observe c (restate st' r) = observe c (restate st r)"
  using assms by (cases r) auto

lemma only_globals_eq: "mem st' = mem st \<Longrightarrow> (\<And>t. t < nb_globals c \<Longrightarrow> tv st' t = tv st t) \<Longrightarrow> only_globals c st' = only_globals c st"
  by (cases st; cases st') (auto simp: only_globals_def)

lemma kept_related:
  assumes w: "wf_op c op" and o: "opc op \<noteq> INDEX_op_call" "opc op \<noteq> INDEX_op_discard" and g: "nb_globals c \<le> nb_temps c"
    and a: "agree c (la_before c op ts) st' st" and d: "\<And>t. ends_bb op \<Longrightarrow> ordinary c t \<Longrightarrow> ts t = TS_DEAD"
  shows "related c ts (exec_op H c op st') (exec_op H c op st)"
proof -
  have s: "wf_shape op" using w by (simp add: wf_op_def)
  have b: "op_ins op \<subseteq> {t. t < nb_temps c}"
    using w by (force simp: wf_op_def wf_shape_def op_ins_def in_set_conv_nth)
  have e: "t < nb_temps c \<Longrightarrow> la_before c op ts t \<noteq> TS_DEAD \<Longrightarrow> tv st' t = tv st t" for t using a by (simp add: agree_def)
  have m: "mem st' = mem st" using a by (simp add: agree_def)
  note need = before_needed[OF _ g, of _ op ts]
  have i: "tv st' t = tv st t" if "t \<in> op_ins op" for t
  proof -
    have l: "t < nb_temps c" using b that by auto
    show ?thesis by (rule e[OF l]) (simp add: need[OF l] that)
  qed
  have f: "exec_op H c op st' = (case exec_op H c op st of
      Next s \<Rightarrow> Next (st'\<lparr>tv := (\<lambda>t. if t \<in> op_outs op then tv s t else tv st' t), mem := mem s\<rparr>)
    | Jump l s \<Rightarrow> Jump l st' | Stop r \<Rightarrow> Stop (restate st' r))"
    by (rule exec_frame[OF s o i m])
  show ?thesis
  proof (cases "exec_op H c op st")
    case (Next s1)
    have "tv st' t = tv s1 t" if "t < nb_temps c" "ts t \<noteq> TS_DEAD" "t \<notin> op_outs op" for t
    proof -
      have "la_before c op ts t \<noteq> TS_DEAD" unfolding need[OF that(1)] using that(2,3) d[of t] by auto
      then show ?thesis using e[OF that(1)] exec_frame_self(1)[OF s o Next that(3)] by simp
    qed
    then show ?thesis using f Next by (simp add: agree_def)
  next
    case (Jump l s1)
    have "tv st' t = tv st t" if "t < nb_temps c" "\<not> ordinary c t" for t
      by (rule e[OF that(1)]) (simp add: need[OF that(1)] jump_ends[OF Jump] that(2))
    then show ?thesis using f Jump exec_frame_self(2)[OF s o Jump] m by (simp add: agree_def)
  next
    case (Stop r)
    have "tv st' t = tv st t" if "t < nb_globals c" "ends_bb op \<or> sees_globals op" for t
    proof -
      have l: "t < nb_temps c" using that(1) g by (rule less_le_trans)
      have "\<not> ordinary c t" using that(1) by (rule global_not_ordinary)
      then have "la_before c op ts t \<noteq> TS_DEAD" unfolding need[OF l] using that by auto
      then show ?thesis by (rule e[OF l])
    qed
    then have "r = Bad_Op \<or> only_globals c st' = only_globals c st"
      using stop_sees[OF Stop o(1)] only_globals_eq[OF m] by blast
    then have "observe c (restate st' r) = observe c r"
      using exec_frame_self(3)[OF s o Stop] observe_restate[of c st' st r] by (cases "r = Bad_Op") simp_all
    then show ?thesis using f Stop by simp
  qed
qed

section \<open>Calls\<close>

lemma fold_upd_same:
  "(t \<notin> fst ` set xs \<Longrightarrow> T' t = T t) \<Longrightarrow> fold (\<lambda>(t, r) T. T(t := r)) xs T' t = fold (\<lambda>(t, r) T. T(t := r)) xs T t"
proof (induction xs arbitrary: T T')
  case (Cons x xs)
  obtain u r where x: "x = (u, r)" by (cases x)
  have "fold (\<lambda>(t, r) T. T(t := r)) xs (T'(u := r)) t = fold (\<lambda>(t, r) T. T(t := r)) xs (T(u := r)) t"
    by (rule Cons.IH) (use Cons.prems x in \<open>cases "t = u"; simp\<close>)
  then show ?case by (simp only: x fold.simps o_apply prod.case)
qed simp

definition call_globals :: "TCGContext \<Rightarrow> u32 \<Rightarrow> tstate \<Rightarrow> TCGArg \<Rightarrow> u32" where
  "call_globals c flags st = (\<lambda>t. if flags AND TCG_CALL_NO_READ_GLOBALS = 0 \<and> t < nb_globals c then tv st t else 0)"

definition call_result :: "TCGContext \<Rightarrow> TCGOp \<Rightarrow> (nat \<Rightarrow> u32) \<Rightarrow> (TCGArg \<Rightarrow> u32) \<Rightarrow> (TCGArg \<Rightarrow> u32) \<Rightarrow> (TCGArg \<Rightarrow> u32)" where
  "call_result c op rets g T =
     (let outs = take (callo op) (args op); flags = call_flags op
      in fold (\<lambda>(t, r) T. T(t := r)) (zip outs (map rets [0..<length outs]))
           (\<lambda>t. if flags AND (TCG_CALL_NO_READ_GLOBALS OR TCG_CALL_NO_WRITE_GLOBALS) = 0 \<and> t < nb_globals c then g t else T t))"

lemma exec_call_eq:
  assumes "opc op = INDEX_op_call"
  shows "exec_op H c op st =
    (case helper H (args op ! (callo op + calli op)) (call_flags op) (map (tv st) (take (calli op) (drop (callo op) (args op))))
       (call_globals c (call_flags op) st) (mem st) of
     None \<Rightarrow> Stop (Raised st) | Some (rets, g, m) \<Rightarrow> Next \<lparr>tv = call_result c op rets g (tv st), mem = m\<rparr>)"
  using assms by (simp add: exec_op_def exec_call_def call_globals_def call_result_def call_flags_def Let_def split: option.split)

lemma call_shape:
  assumes "opc op = INDEX_op_call" "wf_op c op"
  shows "op_outs op = set (take (callo op) (args op))" "op_ins op = set (take (calli op) (drop (callo op) (args op)))" "\<not> ends_bb op"
    "op_ins op \<subseteq> {t. t < nb_temps c}"
proof -
  have l: "callo op + calli op \<le> length (args op)" and b: "\<forall>t \<in> set (take (callo op + calli op) (args op)). t < nb_temps c"
    using assms by (simp_all add: wf_op_def wf_shape_def op_oargs_def op_iargs_def)
  show "op_outs op = set (take (callo op) (args op))" using assms l by (simp add: op_outs_def op_oargs_def nth_image[symmetric] atLeast0LessThan)
  show i: "op_ins op = set (take (calli op) (drop (callo op) (args op)))"
  proof -
    have "(!) (args op) ` {callo op..<callo op + calli op} = (!) (drop (callo op) (args op)) ` {..<calli op}"
      using l by (force simp: image_iff Bex_def le_iff_add)
    also have "\<dots> = set (take (calli op) (drop (callo op) (args op)))"
      using l by (simp add: nth_image[symmetric] atLeast0LessThan)
    finally show ?thesis using assms(1) by (simp add: op_ins_def op_oargs_def op_iargs_def)
  qed
  show "\<not> ends_bb op" using assms by (simp add: ends_bb_def flag_simps)
  have "set (take (calli op) (drop (callo op) (args op))) \<subseteq> set (take (callo op + calli op) (args op))"
    by (simp add: take_add)
  then show "op_ins op \<subseteq> {t. t < nb_temps c}" using b i by auto
qed

lemma call_related:
  assumes w: "wf_op c op" and o: "opc op = INDEX_op_call" and g: "nb_globals c \<le> nb_temps c" and H: "helpers_ok H"
    and a: "agree c (la_before c op ts) st' st"
  shows "related c ts (exec_op H c op st') (exec_op H c op st)"
proof -
  let ?fl = "call_flags op" and ?ins = "take (calli op) (drop (callo op) (args op))"
  note sh = call_shape[OF o w] and need = before_needed[OF _ g, of _ op ts]
  have m: "mem st' = mem st" using a by (simp add: agree_def)
  have e: "t < nb_temps c \<Longrightarrow> la_before c op ts t \<noteq> TS_DEAD \<Longrightarrow> tv st' t = tv st t" for t using a by (simp add: agree_def)
  have i: "tv st' t = tv st t" if "t \<in> op_ins op" for t
  proof -
    have l: "t < nb_temps c" using sh(4) that by auto
    show ?thesis by (rule e[OF l]) (simp add: need[OF l] that)
  qed
  have gl: "tv st' t = tv st t" if "?fl AND TCG_CALL_NO_READ_GLOBALS = 0" "t < nb_globals c" for t
  proof -
    have l: "t < nb_temps c" using that(2) g by (rule less_le_trans)
    show ?thesis by (rule e[OF l]) (simp add: need[OF l] sh(3) sees_globals_def o that)
  qed
  have x: "map (tv st') ?ins = map (tv st) ?ins" "call_globals c ?fl st' = call_globals c ?fl st"
    using i gl by (simp_all add: sh(2) call_globals_def fun_eq_iff)
  show ?thesis
  proof (cases "helper H (args op ! (callo op + calli op)) ?fl (map (tv st) ?ins) (call_globals c ?fl st) (mem st)")
    case None
    then have "?fl AND TCG_CALL_NO_READ_GLOBALS = 0" using H unfolding helpers_ok_def by blast
    then have "only_globals c st' = only_globals c st" using gl by (intro only_globals_eq[OF m])
    then show ?thesis using None by (simp add: exec_call_eq[OF o] x m)
  next
    case (Some r)
    obtain rets g' m' where r: "r = (rets, g', m')" by (cases r)
    have "call_result c op rets g' (tv st') t = call_result c op rets g' (tv st) t" if "t < nb_temps c" "ts t \<noteq> TS_DEAD" for t
    proof (unfold call_result_def Let_def, rule fold_upd_same)
      assume "t \<notin> fst ` set (zip (take (callo op) (args op)) (map rets [0..<length (take (callo op) (args op))]))"
      then have "t \<notin> op_outs op" by (simp add: sh(1) set_map[symmetric] del: set_map)
      then have "tv st' t = tv st t" using e[OF that(1)] that(2) by (simp add: need[OF that(1)] sh(3))
      then show "(if ?fl AND (TCG_CALL_NO_READ_GLOBALS OR TCG_CALL_NO_WRITE_GLOBALS) = 0 \<and> t < nb_globals c then g' t else tv st' t) =
        (if ?fl AND (TCG_CALL_NO_READ_GLOBALS OR TCG_CALL_NO_WRITE_GLOBALS) = 0 \<and> t < nb_globals c then g' t else tv st t)" by simp
    qed
    then show ?thesis using Some by (simp add: exec_call_eq[OF o] x m r agree_def)
  qed
qed

lemma exec_removable_call:
  assumes w: "wf_op c op" and o: "opc op = INDEX_op_call" and H: "helpers_ok H"
    and f: "call_flags op AND TCG_CALL_NO_SIDE_EFFECTS \<noteq> 0"
  shows "\<exists>s. exec_op H c op st = Next s \<and> mem s = mem st \<and> (\<forall>t. t \<notin> op_outs op \<longrightarrow> tv s t = tv st t)"
proof -
  let ?fl = "call_flags op" and ?ins = "take (calli op) (drop (callo op) (args op))"
  obtain rets where r: "helper H (args op ! (callo op + calli op)) ?fl (map (tv st) ?ins) (call_globals c ?fl st) (mem st) =
      Some (rets, call_globals c ?fl st, mem st)" using H f unfolding helpers_ok_def by blast
  have "call_result c op rets (call_globals c ?fl st) (tv st) t = tv st t" if "t \<notin> op_outs op" for t
  proof -
    have "t \<notin> fst ` set (zip (take (callo op) (args op)) (map rets [0..<length (take (callo op) (args op))]))"
      using that by (simp add: call_shape[OF o w] set_map[symmetric] del: set_map)
    then show ?thesis unfolding call_result_def Let_def by (simp add: fold_upd_other call_globals_def and_or_zero)
  qed
  then show ?thesis using r by (simp add: exec_call_eq[OF o])
qed

section \<open>The cases of the pass\<close>

text \<open>A double-word operation replaced by one that computes a word of its result.\<close>

definition halved :: "TCGContext \<Rightarrow> TCGOp \<Rightarrow> TCGOp \<Rightarrow> bool" where
  "halved c op op' \<longleftrightarrow> wf_op c op' \<and> opc op' \<notin> {INDEX_op_call, INDEX_op_discard, INDEX_op_set_label} \<and> opc op \<noteq> INDEX_op_set_label \<and>
     op_ins op' \<subseteq> op_ins op \<and> op_outs op' = {args op ! 0} \<and> op_outs op = {args op ! 0, args op ! 1} \<and>
     \<not> ends_bb op \<and> \<not> ends_bb op' \<and> \<not> sees_globals op \<and> \<not> sees_globals op' \<and> opc op \<noteq> INDEX_op_discard \<and>
     (\<forall>H st. \<exists>s s'. exec_op H c op st = Next s \<and> exec_op H c op' st = Next s' \<and> mem s' = mem s \<and> (\<forall>t. t \<noteq> args op ! 1 \<longrightarrow> tv s' t = tv s t))"

lemma low_word: "ucast (u64_of a b + u64_of c d) = a + c" "ucast (u64_of a b - u64_of c d) = a - c"
  "(ucast (ucast a * ucast c :: u64) :: u32) = a * c" "(ucast (scast a * scast c :: u64) :: u32) = a * c"
proof -
  have l: "(ucast (u64_of x y) :: u32) = x" for x y by (rule bit_word_eqI) (simp add: bit_u64_of bit_simps)
  have s: "(ucast (scast x :: u64) :: u32) = x" for x by (rule bit_word_eqI) (auto simp: bit_simps dest: bit_imp_le_length)
  show "ucast (u64_of a b + u64_of c d) = a + c" "ucast (u64_of a b - u64_of c d) = a - c" by (simp_all add: cast_simps l)
  show "(ucast (ucast a * ucast c :: u64) :: u32) = a * c" "(ucast (scast a * scast c :: u64) :: u32) = a * c" by (simp_all add: cast_simps s)
qed

lemma operand_sets:
  "op_oargs op = 1 \<Longrightarrow> op_outs op = {args op ! 0}" "op_oargs op = 2 \<Longrightarrow> op_outs op = {args op ! 0, args op ! 1}"
  "op_oargs op = 1 \<Longrightarrow> op_iargs op = 2 \<Longrightarrow> op_ins op = {args op ! 1, args op ! 2}"
  "op_oargs op = 2 \<Longrightarrow> op_iargs op = 2 \<Longrightarrow> op_ins op = {args op ! 2, args op ! 3}"
  "op_oargs op = 2 \<Longrightarrow> op_iargs op = 4 \<Longrightarrow> op_ins op = {args op ! 2, args op ! 3, args op ! 4, args op ! 5}"
  by (auto simp: op_outs_def op_ins_def lessThan_Suc atLeastLessThanSuc numeral_eq_Suc)

lemma halvedI:
  assumes w: "wf_op c op" "op_oargs op = 2" and b: "op_oargs op' = 1" "op_iargs op' = 2" "{args op' ! 1, args op' ! 2} \<subseteq> op_ins op" "args op' ! 0 = args op ! 0"
    and s: "wf_shape op'" "opc op' \<notin> {INDEX_op_call, INDEX_op_discard, INDEX_op_set_label}" "opc op \<notin> {INDEX_op_call, INDEX_op_discard, INDEX_op_set_label}"
    and f: "\<not> ends_bb op" "\<not> ends_bb op'" "\<not> sees_globals op" "\<not> sees_globals op'"
    and v: "\<And>T. op_value op T = None" "\<And>T. op_value2 op T = Some (r T)" "\<And>T. op_value op' T = Some (ucast (r T))"
    and x: "\<And>H st. exec_op H c op st = exec_plain op st" "\<And>H st. exec_op H c op' st = exec_plain op' st"
  shows "halved c op op'"
proof -
  have n: "args op ! 0 \<noteq> args op ! 1" using w s(3) by (simp add: wf_op_def wf_shape_def op_oargs_def)
  have "op_ins op \<subseteq> {t. t < nb_temps c}" "args op ! 0 < nb_temps c"
    using w by (force simp: wf_op_def wf_shape_def op_ins_def in_set_conv_nth)+
  moreover have "take (op_oargs op' + op_iargs op') (args op') = [args op' ! 0, args op' ! 1, args op' ! 2]"
    using s(1) b(1,2) by (intro nth_equalityI) (auto simp: wf_shape_def less_Suc_eq numeral_eq_Suc)
  ultimately have "wf_op c op'" using b s(1) by (auto simp: wf_op_def)
  moreover have "\<exists>s s'. exec_op H c op st = Next s \<and> exec_op H c op' st = Next s' \<and> mem s' = mem s \<and> (\<forall>t. t \<noteq> args op ! 1 \<longrightarrow> tv s' t = tv s t)" for H st
    using n by (simp add: x exec_plain_def v set_temp_def b(4) Let_def)
  ultimately show ?thesis
    using b(3,4) s f by (simp add: halved_def operand_sets(1)[OF b(1)] operand_sets(2)[OF w(2)] operand_sets(3)[OF b(1,2)])
qed

lemma halved_addsub2:
  assumes w: "wf_op c op" and o: "opc op = INDEX_op_add2 ty \<and> oc = INDEX_op_add ty \<or> opc op = INDEX_op_sub2 ty \<and> oc = INDEX_op_sub ty"
  shows "halved c op (op\<lparr>opc := oc, args := (args op)[1 := args op ! 2, 2 := args op ! 4]\<rparr>)"
proof -
  have ty: "ty = TCG_TYPE_I32" using w o by (auto simp: wf_op_def wf_shape_def)
  have l: "6 \<le> length (args op)" and n: "op_oargs op = 2" "op_iargs op = 4" using w o by (auto simp: wf_op_def wf_shape_def shape_simps)
  show ?thesis
    by (rule halvedI[OF w n(1), where r = "\<lambda>T. the (op_value2 op T)"])
      (use o l in \<open>auto simp: ty operand_sets(5)[OF n] wf_shape_def ends_bb_def sees_globals_def shape_simps flag_simps deposit_ok_def
        exec_op_def op_value_def op_value2_def tcg_unary_def tcg_binary_def low_word Let_def nth_list_update\<close>)
qed

lemma halved_mul2:
  assumes w: "wf_op c op" and o: "opc op = INDEX_op_mulu2 ty \<or> opc op = INDEX_op_muls2 ty"
  shows "halved c op (op\<lparr>opc := INDEX_op_mul ty, args := (args op)[1 := args op ! 2, 2 := args op ! 3]\<rparr>)"
proof -
  have ty: "ty = TCG_TYPE_I32" using w o by (auto simp: wf_op_def wf_shape_def)
  have l: "4 \<le> length (args op)" and n: "op_oargs op = 2" "op_iargs op = 2" using w o by (auto simp: wf_op_def wf_shape_def shape_simps)
  show ?thesis
    by (rule halvedI[OF w n(1), where r = "\<lambda>T. the (op_value2 op T)"])
      (use o l in \<open>auto simp: ty operand_sets(4)[OF n] wf_shape_def ends_bb_def sees_globals_def shape_simps flag_simps deposit_ok_def
        exec_op_def op_value_def op_value2_def tcg_unary_def tcg_binary_def low_word Let_def nth_list_update\<close>)
qed

text \<open>An operation that does nothing but compute dead values.\<close>

definition removable :: "TCGContext \<Rightarrow> TCGOp \<Rightarrow> temp_state \<Rightarrow> bool" where
  "removable c op ts \<longleftrightarrow> (\<forall>t \<in> op_outs op. ts t = TS_DEAD) \<and> \<not> ends_bb op \<and> opc op \<notin> {INDEX_op_discard, INDEX_op_set_label} \<and>
     (\<forall>H st. helpers_ok H \<longrightarrow> (\<exists>s. exec_op H c op st = Next s \<and> mem s = mem st \<and> (\<forall>t. t \<notin> op_outs op \<longrightarrow> tv s t = tv st t)))"

lemma la_dead_outs: "op_oargs op = n \<Longrightarrow> la_dead n (args op) ts \<longleftrightarrow> (\<forall>t \<in> op_outs op. ts t = TS_DEAD)"
  by (auto simp: la_dead_def op_outs_def)

lemma outputs_no_bb_end: "nb_oargs (tcg_op_defs oc) \<noteq> 0 \<Longrightarrow> def_flags (tcg_op_defs oc) AND TCG_OPF_BB_END = 0 \<and> oc \<noteq> INDEX_op_set_label"
  by (cases oc) (auto simp: flag_simps split: TCGType.splits)

lemma removable_plain:
  assumes "wf_op c op" "opc op \<notin> {INDEX_op_call, INDEX_op_discard}" "nb_oargs (tcg_op_defs (opc op)) \<noteq> 0"
    "def_flags (tcg_op_defs (opc op)) AND TCG_OPF_SIDE_EFFECTS = 0" "\<forall>t \<in> op_outs op. ts t = TS_DEAD"
  shows "removable c op ts"
proof -
  have "wf_shape op" using assms(1) by (simp add: wf_op_def)
  then show ?thesis
    using exec_removable[of op] outputs_no_bb_end[OF assms(3)] assms by (simp add: removable_def ends_bb_def)
qed

definition la_case :: "TCGContext \<Rightarrow> TCGOp \<Rightarrow> temp_state \<Rightarrow> la_result \<Rightarrow> bool" where
  "la_case c op ts r \<longleftrightarrow>
     r = ([(op, la_life c op ts)], la_before c op ts) \<and> opc op \<noteq> INDEX_op_discard \<or>
     r = ([], ts) \<and> removable c op ts \<or>
     opc op = INDEX_op_discard \<and> r = ([(op, 0)], ts(args op ! 0 := TS_DEAD)) \<or>
     (\<exists>op'. r = ([(op', la_life c op' ts)], la_before c op' ts) \<and> halved c op op' \<and> ts (args op ! 1) = TS_DEAD)"

lemma la_case_default:
  assumes w: "wf_op c op" and o: "opc op \<notin> {INDEX_op_call, INDEX_op_discard}"
  shows "la_case c op ts (la_default c op ts)"
proof -
  have n: "op_oargs op = nb_oargs (tcg_op_defs (opc op))" using o by (simp add: op_oargs_def)
  show ?thesis
    using la_kept[of op c ts] removable_plain[OF w o, of ts] o by (auto simp: la_case_def la_default_def Let_def la_dead_outs[OF n])
qed

lemma la_case_call: "wf_op c op \<Longrightarrow> opc op = INDEX_op_call \<Longrightarrow> la_case c op ts (la_call c op ts)"
  using la_kept_call[of op c ts] exec_removable_call[of c op] call_shape(3)[of op c] la_dead_outs[of op "callo op" ts]
  by (auto simp: la_case_def removable_def op_oargs_def split: if_splits)

lemma la_not_remove_half:
  assumes "halved c op op'" "nb_oargs (tcg_op_defs (opc op')) = 1" "nb_iargs (tcg_op_defs (opc op')) = 2"
  shows "la_not_remove c (def_flags (tcg_op_defs (opc op))) op' 1 2 ts = ([(op', la_life c op' ts)], la_before c op' ts)"
  using assms la_kept[of op' c ts]
  by (simp add: halved_def ends_bb_def sees_globals_def la_not_remove_def Let_def split: prod.splits)

lemma la_case_addsub2:
  assumes w: "wf_op c op" and o: "opc op = INDEX_op_add2 ty \<and> oc = INDEX_op_add ty \<or> opc op = INDEX_op_sub2 ty \<and> oc = INDEX_op_sub ty"
  shows "la_case c op ts (la_addsub2 c (def_flags (tcg_op_defs (opc op))) oc op ts)"
proof -
  have n: "op_oargs op = 2" using o by (auto simp: shape_simps)
  have d: "nb_oargs (tcg_op_defs (opc op)) = 2" "nb_iargs (tcg_op_defs (opc op)) = 4" "nb_oargs (tcg_op_defs oc) = 1" "nb_iargs (tcg_op_defs oc) = 2"
    "opc op \<notin> {INDEX_op_call, INDEX_op_discard}" "def_flags (tcg_op_defs (opc op)) AND TCG_OPF_SIDE_EFFECTS = 0"
    using o by (auto simp: flag_simps split: TCGType.split)
  show ?thesis
    using halved_addsub2[OF w o] la_not_remove_half[OF halved_addsub2[OF w o], of ts] la_kept[of op c ts] removable_plain[OF w d(5) _ d(6), of ts] d(1-5)
    by (auto simp: la_case_def la_addsub2_def Let_def operand_sets(2)[OF n])
qed

lemma la_case_mul2:
  assumes w: "wf_op c op" and o: "opc op = INDEX_op_mulu2 ty \<or> opc op = INDEX_op_muls2 ty"
  shows "la_case c op ts (la_mul2 c (def_flags (tcg_op_defs (opc op))) (INDEX_op_mul ty) oc False op ts)"
proof -
  have n: "op_oargs op = 2" using o by (auto simp: shape_simps)
  have d: "nb_oargs (tcg_op_defs (opc op)) = 2" "nb_iargs (tcg_op_defs (opc op)) = 2"
    "nb_oargs (tcg_op_defs (INDEX_op_mul ty)) = 1" "nb_iargs (tcg_op_defs (INDEX_op_mul ty)) = 2"
    "opc op \<notin> {INDEX_op_call, INDEX_op_discard}" "def_flags (tcg_op_defs (opc op)) AND TCG_OPF_SIDE_EFFECTS = 0"
    using o by (auto simp: flag_simps split: TCGType.split)
  show ?thesis
    using halved_mul2[OF w o] la_not_remove_half[OF halved_mul2[OF w o], of ts] la_kept[of op c ts] removable_plain[OF w d(5) _ d(6), of ts] d(1-5)
    by (auto simp: la_case_def la_mul2_def Let_def operand_sets(2)[OF n])
qed

lemma la_op_case:
  assumes "wf_op c op"
  shows "la_case c op ts (la_op c op ts)"
proof -
  have i: "opc op = INDEX_op_insn_start \<Longrightarrow> la_before c op ts = ts \<and> la_life c op ts = 0"
    by (simp add: la_before_def la_life_def la_dead_inputs_def la_mid_def ends_bb_def sees_globals_def la_live_inputs_def la_outputs_def op_oargs_def op_iargs_def flag_simps)
  show ?thesis
    using la_case_call[OF assms] la_case_addsub2[OF assms] la_case_mul2[OF assms] la_case_default[OF assms, of ts] i
    by (cases "opc op") (simp_all add: la_op_def TCG_TARGET_HAS_muluh_def TCG_TARGET_HAS_mulsh_def la_case_def Let_def)
qed

lemma la_op_cases:
  assumes w: "wf_op c op" and z: "la_op c op ts = (out, ts')"
  obtains (kept) "out = [(op, la_life c op ts)]" "ts' = la_before c op ts" "opc op \<noteq> INDEX_op_discard"
  | (removed) "out = []" "ts' = ts" "removable c op ts"
  | (discarded) "opc op = INDEX_op_discard" "out = [(op, 0)]" "ts' = ts(args op ! 0 := TS_DEAD)"
  | (halved) op' where "out = [(op', la_life c op' ts)]" "ts' = la_before c op' ts" "halved c op op'" "ts (args op ! 1) = TS_DEAD"
  using la_op_case[OF w, of ts] unfolding z la_case_def by auto

text \<open>Nothing that has been destroyed is needed.\<close>

lemma before_destroyed:
  assumes g: "nb_globals c \<le> nb_temps c" and r: "reads_kept c U op" and o: "opc op \<noteq> INDEX_op_discard"
    and d: "\<And>t. t < nb_temps c \<Longrightarrow> destroyed_after c U op t \<Longrightarrow> ts t = TS_DEAD" and t: "t < nb_temps c" "U t"
  shows "la_before c op ts t = TS_DEAD"
  using r o d[OF t(1)] t unfolding before_needed[OF t(1) g] reads_kept_def destroyed_after_def
  by (cases "ends_bb op"; cases "t \<in> op_outs op") auto

lemma la_op_destroyed:
  assumes w: "wf_op c op" and z: "la_op c op ts = (out, ts')" and g: "nb_globals c \<le> nb_temps c" and r: "reads_kept c U op"
    and d: "\<And>t. t < nb_temps c \<Longrightarrow> destroyed_after c U op t \<Longrightarrow> ts t = TS_DEAD" and t: "t < nb_temps c" "U t"
  shows "ts' t = TS_DEAD"
  using w z
proof (cases rule: la_op_cases)
  case kept
  then show ?thesis using before_destroyed[OF g r _ d t] by simp
next
  case removed
  then show ?thesis using d[OF t(1)] t(2) by (cases "t \<in> op_outs op") (simp_all add: destroyed_after_def removable_def)
next
  case discarded
  then show ?thesis using d[OF t(1)] t(2) by (auto simp: destroyed_after_def ends_bb_def flag_simps)
next
  case (halved op')
  have r': "reads_kept c U op'" using halved(3) r by (auto simp: halved_def reads_kept_def)
  have d': "ts u = TS_DEAD" if "u < nb_temps c" "destroyed_after c U op' u" for u
    using d[OF that(1)] that(2) halved(3,4) by (auto simp: halved_def destroyed_after_def)
  have "opc op' \<noteq> INDEX_op_discard" using halved(3) by (simp add: halved_def)
  then show ?thesis using before_destroyed[OF g r' _ d' t] halved(2) by simp
qed

lemma la_op_related:
  assumes w: "wf_op c op" and z: "la_op c op ts = (out, ts')" and g: "nb_globals c \<le> nb_temps c" and H: "helpers_ok H"
    and a: "agree c ts' st' st" and d: "\<And>t. t < nb_temps c \<Longrightarrow> destroyed_after c U op t \<Longrightarrow> ts t = TS_DEAD"
  shows "related c ts (exec_ops H c (map fst out) st') (exec_op H c op st)"
proof -
  have one: "exec_ops H c [q] st' = exec_op H c q st'" for q by (simp split: result.split)
  have e: "ordinary c t \<Longrightarrow> ends_bb op \<Longrightarrow> ts t = TS_DEAD" for t
    using d[of t] by (simp add: destroyed_after_def ordinary_def)
  from w z show ?thesis
  proof (cases rule: la_op_cases)
    case kept
    then show ?thesis
      using kept_related[OF w _ _ g, of ts st' st H] call_related[OF w _ g H, of ts st' st] a e by (cases "opc op = INDEX_op_call") (simp_all add: one del: exec_ops.simps)
  next
    case removed
    obtain s where s: "exec_op H c op st = Next s" "mem s = mem st" "\<And>t. t \<notin> op_outs op \<Longrightarrow> tv s t = tv st t" using removed(3) H unfolding removable_def by blast
    have "tv s t = tv st t" if "ts t \<noteq> TS_DEAD" for t using s(3)[of t] removed(3) that unfolding removable_def by blast
    then show ?thesis using s removed(1,2) a by (simp add: agree_def)
  next
    case discarded
    have "args op ! 0 < nb_temps c \<Longrightarrow> ts (args op ! 0) = TS_DEAD"
      using d discarded(1) by (auto simp: destroyed_after_def ends_bb_def flag_simps)
    then have "tv st' t = tv st t" if "t < nb_temps c" "ts t \<noteq> TS_DEAD" for t
      using that discarded(3) a unfolding agree_def by (metis fun_upd_other)
    then show ?thesis using discarded a by (simp add: agree_def exec_op_def)
  next
    case (halved op')
    have h: "wf_op c op'" "opc op' \<noteq> INDEX_op_call" "opc op' \<noteq> INDEX_op_discard" "\<not> ends_bb op'" using halved(3) by (simp_all add: halved_def)
    obtain s s' where x: "exec_op H c op st = Next s" "exec_op H c op' st = Next s'" "mem s' = mem s" "\<And>t. t \<noteq> args op ! 1 \<Longrightarrow> tv s' t = tv s t"
      using halved(3) unfolding halved_def by metis
    have "related c ts (exec_op H c op' st') (exec_op H c op' st)" using kept_related[OF h(1-3) g] a halved(2) h(4) by simp
    moreover have "tv s' t = tv s t" if "ts t \<noteq> TS_DEAD" for t using x(4)[of t] halved(4) that by auto
    ultimately show ?thesis using x(1-3) by (cases "exec_op H c op' st'") (simp_all add: halved(1) agree_def)
  qed
qed

section \<open>The block\<close>

lemma pass_cons:
  assumes "liveness_pass_1 c stale (op # ops) = (out, ts')"
  obtains kept out' ts where "liveness_pass_1 c stale ops = (out', ts)" "la_op c op ts = (kept, ts')" "out = kept @ out'"
  using assms by (auto simp: liveness_pass_1_def Let_def split: prod.splits)

lemma pass_destroyed:
  assumes g: "nb_globals c \<le> nb_temps c"
  shows "\<forall>op \<in> set ops. wf_op c op \<Longrightarrow> block_kept c U ops \<Longrightarrow> liveness_pass_1 c stale ops = (out, ts) \<Longrightarrow> t < nb_temps c \<Longrightarrow> U t \<Longrightarrow> ts t = TS_DEAD"
proof (induction ops arbitrary: U out ts t)
  case Nil
  then show ?case by (auto simp: liveness_pass_1_def tcg_la_func_end_def)
next
  case (Cons op ops)
  obtain kept out' ts1 where p: "liveness_pass_1 c stale ops = (out', ts1)" "la_op c op ts1 = (kept, ts)" using Cons.prems(3) by (rule pass_cons)
  have d: "ts1 u = TS_DEAD" if "u < nb_temps c" "destroyed_after c U op u" for u
    using Cons.IH[OF _ _ p(1) that(1), of "destroyed_after c U op"] Cons.prems(1,2) that(2) by simp
  have w: "wf_op c op" and r: "reads_kept c U op" using Cons.prems(1,2) by simp_all
  show ?case using la_op_destroyed[OF w p(2) g r d Cons.prems(4,5)] .
qed

lemma pass_labels:
  assumes "wf_op c op" "la_op c op ts = (kept, ts')"
  shows "opc op = INDEX_op_set_label \<Longrightarrow> map fst kept = [op]"
    "opc op \<noteq> INDEX_op_set_label \<Longrightarrow> p \<in> set (map fst kept) \<Longrightarrow> opc p \<noteq> INDEX_op_set_label"
  using assms by (cases rule: la_op_cases; auto simp: removable_def halved_def)+

lemma pass_find_label:
  assumes "\<forall>op \<in> set ops. wf_op c op" "liveness_pass_1 c stale ops = (out, ts)"
  shows "case find_label l ops of None \<Rightarrow> find_label l (map fst out) = None
    | Some rest \<Rightarrow> find_label l (map fst out) = Some (map fst (fst (liveness_pass_1 c stale rest)))"
  using assms
proof (induction ops arbitrary: out ts)
  case Nil
  then show ?case by (simp add: liveness_pass_1_def)
next
  case (Cons op ops)
  obtain kept out' ts1 where p: "liveness_pass_1 c stale ops = (out', ts1)" "la_op c op ts1 = (kept, ts)" "out = kept @ out'"
    using Cons.prems(2) by (rule pass_cons)
  have w: "wf_op c op" using Cons.prems(1) by simp
  show ?case
  proof (cases "opc op = INDEX_op_set_label")
    case True
    then show ?thesis using Cons.IH[OF _ p(1)] Cons.prems(1) pass_labels(1)[OF w p(2)] p by (auto split: option.splits)
  next
    case False
    then show ?thesis
      using Cons.IH[OF _ p(1)] Cons.prems(1) find_label_append[of "map fst kept" l "map fst out'"] pass_labels(2)[OF w p(2) False] p(3)
      by (auto split: option.splits)
  qed
qed

lemma block_kept_label: "block_kept c U prog \<Longrightarrow> find_label l prog = Some rest \<Longrightarrow> block_kept c (ordinary c) rest"
proof (induction prog arbitrary: U)
  case (Cons op prog)
  have "opc op = INDEX_op_set_label \<Longrightarrow> destroyed_after c U op = ordinary c"
    by (auto simp: destroyed_after_def ends_bb_def flag_simps)
  then show ?case using Cons by (auto split: if_splits)
qed simp

lemma pass_exec:
  assumes g: "nb_globals c \<le> nb_temps c" and H: "helpers_ok H" and p: "liveness_pass_1 c stale prog = (prog', ts0)"
    and w: "\<forall>op \<in> set prog. wf_op c op" and k: "block_kept c U0 prog"
  shows "set ops \<subseteq> set prog \<Longrightarrow> block_kept c U ops \<Longrightarrow> liveness_pass_1 c stale ops = (out, ts) \<Longrightarrow> agree c ts st' st \<Longrightarrow>
    observe c (exec H c n (map fst prog') (map fst out) st') = observe c (exec H c n prog ops st)"
proof (induction n arbitrary: ops U out ts st' st rule: less_induct)
  case (less n)
  show ?case using less.prems
  proof (induction ops arbitrary: U out ts st' st)
    case Nil
    have ts: "out = []" "ts = tcg_la_func_end c stale" using Nil.prems(3) by (simp_all add: liveness_pass_1_def)
    have "tv st' t = tv st t" if "t < nb_globals c" for t
    proof -
      have "t < nb_temps c" using that g by (rule less_le_trans)
      then show ?thesis using Nil.prems(4) that unfolding agree_def ts by (simp add: tcg_la_func_end_def)
    qed
    then have "only_globals c st' = only_globals c st" using Nil.prems(4) by (intro only_globals_eq) (simp_all add: agree_def)
    then show ?case by (simp add: ts)
  next
    case (Cons op ops)
    obtain kept out' ts1 where q: "liveness_pass_1 c stale ops = (out', ts1)" "la_op c op ts1 = (kept, ts)" "out = kept @ out'"
      using Cons.prems(3) by (rule pass_cons)
    have wo: "wf_op c op" "\<forall>op \<in> set ops. wf_op c op" and sub: "set ops \<subseteq> set prog" using Cons.prems(1) w by auto
    have bk: "block_kept c (destroyed_after c U op) ops" using Cons.prems(2) by simp
    have rel: "related c ts1 (exec_ops H c (map fst kept) st') (exec_op H c op st)"
      using la_op_related[OF wo(1) q(2) g H Cons.prems(4)] pass_destroyed[OF g wo(2) bk q(1)] by blast
    show ?case
    proof (cases "exec_op H c op st")
      case (Next s)
      then obtain s' where "exec_ops H c (map fst kept) st' = Next s'" "agree c ts1 s' s" using rel by (cases "exec_ops H c (map fst kept) st'") auto
      then show ?thesis using Cons.IH[OF sub bk q(1)] Next q(3) by (simp add: exec_append)
    next
      case (Jump l s)
      then obtain s' where s: "exec_ops H c (map fst kept) st' = Jump l s'" "agree c (\<lambda>t. if ordinary c t then TS_DEAD else 0) s' s"
        using rel by (cases "exec_ops H c (map fst kept) st'") auto
      show ?thesis
      proof (cases n)
        case (Suc m)
        show ?thesis
        proof (cases "find_label l prog")
          case None
          then show ?thesis using pass_find_label[OF w p, of l] Jump s q(3) Suc by (simp add: exec_append)
        next
          case (Some rest)
          obtain rest' ts2 where r: "liveness_pass_1 c stale rest = (rest', ts2)" by fastforce
          have b: "block_kept c (ordinary c) rest" and sr: "set rest \<subseteq> set prog" using block_kept_label[OF k Some] find_label_subset[OF Some] by auto
          have wr: "\<forall>op \<in> set rest. wf_op c op" using sr w by blast
          have "tv s' t = tv s t" if "t < nb_temps c" "ts2 t \<noteq> TS_DEAD" for t
          proof -
            have "\<not> ordinary c t" using pass_destroyed[OF g wr b r that(1)] that(2) by blast
            then show ?thesis using s(2) that(1) by (simp add: agree_def TS_DEAD_def)
          qed
          then have "agree c ts2 s' s" using s(2) by (simp add: agree_def)
          then show ?thesis using less.IH[OF _ sr b r] pass_find_label[OF w p, of l] Jump s(1) q(3) Suc Some r by (simp add: exec_append)
        qed
      qed (simp add: Jump s exec_append q(3))
    next
      case (Stop r)
      then show ?thesis using rel q(3) by (cases "exec_ops H c (map fst kept) st'") (simp_all add: exec_append)
    qed
  qed
qed

text \<open>
  C2. The liveness pass is correct. For a well-formed block that does not depend on destroyed contents, and helpers that do what their flags say, the
  block without the removed and with the replaced operations ends in the same way as the original, with the same globals and the same
  memory, from every state.
\<close>

theorem liveness_pass_1_correct:
  assumes "\<forall>op \<in> set prog. wf_op c op" "block_kept c (\<lambda>_. False) prog" "helpers_ok H" "nb_globals c \<le> nb_temps c"
  shows "observe c (run_block H c n (map fst (fst (liveness_pass_1 c stale prog))) st) = observe c (run_block H c n prog st)"
proof -
  obtain prog' ts where p: "liveness_pass_1 c stale prog = (prog', ts)" by fastforce
  have "agree c ts st st" by (simp add: agree_def)
  then show ?thesis using pass_exec[OF assms(4,3) p assms(1,2) subset_refl assms(2) p] by (simp add: run_block_def p)
qed

text \<open>A block that sets a global to the sum of another one and a constant; the second constant is not used.\<close>

definition dead_block :: "TCGOp list" where
  "dead_block =
     [sample_op (INDEX_op_movi TCG_TYPE_I32) [2, 5], sample_op (INDEX_op_movi TCG_TYPE_I32) [3, 9],
      sample_op (INDEX_op_add TCG_TYPE_I32) [1, 0, 2], sample_op INDEX_op_exit_tb [0]]"

definition sample_host :: host where
  "sample_host = \<lparr>helper = (\<lambda>f fl xs g m. Some (\<lambda>_. 0, g, m)), faults = (\<lambda>_ _. False), chained = (\<lambda>_. False)\<rparr>"

lemma dead_block_pass:
  "map fst (fst (liveness_pass_1 sample_ctx (\<lambda>_. 0) dead_block)) =
     [sample_op (INDEX_op_movi TCG_TYPE_I32) [2, 5], sample_op (INDEX_op_add TCG_TYPE_I32) [1, 0, 2], sample_op INDEX_op_exit_tb [0]]"
  by (simp add: liveness_pass_1_def dead_block_def sample_op_def sample_ctx_def la_op_def la_default_def la_not_remove_def la_outputs_def la_dead_inputs_def
      la_live_inputs_def la_dead_def tcg_la_bb_end_def tcg_la_func_end_def TS_DEAD_def TS_MEM_def flag_simps upt_conv_Cons Let_def)

lemma dead_block_ok: "\<forall>op \<in> set dead_block. wf_op sample_ctx op" "block_kept sample_ctx (\<lambda>_. False) dead_block" "helpers_ok sample_host"
  "nb_globals sample_ctx \<le> nb_temps sample_ctx"
proof -
  show "block_kept sample_ctx (\<lambda>_. False) dead_block"
    by (simp add: dead_block_def sample_op_def shape_simps flag_simps reads_kept_def destroyed_after_def ends_bb_def sees_globals_def global_not_ordinary)
qed (simp_all add: dead_block_def sample_op_def sample_ctx_def wf_op_def wf_shape_def shape_simps deposit_ok_def helpers_ok_def sample_host_def)

theorem liveness_pass_1_correct_witness:
  "observe sample_ctx (run_block sample_host sample_ctx 0
      [sample_op (INDEX_op_movi TCG_TYPE_I32) [2, 5], sample_op (INDEX_op_add TCG_TYPE_I32) [1, 0, 2], sample_op INDEX_op_exit_tb [0]]
      \<lparr>tv = \<lambda>_. 1, mem = \<lambda>_. 0\<rparr>) =
   observe sample_ctx (run_block sample_host sample_ctx 0 dead_block \<lparr>tv = \<lambda>_. 1, mem = \<lambda>_. 0\<rparr>)"
  using liveness_pass_1_correct[OF dead_block_ok, of 0 "\<lambda>_. 0" "\<lparr>tv = \<lambda>_. 1, mem = \<lambda>_. 0\<rparr>"] by (simp only: dead_block_pass)

end
