(* ===== verification/Tcg_Life.thy ===== *)
theory Tcg_Life
  imports Tcg_Liveness_Correct
begin

text \<open>
  The life data that the liveness pass records with every operation it keeps, which the register allocator reads: what the bits say of the
  states of temporaries, and that a temporary recorded as dying is not used any more.
\<close>

section \<open>The bits\<close>

lemma dead_arg_bit: "i < 14 \<Longrightarrow> IS_DEAD_ARG life i \<longleftrightarrow> bit life (i + 2)"
proof -
  have "push_bit i (4 :: u16) = 2 ^ (i + 2)" by (simp add: push_bit_eq_mult)
  then show ?thesis by (simp only: IS_DEAD_ARG_def DEAD_ARG_def and_exp_eq_0_iff_not_bit) simp
qed

lemma sync_arg_bit: "NEED_SYNC_ARG life i \<longleftrightarrow> bit life i"
proof -
  have "push_bit i (1 :: u16) = 2 ^ i" by (simp add: push_bit_eq_mult)
  then show ?thesis by (simp only: NEED_SYNC_ARG_def SYNC_ARG_def and_exp_eq_0_iff_not_bit) simp
qed

lemma bit_dead_arg: "bit (push_bit i DEAD_ARG) k \<longleftrightarrow> k = i + 2 \<and> k < 16"
  and bit_sync_arg: "bit (push_bit i SYNC_ARG) k \<longleftrightarrow> k = i \<and> k < 16"
proof -
  have four: "bit (4 :: u16) m \<longleftrightarrow> m = 2" for m
  proof -
    have "bit (2 ^ 2 :: u16) m \<longleftrightarrow> m = 2" unfolding bit_exp_iff by auto
    then show ?thesis by simp
  qed
  show "bit (push_bit i DEAD_ARG) k \<longleftrightarrow> k = i + 2 \<and> k < 16" "bit (push_bit i SYNC_ARG) k \<longleftrightarrow> k = i \<and> k < 16"
    unfolding DEAD_ARG_def SYNC_ARG_def bit_push_bit_iff four bit_1_iff by auto
qed

lemma bit_if_zero: "bit (if b then x else 0) k \<longleftrightarrow> b \<and> bit x k"
  by simp

lemma outputs_life:
  assumes "n \<le> 2" "distinct (take n a)" "n \<le> length a"
  shows "bit (snd (la_outputs n a ts)) k \<longleftrightarrow>
    (\<exists>i < n. k = i + 2 \<and> ts (a ! i) AND TS_DEAD \<noteq> 0) \<or> (\<exists>i < n. k = i \<and> ts (a ! i) AND TS_MEM \<noteq> 0)"
proof -
  from assms(1) consider "n = 0" | "n = 1" | "n = 2" by linarith
  then show ?thesis
  proof cases
    case 1
    then show ?thesis by (simp add: la_outputs_def)
  next
    case 2
    then show ?thesis by (auto simp only: la_outputs_def upt_conv_Cons upt_conv_Nil fold.simps o_apply id_apply prod.case snd_conv bit_or_iff bit_if_zero
        bit_dead_arg bit_sync_arg, auto)
  next
    case 3
    have "take 2 a = [a ! 0, a ! 1]" using assms(3) 3 by (cases a; cases "tl a") (auto simp: numeral_2_eq_2)
    then have "a ! 1 \<noteq> a ! 0" using assms(2) 3 by auto
    moreover have "[0..<2] = [0, 1 :: nat]" by (simp add: upt_conv_Cons)
    moreover define d0 m0 d1 m1 where "d0 = (ts (a ! 0) AND TS_DEAD \<noteq> 0)" and "m0 = (ts (a ! 0) AND TS_MEM \<noteq> 0)"
      and "d1 = (ts (a ! 1) AND TS_DEAD \<noteq> 0)" and "m1 = (ts (a ! 1) AND TS_MEM \<noteq> 0)"
    ultimately have "snd (la_outputs 2 a ts) = (0 OR (if d0 then push_bit 0 DEAD_ARG else 0) OR (if m0 then push_bit 0 SYNC_ARG else 0))
        OR (if d1 then push_bit 1 DEAD_ARG else 0) OR (if m1 then push_bit 1 SYNC_ARG else 0)"
      unfolding la_outputs_def by (simp only: fold.simps o_apply id_apply prod.case snd_conv fun_upd_apply if_False or.assoc d0_def m0_def d1_def m1_def)
    then have "bit (snd (la_outputs 2 a ts)) k \<longleftrightarrow> k = 2 \<and> d0 \<or> k = 0 \<and> m0 \<or> k = 3 \<and> d1 \<or> k = 1 \<and> m1"
      by (simp only: bit_or_iff bit_if_zero bit_dead_arg bit_sync_arg) auto
    moreover have ex: "(\<exists>i < 2. P i) \<longleftrightarrow> P 0 \<or> P 1" for P :: "nat \<Rightarrow> bool" unfolding less_2_cases_iff by auto
    have "(\<exists>i < 2. k = i + 2 \<and> ts (a ! i) AND TS_DEAD \<noteq> 0) \<longleftrightarrow> k = 2 \<and> d0 \<or> k = 3 \<and> d1"
      "(\<exists>i < 2. k = i \<and> ts (a ! i) AND TS_MEM \<noteq> 0) \<longleftrightarrow> k = 0 \<and> m0 \<or> k = 1 \<and> m1"
      unfolding ex d0_def m0_def d1_def m1_def by (simp_all add: numeral_eq_Suc)
    ultimately show ?thesis unfolding 3 by blast
  qed
qed

lemma inputs_life:
  "bit (la_dead_inputs skip n m a ts life) k \<longleftrightarrow>
    bit life k \<or> k < 16 \<and> (\<exists>i. n \<le> i \<and> i < n + m \<and> k = i + 2 \<and> \<not> skip (a ! i) \<and> ts (a ! i) AND TS_DEAD \<noteq> 0)"
proof (induction m)
  case 0
  then show ?case by (auto simp: la_dead_inputs_def)
next
  case (Suc m)
  then show ?case by (auto simp: la_dead_inputs_def bit_or_iff bit_dead_arg less_Suc_eq)
qed

lemma life_data:
  assumes "op_oargs op \<le> 2" "distinct (take (op_oargs op) (args op))" "op_oargs op \<le> length (args op)" "i < 14"
  shows "IS_DEAD_ARG (la_life c op ts) i \<longleftrightarrow>
    (if i < op_oargs op then ts (args op ! i) AND TS_DEAD \<noteq> 0
     else i < op_oargs op + op_iargs op \<and> \<not> (opc op = INDEX_op_call \<and> args op ! i = TCG_CALL_DUMMY_ARG) \<and>
       la_mid c op (fst (la_outputs (op_oargs op) (args op) ts)) (args op ! i) AND TS_DEAD \<noteq> 0)"
  using outputs_life[OF assms(1-3)] assms(1,4)
  by (auto simp: dead_arg_bit la_life_def inputs_life case_prod_beta)

lemma life_sync:
  assumes "op_oargs op \<le> 2" "distinct (take (op_oargs op) (args op))" "op_oargs op \<le> length (args op)" "i < op_oargs op"
  shows "NEED_SYNC_ARG (la_life c op ts) i \<longleftrightarrow> ts (args op ! i) AND TS_MEM \<noteq> 0"
  using outputs_life[OF assms(1-3)] assms(1,4)
  by (auto simp: sync_arg_bit la_life_def inputs_life case_prod_beta)

section \<open>States of ordinary temporaries\<close>

text \<open>An ordinary temporary is never wanted in memory.\<close>

definition plain_states :: "TCGContext \<Rightarrow> temp_state \<Rightarrow> bool" where
  "plain_states c ts \<longleftrightarrow> (\<forall>t. ordinary c t \<longrightarrow> ts t = TS_DEAD \<or> ts t = 0)"

lemma plain_mid:
  assumes "plain_states c ts"
  shows "plain_states c (la_mid c op (fst (la_outputs n a ts)))"
  using assms global_not_ordinary[of _ c]
  by (auto simp: plain_states_def la_mid_def la_outputs_state la_save_globals_def la_sync_globals_def ordinary_def tcg_la_bb_end_def tcg_la_func_end_def Let_def)

lemma plain_before: "plain_states c ts \<Longrightarrow> plain_states c (la_before c op ts)"
  using plain_mid[of c ts op "op_oargs op" "args op"]
  by (auto simp: plain_states_def la_before_def la_live_state TS_DEAD_def)

lemma plain_pass:
  assumes "\<forall>op \<in> set ops. wf_op c op"
  shows "plain_states c (snd (liveness_pass_1 c stale ops))"
  using assms
proof (induction ops)
  case Nil
  then show ?case by (auto simp: plain_states_def liveness_pass_1_def tcg_la_func_end_def ordinary_def)
next
  case (Cons op ops)
  obtain out ts where p: "liveness_pass_1 c stale (op # ops) = (out, ts)" by fastforce
  then obtain kept out' ts1 where q: "liveness_pass_1 c stale ops = (out', ts1)" "la_op c op ts1 = (kept, ts)" by (rule pass_cons)
  have "plain_states c ts1" using Cons q(1) by simp
  have "wf_op c op" using Cons.prems by simp
  from this q(2) have "plain_states c ts"
    by (cases rule: la_op_cases) (use \<open>plain_states c ts1\<close> plain_before[of c ts1] in \<open>auto simp: plain_states_def\<close>)
  then show ?case by (simp add: p)
qed

lemma block_kept_suffix: "block_kept c U (pre @ ops) \<Longrightarrow> \<exists>U'. block_kept c U' ops"
  by (induction pre arbitrary: U) auto

section \<open>What dies is not used\<close>

lemma plain_dead: "plain_states c ts \<Longrightarrow> ordinary c t \<Longrightarrow> ts t AND TS_DEAD \<noteq> 0 \<Longrightarrow> ts t = TS_DEAD"
  by (auto simp: plain_states_def)

lemma la_op_life: "wf_op c op \<Longrightarrow> la_op c op ts = ([(op', life)], ts') \<Longrightarrow> opc op \<noteq> INDEX_op_discard \<Longrightarrow>
    life = la_life c op' ts \<and> (op' = op \<or> halved c op op')"
  by (cases rule: la_op_cases[of c op ts "[(op', life)]" ts']) auto

lemma dying_dead:
  assumes w: "wf_op c op" and z: "la_op c op ts = ([(op', life)], ts')" and n: "opc op \<noteq> INDEX_op_discard"
    and p: "plain_states c ts" and d: "\<And>t. t < nb_temps c \<Longrightarrow> destroyed_after c U op t \<Longrightarrow> ts t = TS_DEAD"
    and o: "op_oargs op' \<le> 2" "distinct (take (op_oargs op') (args op'))"
    and i: "i < 14" "IS_DEAD_ARG life i" and t: "ordinary c (args op' ! i)" "op_oargs op' \<le> i \<Longrightarrow> args op' ! i \<notin> op_outs op'"
  shows "ts (args op' ! i) = TS_DEAD"
proof -
  have l: "life = la_life c op' ts" and h: "op' = op \<or> halved c op op'" using la_op_life[OF w z n] by auto
  have len: "op_oargs op' \<le> length (args op')" using h w by (auto simp: halved_def wf_op_def wf_shape_def)
  note data = life_data[OF o len i(1), of c ts]
  show ?thesis
  proof (cases "i < op_oargs op'")
    case True
    then show ?thesis using data i(2) plain_dead[OF p t(1)] by (simp add: l)
  next
    case False
    let ?t = "args op' ! i"
    have o': "?t \<notin> op_outs op'" using False t(2) by simp
    then have mid: "la_mid c op' (fst (la_outputs (op_oargs op') (args op') ts)) ?t AND TS_DEAD \<noteq> 0" using data i(2) False by (simp add: l)
    show ?thesis
    proof (cases "ends_bb op'")
      case True
      then have "op' = op" using h by (auto simp: halved_def)
      then show ?thesis using True t(1) d[of ?t] by (simp add: destroyed_after_def ordinary_def)
    next
      case False
      have "\<not> ?t < nb_globals c" using t(1) global_not_ordinary by blast
      then have "la_mid c op' (fst (la_outputs (op_oargs op') (args op') ts)) ?t = ts ?t"
        using False o' by (simp add: la_mid_def la_save_globals_def la_sync_globals_def la_outputs_state op_outs_def)
      then show ?thesis using mid plain_dead[OF p t(1)] by simp
    qed
  qed
qed

text \<open>
  C3. The life data is sound. Let the pass keep an operation of a well-formed block, as it is or with half of its double-word result, and record
  that its argument \<open>i\<close> dies, an ordinary temporary that is one of its results, or one of its inputs and not overwritten by it. Then the rest
  of the shortened block does not use the value: whatever is in the temporary after the operation, the block ends in the same way with the same globals
  and memory, from every state. The operation has at most two results, all different, and the argument is among the first fourteen, for which
  the 16-bit data has room.
\<close>

theorem life_data_sound:
  assumes "\<forall>op \<in> set (pre @ op # rest). wf_op c op" "block_kept c (\<lambda>_. False) (pre @ op # rest)" "helpers_ok H" "nb_globals c \<le> nb_temps c"
    and "liveness_pass_1 c stale (pre @ op # rest) = (prog', ts0)" "liveness_pass_1 c stale rest = (rest', ts)"
    and "la_op c op ts = ([(op', life)], ts')" "opc op \<noteq> INDEX_op_discard" "op_oargs op' \<le> 2" "distinct (take (op_oargs op') (args op'))"
    and "i < 14" "IS_DEAD_ARG life i" "ordinary c (args op' ! i)" "op_oargs op' \<le> i \<Longrightarrow> args op' ! i \<notin> op_outs op'"
  shows "observe c (exec H c n (map fst prog') (map fst rest') (set_temp (args op' ! i) v st)) =
    observe c (exec H c n (map fst prog') (map fst rest') st)"
proof -
  obtain U where "block_kept c U (op # rest)" using block_kept_suffix[OF assms(2)] ..
  then have k: "block_kept c (destroyed_after c U op) rest" by simp
  have w: "wf_op c op" "\<forall>op \<in> set rest. wf_op c op" and s: "set rest \<subseteq> set (pre @ op # rest)" using assms(1) by auto
  have p: "plain_states c ts" using plain_pass[OF w(2), of stale] assms(6) by simp
  have d: "ts t = TS_DEAD" if "t < nb_temps c" "destroyed_after c U op t" for t
    by (rule pass_destroyed[OF assms(4) w(2) k assms(6) that])
  have "ts (args op' ! i) = TS_DEAD" using dying_dead[OF w(1) assms(7,8) p d assms(9-14)] .
  then have "agree c ts (set_temp (args op' ! i) v st) st" "agree c ts st st" by (auto simp: agree_def set_temp_def)
  then show ?thesis using pass_exec[OF assms(4,3,5,1,2) s k assms(6)] by simp
qed

text \<open>The constant of the sample block dies in the addition, its third argument.\<close>

definition dead_rest :: "TCGOp list" where "dead_rest = [sample_op INDEX_op_exit_tb [0]]"

lemma dead_rest_pass:
  "liveness_pass_1 sample_ctx (\<lambda>_. 0) dead_rest = ([(sample_op INDEX_op_exit_tb [0], 0)], tcg_la_bb_end sample_ctx (tcg_la_func_end sample_ctx (\<lambda>_. 0)))"
  by (simp add: liveness_pass_1_def dead_rest_def sample_op_def la_op_def la_default_def la_not_remove_def la_outputs_def la_dead_inputs_def
      la_live_inputs_def flag_simps Let_def)

definition dead_add :: TCGOp where "dead_add = sample_op (INDEX_op_add TCG_TYPE_I32) [1, 0, 2]"

lemma dead_add_life:
  assumes "ts = snd (liveness_pass_1 sample_ctx (\<lambda>_. 0) dead_rest)"
  shows "la_op sample_ctx dead_add ts = ([(dead_add, la_life sample_ctx dead_add ts)], la_before sample_ctx dead_add ts)"
    "IS_DEAD_ARG (la_life sample_ctx dead_add ts) 2"
proof -
  have ts: "ts 1 = TS_DEAD OR TS_MEM" "ts 2 = TS_DEAD"
    unfolding assms dead_rest_pass by (simp_all add: tcg_la_bb_end_def tcg_la_func_end_def sample_ctx_def Let_def)
  have n: "op_oargs dead_add = 1" "op_iargs dead_add = 2" "\<not> ends_bb dead_add" "\<not> sees_globals dead_add" "opc dead_add \<noteq> INDEX_op_call"
    by (simp_all add: dead_add_def sample_op_def arity_simps ends_bb_def sees_globals_def flag_simps)
  have "\<not> la_dead 1 (args dead_add) ts" using ts(1) by (simp add: la_dead_def dead_add_def sample_op_def)
  then show "la_op sample_ctx dead_add ts = ([(dead_add, la_life sample_ctx dead_add ts)], la_before sample_ctx dead_add ts)"
    using la_kept[OF n(5), of sample_ctx ts] by (simp add: la_op_def la_default_def dead_add_def sample_op_def DEF_def Let_def)
  show "IS_DEAD_ARG (la_life sample_ctx dead_add ts) 2"
    using ts(2) n by (subst life_data) (simp_all add: la_mid_def la_outputs_state dead_add_def sample_op_def TS_DEAD_def)
qed

theorem life_data_sound_witness:
  "observe sample_ctx (exec sample_host sample_ctx 0
      [sample_op (INDEX_op_movi TCG_TYPE_I32) [2, 5], dead_add, sample_op INDEX_op_exit_tb [0]] [sample_op INDEX_op_exit_tb [0]]
      (set_temp 2 77 \<lparr>tv = \<lambda>_. 1, mem = \<lambda>_. 0\<rparr>)) =
   observe sample_ctx (exec sample_host sample_ctx 0
      [sample_op (INDEX_op_movi TCG_TYPE_I32) [2, 5], dead_add, sample_op INDEX_op_exit_tb [0]] [sample_op INDEX_op_exit_tb [0]]
      \<lparr>tv = \<lambda>_. 1, mem = \<lambda>_. 0\<rparr>)"
proof -
  let ?pre = "[sample_op (INDEX_op_movi TCG_TYPE_I32) [2, 5], sample_op (INDEX_op_movi TCG_TYPE_I32) [3, 9]]"
  obtain prog' ts0 where p: "liveness_pass_1 sample_ctx (\<lambda>_. 0) dead_block = (prog', ts0)" by fastforce
  obtain rest' ts where r: "liveness_pass_1 sample_ctx (\<lambda>_. 0) dead_rest = (rest', ts)" by fastforce
  have b: "?pre @ dead_add # dead_rest = dead_block" by (simp add: dead_block_def dead_add_def dead_rest_def)
  have m: "map fst prog' = [sample_op (INDEX_op_movi TCG_TYPE_I32) [2, 5], dead_add, sample_op INDEX_op_exit_tb [0]]"
    "map fst rest' = [sample_op INDEX_op_exit_tb [0]]"
    using dead_block_pass p dead_rest_pass r by (simp_all add: dead_add_def)
  have ts: "ts = snd (liveness_pass_1 sample_ctx (\<lambda>_. 0) dead_rest)" using r by simp
  have a: "opc dead_add \<noteq> INDEX_op_discard" "op_oargs dead_add = 1" "args dead_add = [1, 0, 2]" "op_outs dead_add = {1}" "ordinary sample_ctx 2"
    by (simp_all add: dead_add_def sample_op_def arity_simps operand_sets ordinary_def sample_ctx_def)
  show ?thesis
    using life_data_sound[of ?pre dead_add dead_rest, unfolded b, OF dead_block_ok p r dead_add_life(1)[OF ts] a(1) _ _ _ dead_add_life(2)[OF ts], of 0 77]
    by (simp add: a m)
qed

end
