(* ===== verification/Spec2Isabelle.thy ===== *)
theory Spec2Isabelle
  imports Neon_Bits Neon_Permute Host_Utils Tcg_Life
begin

text \<open>
  \<^bold>\<open>The program.\<close> \<^verbatim>\<open>src/qemu\<close> is QEMU 2.7.0 reduced to its tiny code generator (TCG) with an ARM guest and an ARM
  host, built as a library that executes NEON code on ARM cores that have no NEON unit. An application's signal handler passes the
  register state to \<^verbatim>\<open>tcg-arm/tcg-arm.c\<close>; \<^verbatim>\<open>cpu-exec.c\<close> looks up or asks for a translation block;
  \<^verbatim>\<open>target-arm/translate.c\<close> decodes guest instructions into a list of operations of an intermediate representation
  (\<^verbatim>\<open>tcg/tcg.h\<close>, \<^verbatim>\<open>tcg/tcg-opc.h\<close>); \<^verbatim>\<open>tcg/optimize.c\<close> simplifies the list; \<^verbatim>\<open>tcg/tcg.c\<close> removes dead
  operations, allocates registers and emits ARM code through \<^verbatim>\<open>tcg/arm/tcg-target.inc.c\<close>. Most NEON data-processing instructions
  become a call of a helper of \<^verbatim>\<open>target-arm/neon_helper.c\<close>, applied to 32-bit or 64-bit pieces of the vector registers.

  The two parts whose results the guest program sees directly are verified here: the NEON helpers, against exact integer
  arithmetic on lanes, and the optimiser, against a semantics of the intermediate representation. Around them are
  the pieces they rely on: the CPU state, the bit-field primitives and the long arithmetic of the host utilities.

  \<^bold>\<open>Foundations.\<close>
  \<^item> \<open>Prelude\<close>: the C integer types as words, casts, and the integers they denote (collections \<open>cast_simps\<close> and others).
  \<^item> \<open>Bitops\<close> (\<^verbatim>\<open>include/qemu/bitops.h\<close>): rotations, \<^verbatim>\<open>extract\<close>, \<^verbatim>\<open>sextract\<close>, \<^verbatim>\<open>deposit\<close> and what they do bit by bit.
  \<^item> \<open>Host_Utils\<close> (\<^verbatim>\<open>util/host-utils.c\<close>, \<^verbatim>\<open>include/qemu/host-utils.h\<close>): 64 by 64 bit multiplication, 128 by 64 bit
    division, \<^verbatim>\<open>muldiv64\<close>; exact, with the overflow reports of the divisions characterised on every input.
  \<^item> \<open>Arm_Env\<close> (\<^verbatim>\<open>target-arm/cpu.h\<close>): the fields of \<^verbatim>\<open>CPUARMState\<close> that the modelled code reads and writes, and the
    sticky saturation flag \<^verbatim>\<open>QC\<close> of \<^verbatim>\<open>FPSCR\<close>.

  \<^bold>\<open>NEON helpers\<close> (\<^verbatim>\<open>target-arm/neon_helper.c\<close>). \<open>Neon_Lanes\<close> has the macros that unpack a word into lanes, apply a lane
  operation and pack the result. The locale \<open>neon_layout\<close> is the contract of a pair of unpacking and packing functions and lifts a fact
  about one lane to the vector; it is interpreted on the three layouts of a 32-bit word and, in \<open>Neon_Wide\<close>, on the two of a
  64-bit one. Its extension \<open>neon_word_layout\<close> places the lanes among the bits of the word, for comparison masks and bitwise selection. Each other theory translates a group of helpers and proves what they compute: \<open>Neon_Saturate\<close> (saturating addition and
  subtraction clamp the exact result and set \<open>QC\<close> exactly when they clamp), \<open>Neon_Arith\<close> (halving, comparisons, minima and maxima, packed
  additions), \<open>Neon_Shift\<close> (shifts by a signed amount, rounding, saturating), \<open>Neon_Wide\<close> (doubling multiply high, narrowing,
  widening), \<open>Neon_Long\<close> (64-bit lanes, long products, saturating sign manipulation), \<open>Neon_Bits\<close> (leading bits, population
  count, bit reversal, polynomial products) and \<open>Neon_Permute\<close> (zip and unzip on the register file, which undo each other and change
  no other state). Where the C code overflows a signed type the model wraps, as the compiled code does.

  \<^bold>\<open>Code generator.\<close>
  \<^item> \<open>Tcg_Ir\<close>: opcodes, the opcode table with its flags for a 32-bit host, conditions, operations, temporaries.
  \<^item> \<open>Tcg_Sem\<close>: the reference semantics. It is not translated from code: it states the documented meaning (\<^verbatim>\<open>tcg/README\<close>) of the
    operations. Helper functions, guest memory and the chaining of blocks are the parameter \<open>host\<close>, about which nothing is assumed.
  \<^item> \<open>Tcg_Optimize\<close>: \<^verbatim>\<open>tcg_optimize\<close> and every static function of \<^verbatim>\<open>tcg/optimize.c\<close>, one definition per function and one per
    section of the loop body; the static arrays are the state \<open>opt_info\<close>, a call of \<^verbatim>\<open>tcg_abort\<close> is \<open>None\<close>.
  \<^item> \<open>Tcg_Copies\<close>: the invariant \<open>valid\<close> of the table: circular doubly linked lists of copies, and what the table says of a temporary is true
    of its value. Every update keeps it.
  \<^item> \<open>Tcg_Fold\<close>, \<open>Tcg_Known_Bits\<close>, \<open>Tcg_Cond\<close>: constant folding, the masks of possibly set bits, and the decided
    conditions agree with the semantics.
  \<^item> \<open>Tcg_Simplify\<close>, \<open>Tcg_Rewrite\<close>, \<open>Tcg_Switch\<close>, \<open>Tcg_Step\<close>: each phase, each case of the switch, and one whole iteration replaces an
    operation by operations that do the same and leaves the table valid (\<open>sim\<close>); no iteration aborts on a well-formed operation.
  \<^item> \<open>Tcg_Optimize_Correct\<close>: the composition. A block and its optimised form have the same outcome from every state.
  \<^item> \<open>Tcg_Liveness\<close>: \<^verbatim>\<open>liveness_pass_1\<close> of \<^verbatim>\<open>tcg/tcg.c\<close>, which removes operations whose results are dead and records the life of
    arguments for the register allocator. \<open>Tcg_Liveness_Correct\<close>: two states that agree on what is needed lead to the same observable outcome
    (\<open>agree\<close>, \<open>related\<close>), so the shortened block does what the original does to globals and memory.
    \<open>Tcg_Life\<close>: the bits of the life data, and that a temporary recorded as dying is not used any more.

  \<^bold>\<open>Bounds and fuel.\<close> The walks over a list of copies are bounded by \<^verbatim>\<open>TCG_MAX_TEMPS\<close>, the size of the arrays; a valid
  list is a cycle of distinct temporaries below \<^verbatim>\<open>nb_temps\<close>, so the bound is never reached (\<open>Tcg_Copies\<close>). The loop of the pass, which visits
  some operations twice, is a total function by a weight of the operations that have not been visited. The semantics of a block counts taken jumps;
  the correctness of the pass is stated for every number of them, running out included.

  \<^bold>\<open>Well-formed blocks.\<close> \<open>wf_op\<close> says what the front end produces on a 32-bit host: an opcode that is present there (\<^verbatim>\<open>tcg-opc.h\<close>),
  enough arguments, temporaries below \<^verbatim>\<open>nb_temps\<close>, a condition that is a comparison, a deposit within the word, two different results where there are
  two. It excludes padding arguments of calls (\<^verbatim>\<open>TCG_CALL_DUMMY_ARG\<close>), on which the copy propagation reads outside its
  array, and \<^verbatim>\<open>div2\<close>, which this host does not have.

  \<^bold>\<open>Not modelled.\<close> The eight floating-point NEON helpers and \<^verbatim>\<open>fpu/softfloat.c\<close>, which they call: a model needs the IEEE arithmetic of
  softfloat, a development of its own. \<^verbatim>\<open>target-arm/translate.c\<close> and the other guest helpers: the decoder's correctness is relative to an ARM
  semantics that is not in the repository. The second liveness pass (globals in indirect memory, which this guest does not have), register allocation, the ARM back end and the relocation of code: they emit host
  instructions into memory, and a statement about them needs a semantics of host instructions. \<^verbatim>\<open>cpu-exec.c\<close>, \<^verbatim>\<open>translate-all.c\<close> and
  \<^verbatim>\<open>tcg-arm.c\<close>: block caches, signal masks, \<^verbatim>\<open>setjmp\<close> and calls into generated code. Devices, user interfaces, block and network
  layers, the other targets, glib, pixman and the firmware images are in the tree but are not part of the library build.
\<close>

end
